(* ===== verification/Prelude.thy ===== *)
theory Prelude
  imports Complex_Main
begin

text \<open>
  Shared vocabulary of the development: results of fallible Python code, insertion-ordered
  dictionaries, \<open>dict.fromkeys\<close> de-duplication, and the generic lemmas the component
  theories use through \<open>simp\<close> and the collections declared here.

  A Python function that may raise returns a value of \<open>'e + 'a\<close>: \<open>Inl\<close> is the exception,
  \<open>Inr\<close> the returned value. A Python \<open>dict\<close> keeps insertion order, which the program relies
  on when it iterates; it is an association list with distinct keys. A Python \<open>float\<close> is a
  rational number (no rounding is modelled).
\<close>

named_theorems py_defs \<open>definitions of small helpers, unfolded together in component proofs\<close>
named_theorems inv_intros \<open>preservation of component invariants\<close>

type_synonym pyfloat = rat

subsection \<open>Fallible code\<close>

fun rbind :: "'e + 'a \<Rightarrow> ('a \<Rightarrow> 'e + 'b) \<Rightarrow> 'e + 'b" where
  "rbind (Inl e) f = Inl e"
| "rbind (Inr x) f = f x"

lemma rbind_Inr_iff [simp]: "rbind r f = Inr y \<longleftrightarrow> (\<exists>x. r = Inr x \<and> f x = Inr y)"
  by (cases r) auto

lemma rbind_Inl_iff: "rbind r f = Inl e \<longleftrightarrow> r = Inl e \<or> (\<exists>x. r = Inr x \<and> f x = Inl e)"
  by (cases r) auto

text \<open>A guard: \<open>if b: raise e\<close>, then the rest of the body.\<close>

definition guard :: "bool \<Rightarrow> 'e \<Rightarrow> 'e + 'a \<Rightarrow> 'e + 'a" where
  "guard b e r = (if b then Inl e else r)"

lemma guard_Inr_iff [simp]: "guard b e r = Inr y \<longleftrightarrow> \<not> b \<and> r = Inr y"
  by (simp add: guard_def)

lemma guard_Inl_iff: "guard b e r = Inl e' \<longleftrightarrow> (b \<and> e' = e) \<or> (\<not> b \<and> r = Inl e')"
  by (auto simp: guard_def)

lemma guard_simps [simp]: "guard True e r = Inl e" "guard False e r = r"
  by (simp_all add: guard_def)

text \<open>A loop whose body can raise, and its invariant rule.\<close>

fun rfold :: "('s \<Rightarrow> 'a \<Rightarrow> 'e + 's) \<Rightarrow> 's \<Rightarrow> 'a list \<Rightarrow> 'e + 's" where
  "rfold f s [] = Inr s"
| "rfold f s (x # xs) = rbind (f s x) (\<lambda>s'. rfold f s' xs)"

lemma rfold_snoc: "rfold f s (xs @ [x]) = rbind (rfold f s xs) (\<lambda>s'. f s' x)"
proof (induction xs arbitrary: s)
  case Nil
  show ?case by (cases "f s x") simp_all
next
  case (Cons y xs)
  then show ?case by (cases "f s y") simp_all
qed

lemma rfold_invariant:
  assumes "rfold f s xs = Inr t" "P [] s"
    and "\<And>ys y s s'. P ys s \<Longrightarrow> y \<in> set xs \<Longrightarrow> f s y = Inr s' \<Longrightarrow> P (ys @ [y]) s'"
  shows "P xs t"
  using assms
proof (induction xs arbitrary: t rule: rev_induct)
  case (snoc x xs)
  then obtain u where "rfold f s xs = Inr u" "f u x = Inr t" by (auto simp: rfold_snoc)
  then show ?case using snoc by auto
qed simp

subsection \<open>Insertion-ordered dictionaries\<close>

type_synonym ('k, 'v) dict = "('k \<times> 'v) list"

definition dict_get :: "('k, 'v) dict \<Rightarrow> 'k \<Rightarrow> 'v option" where
  "dict_get d k = map_of d k"

text \<open>Assignment \<open>d[k] = v\<close> keeps the position of an existing key.\<close>

fun dict_set :: "('k, 'v) dict \<Rightarrow> 'k \<Rightarrow> 'v \<Rightarrow> ('k, 'v) dict" where
  "dict_set [] k v = [(k, v)]"
| "dict_set ((k', v') # d) k v = (if k' = k then (k, v) # d else (k', v') # dict_set d k v)"

definition dict_pop :: "('k, 'v) dict \<Rightarrow> 'k \<Rightarrow> ('k, 'v) dict" where
  "dict_pop d k = filter (\<lambda>kv. fst kv \<noteq> k) d"

definition dict_values :: "('k, 'v) dict \<Rightarrow> 'v list" where
  "dict_values d = map snd d"

definition dict_wf :: "('k, 'v) dict \<Rightarrow> bool" where
  "dict_wf d \<longleftrightarrow> distinct (map fst d)"

definition dict_get_or :: "('k, 'v) dict \<Rightarrow> 'k \<Rightarrow> 'v \<Rightarrow> 'v" where
  "dict_get_or d k v = (case dict_get d k of None \<Rightarrow> v | Some w \<Rightarrow> w)"

lemma dict_keys_set: "fst ` set (dict_set d k v) = insert k (fst ` set d)"
  by (induction d k v rule: dict_set.induct) auto

lemma dict_get_set: "dict_get (dict_set d k v) = (dict_get d)(k \<mapsto> v)"
  by (induction d k v rule: dict_set.induct) (auto simp: dict_get_def fun_eq_iff)

lemma dict_set_fresh: "k \<notin> fst ` set d \<Longrightarrow> dict_set d k v = d @ [(k, v)]"
  by (induction d k v rule: dict_set.induct) auto

lemma dict_get_pop: "dict_get (dict_pop d k) = (dict_get d)(k := None)"
  by (induction d) (auto simp: dict_get_def dict_pop_def fun_eq_iff)

lemma dict_wf_set: "dict_wf d \<Longrightarrow> dict_wf (dict_set d k v)"
  by (induction d k v rule: dict_set.induct) (auto simp: dict_wf_def dict_keys_set)

lemma dict_wf_pop: "dict_wf d \<Longrightarrow> dict_wf (dict_pop d k)"
  unfolding dict_wf_def dict_pop_def by (rule distinct_map_filter)

text \<open>The interface the components rely on: a finite map with lookup, store and removal.\<close>

locale store_map =
  fixes lookup :: "'m \<Rightarrow> 'k \<Rightarrow> 'v option"
    and store :: "'m \<Rightarrow> 'k \<Rightarrow> 'v \<Rightarrow> 'm"
    and remove :: "'m \<Rightarrow> 'k \<Rightarrow> 'm"
    and wf :: "'m \<Rightarrow> bool"
  assumes lookup_store: "lookup (store m k v) = (lookup m)(k \<mapsto> v)"
    and lookup_remove: "lookup (remove m k) = (lookup m)(k := None)"
    and wf_store: "wf m \<Longrightarrow> wf (store m k v)"
    and wf_remove: "wf m \<Longrightarrow> wf (remove m k)"
begin

lemma lookup_store_same: "lookup (store m k v) k = Some v"
  by (simp add: lookup_store)

lemma lookup_store_other: "k' \<noteq> k \<Longrightarrow> lookup (store m k v) k' = lookup m k'"
  by (simp add: lookup_store)

lemma lookup_remove_same: "lookup (remove m k) k = None"
  by (simp add: lookup_remove)

lemma lookup_remove_other: "k' \<noteq> k \<Longrightarrow> lookup (remove m k) k' = lookup m k'"
  by (simp add: lookup_remove)

lemma store_fold_lookup:
  "k \<notin> fst ` set kvs \<Longrightarrow> lookup (fold (\<lambda>(k, v) m. store m k v) kvs m) k = lookup m k"
  by (induction kvs arbitrary: m) (auto simp: lookup_store)

lemma remove_fold_lookup:
  "lookup (fold (\<lambda>k m. remove m k) ks m) k = (if k \<in> set ks then None else lookup m k)"
  by (induction ks arbitrary: m) (auto simp: lookup_remove)

lemma wf_remove_fold: "wf m \<Longrightarrow> wf (fold (\<lambda>k m. remove m k) ks m)"
  by (induction ks arbitrary: m) (auto intro: wf_remove)

end

interpretation dict: store_map dict_get dict_set dict_pop dict_wf
  by unfold_locales (auto simp: dict_get_set dict_get_pop intro: dict_wf_set dict_wf_pop)

lemma dict_get_Some_iff: "dict_wf d \<Longrightarrow> dict_get d k = Some v \<longleftrightarrow> (k, v) \<in> set d"
  unfolding dict_wf_def dict_get_def by (metis map_of_eq_Some_iff)

lemma dict_values_iff: "dict_wf d \<Longrightarrow> v \<in> set (dict_values d) \<longleftrightarrow> (\<exists>k. dict_get d k = Some v)"
  by (force simp: dict_values_def dict_get_Some_iff)

lemma dict_wf_Nil [simp]: "dict_wf []"
  by (simp add: dict_wf_def)

lemma dict_get_Nil [simp]: "dict_get [] k = None"
  by (simp add: dict_get_def)

lemma dict_values_set_subset: "set (dict_values (dict_set d k v)) \<subseteq> insert v (set (dict_values d))"
  by (induction d k v rule: dict_set.induct) (auto simp: dict_values_def)

lemma dict_get_Cons: "dict_get ((k', v) # d) k = (if k' = k then Some v else dict_get d k)"
  by (simp add: dict_get_def)

subsection \<open>Order-preserving de-duplication: \<open>dict.fromkeys\<close>\<close>

definition add_key :: "'a \<Rightarrow> 'a list \<Rightarrow> 'a list" where
  "add_key x acc = (if x \<in> set acc then acc else acc @ [x])"

definition fromkeys :: "'a list \<Rightarrow> 'a list" where
  "fromkeys xs = fold add_key xs []"

lemma set_add_key [simp]: "set (add_key x acc) = insert x (set acc)"
  by (auto simp: add_key_def)

lemma fold_add_key_set: "set (fold add_key xs acc) = set acc \<union> set xs"
  by (induction xs arbitrary: acc) auto

lemma fold_add_key_distinct: "distinct acc \<Longrightarrow> distinct (fold add_key xs acc)"
  by (induction xs arbitrary: acc) (auto simp: add_key_def)

lemma set_fromkeys [simp]: "set (fromkeys xs) = set xs"
  by (simp add: fromkeys_def fold_add_key_set)

lemma distinct_fromkeys [simp]: "distinct (fromkeys xs)"
  by (simp add: fromkeys_def fold_add_key_distinct)

lemma fromkeys_Nil [simp]: "fromkeys [] = []"
  by (simp add: fromkeys_def)

lemma fromkeys_eq_Nil [simp]: "fromkeys xs = [] \<longleftrightarrow> xs = []"
proof -
  have "fromkeys xs = [] \<longleftrightarrow> set (fromkeys xs) = {}" by (simp del: set_fromkeys)
  then show ?thesis by simp
qed

lemma fold_add_key_fresh:
  "distinct (acc @ xs) \<Longrightarrow> fold add_key xs acc = acc @ xs"
  by (induction xs arbitrary: acc) (auto simp: add_key_def)

lemma fold_add_key_prefix: "\<exists>zs. fold add_key xs acc = acc @ zs"
proof (induction xs arbitrary: acc)
  case Nil
  show ?case by simp
next
  case (Cons x xs)
  obtain zs where "fold add_key xs (add_key x acc) = add_key x acc @ zs"
    using Cons.IH by blast
  then have "fold add_key (x # xs) acc = acc @ (if x \<in> set acc then zs else x # zs)"
    by (cases "x \<in> set acc") (simp_all add: add_key_def [of x])
  then show ?case by blast
qed

lemma fromkeys_distinct [simp]: "distinct xs \<Longrightarrow> fromkeys xs = xs"
  using fold_add_key_fresh [of "[]" xs] by (simp add: fromkeys_def)

lemma fromkeys_append_prefix: "distinct xs \<Longrightarrow> \<exists>zs. fromkeys (xs @ ys) = xs @ zs"
  using fold_add_key_prefix [of ys xs] fromkeys_distinct [of xs]
  by (simp add: fromkeys_def)

lemma fromkeys_absorb: "distinct xs \<Longrightarrow> set ys \<subseteq> set xs \<Longrightarrow> fromkeys (xs @ ys) = xs"
proof -
  assume d: "distinct xs" and s: "set ys \<subseteq> set xs"
  have "fold add_key ys xs = xs"
    using s by (induction ys) (auto simp: add_key_def)
  then show ?thesis using d fromkeys_distinct [of xs] by (simp add: fromkeys_def)
qed

lemma length_fromkeys: "length (fromkeys xs) \<le> length xs"
  by (metis card_length distinct_card distinct_fromkeys set_fromkeys)

subsection \<open>Lists\<close>

definition find_opt :: "('a \<Rightarrow> bool) \<Rightarrow> 'a list \<Rightarrow> 'a option" where
  "find_opt P xs = List.find P xs"

lemma find_opt_simps [simp]:
  "find_opt P [] = None"
  "find_opt P (x # xs) = (if P x then Some x else find_opt P xs)"
  by (simp_all add: find_opt_def)

lemma find_opt_Some: "find_opt P xs = Some x \<Longrightarrow> x \<in> set xs \<and> P x"
  by (induction xs) (auto split: if_splits)

lemma find_opt_append: "find_opt P (xs @ ys) = (case find_opt P xs of None \<Rightarrow> find_opt P ys | Some x \<Rightarrow> Some x)"
  by (induction xs) auto

lemma find_opt_None: "find_opt P xs = None \<longleftrightarrow> (\<forall>x\<in>set xs. \<not> P x)"
  by (induction xs) auto

lemma concat_map_eq_Nil: "concat (map f xs) = [] \<longleftrightarrow> (\<forall>x\<in>set xs. f x = [])"
  by (induction xs) auto

text \<open>Python slices \<open>xs[:n]\<close>, \<open>xs[n:]\<close> and \<open>xs[-n:]\<close> for a non-negative integer \<open>n\<close>.\<close>

definition slice_to :: "int \<Rightarrow> 'a list \<Rightarrow> 'a list" where
  "slice_to n xs = take (nat n) xs"

definition slice_from :: "int \<Rightarrow> 'a list \<Rightarrow> 'a list" where
  "slice_from n xs = drop (nat n) xs"

definition slice_last :: "nat \<Rightarrow> 'a list \<Rightarrow> 'a list" where
  "slice_last n xs = (if n = 0 then xs else drop (length xs - n) xs)"

lemma length_slice_last: "0 < n \<Longrightarrow> length (slice_last n xs) = min n (length xs)"
  by (simp add: slice_last_def)

end
