(* ===== verification/Py_Text.thy ===== *)
theory Py_Text
  imports Prelude "HOL-Library.Sublist" "HOL-Library.List_Lexorder" "HOL-Library.Char_ord"
begin

text \<open>
  Python strings. A \<open>str\<close> is a list of \<open>char\<close>, so the model covers the code points 0 to 255;
  the character classes (\<open>isspace\<close>, line boundaries, case folding, printability) are those of
  CPython on that range. Every operation here is one the modelled sources call.
\<close>

type_synonym str = string

abbreviation NL :: char where "NL \<equiv> CHR 0x0A"
abbreviation CR :: char where "CR \<equiv> CHR 0x0D"
abbreviation TAB :: char where "TAB \<equiv> CHR 0x09"
abbreviation BSL :: char where "BSL \<equiv> CHR 0x5C"
abbreviation SQ :: char where "SQ \<equiv> CHR 0x27"
abbreviation DQ :: char where "DQ \<equiv> CHR 0x22"

subsection \<open>Character classes\<close>

definition py_isspace :: "char \<Rightarrow> bool" where
  "py_isspace c \<longleftrightarrow> c \<in> {CHR 0x09, CHR 0x0A, CHR 0x0B, CHR 0x0C, CHR 0x0D, CHR 0x1C, CHR 0x1D,
     CHR 0x1E, CHR 0x1F, CHR 0x20, CHR 0x85, CHR 0xA0}"

definition py_isdigit :: "char \<Rightarrow> bool" where
  "py_isdigit c \<longleftrightarrow> CHR 0x30 \<le> c \<and> c \<le> CHR 0x39"

definition py_isalpha_ascii :: "char \<Rightarrow> bool" where
  "py_isalpha_ascii c \<longleftrightarrow> CHR 0x41 \<le> c \<and> c \<le> CHR 0x5A \<or> CHR 0x61 \<le> c \<and> c \<le> CHR 0x7A"

text \<open>The class \<open>\w\<close> of \<open>re\<close>: alphanumeric characters and the underscore.\<close>

definition py_isword :: "char \<Rightarrow> bool" where
  "py_isword c \<longleftrightarrow> py_isdigit c \<or> py_isalpha_ascii c \<or> c = CHR 0x5F
     \<or> c \<in> {CHR 0xAA, CHR 0xB2, CHR 0xB3, CHR 0xB5, CHR 0xB9, CHR 0xBA, CHR 0xBC, CHR 0xBD, CHR 0xBE}
     \<or> CHR 0xC0 \<le> c \<and> c \<noteq> CHR 0xD7 \<and> c \<noteq> CHR 0xF7"

definition py_isprintable :: "char \<Rightarrow> bool" where
  "py_isprintable c \<longleftrightarrow> CHR 0x20 \<le> c \<and> c \<le> CHR 0x7E \<or> CHR 0xA1 \<le> c \<and> c \<noteq> CHR 0xAD"

definition char_plus :: "nat \<Rightarrow> char \<Rightarrow> char" where
  "char_plus n c = char_of (of_char c + n)"

text \<open>
  \<open>str.lower\<close>, and \<open>str.casefold\<close> one character at a time; they differ on the sharp s
  (the micro sign folds to a letter outside the modelled range and is left alone).
\<close>

definition lower_char :: "char \<Rightarrow> char" where
  "lower_char c = (if CHR 0x41 \<le> c \<and> c \<le> CHR 0x5A
     \<or> CHR 0xC0 \<le> c \<and> c \<le> CHR 0xDE \<and> c \<noteq> CHR 0xD7 then char_plus 32 c else c)"

definition py_lower :: "str \<Rightarrow> str" where
  "py_lower s = map lower_char s"

definition py_casefold :: "str \<Rightarrow> str" where
  "py_casefold s = concat (map (\<lambda>c. if c = CHR 0xDF then ''ss'' else [lower_char c]) s)"

subsection \<open>Stripping, prefixes, search\<close>

definition py_lstrip :: "str \<Rightarrow> str" where
  "py_lstrip s = dropWhile py_isspace s"

definition py_rstrip :: "str \<Rightarrow> str" where
  "py_rstrip s = rev (dropWhile py_isspace (rev s))"

definition py_strip :: "str \<Rightarrow> str" where
  "py_strip s = py_rstrip (py_lstrip s)"

definition lstrip_chars :: "char list \<Rightarrow> str \<Rightarrow> str" where
  "lstrip_chars cs s = dropWhile (\<lambda>c. c \<in> set cs) s"

definition rstrip_chars :: "char list \<Rightarrow> str \<Rightarrow> str" where
  "rstrip_chars cs s = rev (dropWhile (\<lambda>c. c \<in> set cs) (rev s))"

fun startswith :: "str \<Rightarrow> str \<Rightarrow> bool" where
  "startswith s [] = True"
| "startswith [] (p # ps) = False"
| "startswith (c # s) (p # ps) = (c = p \<and> startswith s ps)"

definition endswith :: "str \<Rightarrow> str \<Rightarrow> bool" where
  "endswith s p = startswith (rev s) (rev p)"

text \<open>\<open>needle in s\<close>.\<close>

fun py_in :: "str \<Rightarrow> str \<Rightarrow> bool" where
  "py_in n [] = (n = [])"
| "py_in n (c # s) = (startswith (c # s) n \<or> py_in n s)"

definition replace_char :: "char \<Rightarrow> char \<Rightarrow> str \<Rightarrow> str" where
  "replace_char a b s = map (\<lambda>c. if c = a then b else c) s"

text \<open>The path normalisation \<open>s.replace('\\', '/')\<close> that occurs throughout the program.\<close>

definition slashes :: "str \<Rightarrow> str" where
  "slashes s = replace_char BSL (CHR 0x2F) s"

lemma startswith_iff_prefix: "startswith s p \<longleftrightarrow> prefix p s"
  by (induction s p rule: startswith.induct) auto

lemma endswith_iff_suffix: "endswith s p \<longleftrightarrow> suffix p s"
  by (simp add: endswith_def startswith_iff_prefix suffix_to_prefix)

lemma py_in_iff_sublist: "py_in n s \<longleftrightarrow> sublist n s"
  by (induction n s rule: py_in.induct)
    (auto simp: startswith_iff_prefix sublist_Cons_right simp del: startswith.simps)

lemma dropWhile_idem: "dropWhile P (dropWhile P xs) = dropWhile P xs"
  by (induction xs) auto

lemma py_lstrip_idem [simp]: "py_lstrip (py_lstrip s) = py_lstrip s"
  by (simp add: py_lstrip_def dropWhile_idem)

lemma py_rstrip_idem [simp]: "py_rstrip (py_rstrip s) = py_rstrip s"
  by (simp add: py_rstrip_def dropWhile_idem)

lemma py_rstrip_Cons: "py_rstrip (c # s) = (if py_isspace c \<and> py_rstrip s = [] then [] else c # py_rstrip s)"
  by (auto simp: py_rstrip_def dropWhile_append dropWhile_eq_Nil_conv)

lemma py_lstrip_rstrip: "py_lstrip (py_rstrip s) = py_rstrip (py_lstrip s)"
proof (induction s)
  case Nil
  show ?case by (simp add: py_lstrip_def py_rstrip_def)
next
  case (Cons c s)
  then show ?case
    by (cases "py_isspace c") (auto simp: py_rstrip_Cons py_lstrip_def)
qed

lemma py_strip_idem [simp]: "py_strip (py_strip s) = py_strip s"
proof -
  have "py_strip (py_strip s) = py_rstrip (py_lstrip (py_rstrip (py_lstrip s)))"
    by (simp only: py_strip_def)
  also have "\<dots> = py_strip s"
    by (simp add: py_lstrip_rstrip py_strip_def)
  finally show ?thesis .
qed

lemma py_strip_Nil [simp]: "py_strip [] = []"
  by (simp add: py_strip_def py_lstrip_def py_rstrip_def)

lemma slashes_no_backslash: "BSL \<notin> set (slashes s)"
  by (auto simp: slashes_def replace_char_def)

lemma slashes_idem [simp]: "slashes (slashes s) = slashes s"
  by (auto simp: slashes_def replace_char_def)

lemma length_slashes [simp]: "length (slashes s) = length s"
  by (simp add: slashes_def replace_char_def)

subsection \<open>Lines and separators\<close>

text \<open>\<open>str.splitlines\<close>: every line boundary of the range ends a line, CRLF counts once.\<close>

definition is_linebreak :: "char \<Rightarrow> bool" where
  "is_linebreak c \<longleftrightarrow> c \<in> {CHR 0x0A, CHR 0x0B, CHR 0x0C, CHR 0x0D, CHR 0x1C, CHR 0x1D, CHR 0x1E, CHR 0x85}"

fun splitlines_acc :: "str \<Rightarrow> str \<Rightarrow> str list" where
  "splitlines_acc acc [] = (if acc = [] then [] else [rev acc])"
| "splitlines_acc acc [c] = (if is_linebreak c then [rev acc] else [rev (c # acc)])"
| "splitlines_acc acc (c # d # s) =
     (if c = CR \<and> d = NL then rev acc # splitlines_acc [] s
      else if is_linebreak c then rev acc # splitlines_acc [] (d # s)
      else splitlines_acc (c # acc) (d # s))"

definition splitlines :: "str \<Rightarrow> str list" where
  "splitlines s = splitlines_acc [] s"

fun split_char_acc :: "char \<Rightarrow> str \<Rightarrow> str \<Rightarrow> str list" where
  "split_char_acc sep acc [] = [rev acc]"
| "split_char_acc sep acc (c # s) =
     (if c = sep then rev acc # split_char_acc sep [] s else split_char_acc sep (c # acc) s)"

text \<open>\<open>s.split(sep)\<close> for a one-character separator.\<close>

definition split_char :: "char \<Rightarrow> str \<Rightarrow> str list" where
  "split_char sep s = split_char_acc sep [] s"

fun split_ws_acc :: "str \<Rightarrow> str \<Rightarrow> str list" where
  "split_ws_acc acc [] = (if acc = [] then [] else [rev acc])"
| "split_ws_acc acc (c # s) =
     (if py_isspace c then (if acc = [] then split_ws_acc [] s else rev acc # split_ws_acc [] s)
      else split_ws_acc (c # acc) s)"

text \<open>\<open>s.split()\<close>: maximal runs of non-space characters.\<close>

definition split_ws :: "str \<Rightarrow> str list" where
  "split_ws s = split_ws_acc [] s"

fun py_join :: "str \<Rightarrow> str list \<Rightarrow> str" where
  "py_join sep [] = []"
| "py_join sep [x] = x"
| "py_join sep (x # y # xs) = x @ sep @ py_join sep (y # xs)"

definition no_break :: "str \<Rightarrow> bool" where
  "no_break s \<longleftrightarrow> (\<forall>c\<in>set s. \<not> is_linebreak c)"

lemma splitlines_acc_no_break:
  "no_break acc \<Longrightarrow> l \<in> set (splitlines_acc acc s) \<Longrightarrow> no_break l"
proof (induction acc s rule: splitlines_acc.induct)
  case (3 acc c d s)
  show ?case
  proof (cases "is_linebreak c")
    case True
    with "3.prems" "3.IH"(1,2) show ?thesis by (auto simp: no_break_def split: if_splits)
  next
    case False
    then have "\<not> (c = CR \<and> d = NL)" by (auto simp: is_linebreak_def)
    with False "3.prems" "3.IH"(3) show ?thesis by (simp add: no_break_def)
  qed
qed (auto simp: no_break_def split: if_splits)

lemma splitlines_no_break: "l \<in> set (splitlines s) \<Longrightarrow> no_break l"
  unfolding splitlines_def by (rule splitlines_acc_no_break) (simp_all add: no_break_def)

lemma NL_is_linebreak [simp]: "is_linebreak NL"
  by (simp add: is_linebreak_def)

lemma splitlines_acc_line:
  "no_break l \<Longrightarrow> splitlines_acc acc (l @ NL # s) = (rev acc @ l) # splitlines_acc [] s"
proof (induction l arbitrary: acc)
  case Nil
  then show ?case by (cases s) simp_all
next
  case (Cons c l)
  then have c: "\<not> is_linebreak c" "c \<noteq> CR" and l: "no_break l"
    by (auto simp: no_break_def is_linebreak_def)
  have "splitlines_acc acc ((c # l) @ NL # s) = splitlines_acc (c # acc) (l @ NL # s)"
    using c by (cases "l @ NL # s") simp_all
  then show ?case using Cons.IH [OF l] by simp
qed

lemma splitlines_line: "no_break l \<Longrightarrow> splitlines (l @ NL # s) = l # splitlines s"
  by (simp add: splitlines_def splitlines_acc_line)

text \<open>Joining lines with a final newline and splitting them again is the identity.\<close>

lemma splitlines_join:
  "list_all no_break ls \<Longrightarrow> ls \<noteq> [] \<Longrightarrow> splitlines (py_join [NL] ls @ [NL]) = ls"
proof (induction ls rule: induct_list012)
  case 1
  then show ?case by simp
next
  case (2 x)
  then show ?case using splitlines_line [of x "[]"] by (simp add: splitlines_def)
next
  case (3 x y zs)
  then show ?case by (simp add: splitlines_line)
qed

subsection \<open>Numbers and quoting\<close>

fun nat_str :: "nat \<Rightarrow> str" where
  "nat_str n = (if n < 10 then [char_of (48 + n)] else nat_str (n div 10) @ [char_of (48 + n mod 10)])"

declare nat_str.simps [simp del]

definition int_str :: "int \<Rightarrow> str" where
  "int_str i = (if i < 0 then CHR 0x2D # nat_str (nat (- i)) else nat_str (nat i))"

definition digit_val :: "char \<Rightarrow> nat" where
  "digit_val c = of_char c - 48"

definition parse_nat :: "str \<Rightarrow> nat" where
  "parse_nat s = foldl (\<lambda>n c. 10 * n + digit_val c) 0 s"

definition hex_digit :: "nat \<Rightarrow> char" where
  "hex_digit n = char_of (if n < 10 then 48 + n else 87 + n)"

text \<open>\<open>repr\<close> of a string, as f-strings with \<open>!r\<close> render it.\<close>

definition repr_char :: "char \<Rightarrow> char \<Rightarrow> str" where
  "repr_char q c =
     (if c = q \<or> c = BSL then [BSL, c]
      else if c = TAB then [BSL, CHR 0x74]
      else if c = NL then [BSL, CHR 0x6E]
      else if c = CR then [BSL, CHR 0x72]
      else if py_isprintable c then [c]
      else [BSL, CHR 0x78, hex_digit (of_char c div 16), hex_digit (of_char c mod 16)])"

definition py_repr :: "str \<Rightarrow> str" where
  "py_repr s = (let q = (if SQ \<in> set s \<and> DQ \<notin> set s then DQ else SQ)
     in [q] @ concat (map (repr_char q) s) @ [q])"

lemma digit_val_char_of: "(d::nat) < 10 \<Longrightarrow> digit_val (char_of (48 + d)) = d"
  by (simp add: digit_val_def)

lemma parse_nat_append: "parse_nat (s @ [c]) = 10 * parse_nat s + digit_val c"
  by (simp add: parse_nat_def)

lemma parse_nat_str: "parse_nat (nat_str n) = n"
proof (induction n rule: nat_str.induct)
  case (1 n)
  show ?case
  proof (cases "n < 10")
    case True
    then show ?thesis
      by (simp add: nat_str.simps [of n] parse_nat_def digit_val_char_of)
  next
    case False
    then show ?thesis
      using "1.IH" by (simp add: nat_str.simps [of n] parse_nat_append digit_val_char_of)
  qed
qed

lemma nat_str_inject: "nat_str m = nat_str n \<longleftrightarrow> m = n"
  by (metis parse_nat_str)

lemma nat_str_nonempty [simp]: "nat_str n \<noteq> []"
  by (subst nat_str.simps) simp

lemma py_isdigit_char_of: "(d::nat) < 10 \<Longrightarrow> py_isdigit (char_of (48 + d))"
proof -
  assume "d < 10"
  then have "d \<in> {0, 1, 2, 3, 4, 5, 6, 7, 8, 9}" by auto
  then show ?thesis
    by (auto simp: py_isdigit_def less_eq_char_def)
qed

lemma nat_str_digits: "\<forall>c\<in>set (nat_str n). py_isdigit c"
proof (induction n rule: nat_str.induct)
  case (1 n)
  show ?case
  proof (cases "n < 10")
    case True
    then show ?thesis by (simp add: nat_str.simps [of n] py_isdigit_char_of)
  next
    case False
    then show ?thesis using "1.IH" by (simp add: nat_str.simps [of n] py_isdigit_char_of)
  qed
qed

end
