(* ===== verification/Json.thy ===== *)
theory Json
  imports Py_Text
begin

text \<open>
  JSON values as the program holds them (messages, tool arguments, metadata), and the text
  \<open>json.dumps(value, ensure_ascii=False)\<close> gives for them. A float is written through the
  parameter \<open>frepr\<close>, which stands for CPython's shortest-digits \<open>float.__repr__\<close>.
\<close>

datatype py_exn =
    ValueError str
  | KeyError str
  | TypeError str
  | RuntimeError str
  | OSError str
  | AttributeError str

datatype json =
    JNull
  | JBool bool
  | JInt int
  | JFloat pyfloat
  | JStr str
  | JList "json list"
  | JObj "(str \<times> json) list"

type_synonym jdict = "(str, json) dict"

definition json_escape :: "char \<Rightarrow> str" where
  "json_escape c =
     (if c = DQ then [BSL, DQ]
      else if c = BSL then [BSL, BSL]
      else if c = NL then [BSL, CHR 0x6E]
      else if c = CR then [BSL, CHR 0x72]
      else if c = TAB then [BSL, CHR 0x74]
      else if c = CHR 0x08 then [BSL, CHR 0x62]
      else if c = CHR 0x0C then [BSL, CHR 0x66]
      else if c < CHR 0x20 then [BSL, CHR 0x75, CHR 0x30, CHR 0x30,
             hex_digit (of_char c div 16), hex_digit (of_char c mod 16)]
      else [c])"

definition json_quote :: "str \<Rightarrow> str" where
  "json_quote s = [DQ] @ concat (map json_escape s) @ [DQ]"

fun json_dumps :: "(pyfloat \<Rightarrow> str) \<Rightarrow> json \<Rightarrow> str" where
  "json_dumps frepr JNull = ''null''"
| "json_dumps frepr (JBool b) = (if b then ''true'' else ''false'')"
| "json_dumps frepr (JInt i) = int_str i"
| "json_dumps frepr (JFloat q) = frepr q"
| "json_dumps frepr (JStr s) = json_quote s"
| "json_dumps frepr (JList vs) = ''['' @ py_join '', '' (map (json_dumps frepr) vs) @ '']''"
| "json_dumps frepr (JObj kvs) =
     ''{'' @ py_join '', '' (map (\<lambda>kv. json_quote (fst kv) @ '': '' @ json_dumps frepr (snd kv)) kvs) @ ''}''"

text \<open>Truthiness \<open>bool(v)\<close> and \<open>isinstance\<close> tests of the sources.\<close>

fun json_truthy :: "json \<Rightarrow> bool" where
  "json_truthy JNull = False"
| "json_truthy (JBool b) = b"
| "json_truthy (JInt i) = (i \<noteq> 0)"
| "json_truthy (JFloat q) = (q \<noteq> 0)"
| "json_truthy (JStr s) = (s \<noteq> [])"
| "json_truthy (JList vs) = (vs \<noteq> [])"
| "json_truthy (JObj kvs) = (kvs \<noteq> [])"

fun json_str_opt :: "json \<Rightarrow> str option" where
  "json_str_opt (JStr s) = Some s"
| "json_str_opt _ = None"

fun json_obj_opt :: "json \<Rightarrow> jdict option" where
  "json_obj_opt (JObj kvs) = Some kvs"
| "json_obj_opt _ = None"

fun json_list_opt :: "json \<Rightarrow> json list option" where
  "json_list_opt (JList vs) = Some vs"
| "json_list_opt _ = None"

definition jget :: "jdict \<Rightarrow> str \<Rightarrow> json" where
  "jget d k = dict_get_or d k JNull"

definition jget_str :: "jdict \<Rightarrow> str \<Rightarrow> str option" where
  "jget_str d k = (case dict_get d k of Some (JStr s) \<Rightarrow> Some s | _ \<Rightarrow> None)"

definition has_type :: "jdict \<Rightarrow> str \<Rightarrow> bool" where
  "has_type d t \<longleftrightarrow> dict_get d ''type'' = Some (JStr t)"

text \<open>
  Conversions of JSON values: \<open>pr\<close> is \<open>str\<close> on values that are no strings, \<open>fl\<close> is \<open>float\<close> on
  strings (\<open>None\<close> where it raises). Iterating a string gives its characters.
\<close>

definition str_of :: "(json \<Rightarrow> str) \<Rightarrow> json \<Rightarrow> str" where
  "str_of pr v = (case v of JStr s \<Rightarrow> s | _ \<Rightarrow> pr v)"

definition parse_int :: "str \<Rightarrow> int option" where
  "parse_int s =
     (let t = py_strip s;
          neg = startswith t ''-'';
          d = (if neg \<or> startswith t ''+'' then tl t else t)
      in if d \<noteq> [] \<and> list_all py_isdigit d
         then Some (if neg then - int (parse_nat d) else int (parse_nat d)) else None)"

definition int_of :: "json \<Rightarrow> int option" where
  "int_of v = (case v of JInt i \<Rightarrow> Some i | JBool b \<Rightarrow> Some (if b then 1 else 0)
     | JFloat q \<Rightarrow> Some (if q < 0 then - \<lfloor>- q\<rfloor> else \<lfloor>q\<rfloor>) | JStr s \<Rightarrow> parse_int s | _ \<Rightarrow> None)"

definition float_of :: "(str \<Rightarrow> pyfloat option) \<Rightarrow> json \<Rightarrow> pyfloat option" where
  "float_of fl v = (case v of JInt i \<Rightarrow> Some (of_int i) | JBool b \<Rightarrow> Some (if b then 1 else 0)
     | JFloat q \<Rightarrow> Some q | JStr s \<Rightarrow> fl s | _ \<Rightarrow> None)"

definition iter_of :: "json \<Rightarrow> json list option" where
  "iter_of v = (case v of JList vs \<Rightarrow> Some vs | JStr s \<Rightarrow> Some (map (\<lambda>c. JStr [c]) s)
     | JObj d \<Rightarrow> Some (map (\<lambda>kv. JStr (fst kv)) d) | _ \<Rightarrow> None)"

text \<open>\<open>repr\<close> of a JSON value held as Python objects; \<open>str\<close> differs on strings only.\<close>

fun json_repr :: "(pyfloat \<Rightarrow> str) \<Rightarrow> json \<Rightarrow> str" where
  "json_repr frepr JNull = ''None''"
| "json_repr frepr (JBool b) = (if b then ''True'' else ''False'')"
| "json_repr frepr (JInt i) = int_str i"
| "json_repr frepr (JFloat q) = frepr q"
| "json_repr frepr (JStr s) = py_repr s"
| "json_repr frepr (JList vs) = ''['' @ py_join '', '' (map (json_repr frepr) vs) @ '']''"
| "json_repr frepr (JObj kvs) =
     ''{'' @ py_join '', '' (map (\<lambda>kv. py_repr (fst kv) @ '': '' @ json_repr frepr (snd kv)) kvs) @ ''}''"

end
