(* ===== verification/Messages.thy ===== *)
theory Messages
  imports Json
begin

text \<open>
  \<open>forge/messages.py\<close>: bounded model input. An input is plain text or a list of text and
  image blocks (JSON objects); \<open>normalize_input\<close> is the gate every user turn and every rich
  tool result passes. Bytes are numbers below 256. \<open>base64.b64decode(..., validate=True)\<close> is
  the parameter \<open>b64decode\<close> (\<open>None\<close> where it raises).
\<close>

definition MAX_IMAGE_BYTES :: nat where "MAX_IMAGE_BYTES = 512 * 1024"
definition MAX_TEXT_BYTES :: nat where "MAX_TEXT_BYTES = 256 * 1024"
definition MAX_INPUT_BYTES :: nat where "MAX_INPUT_BYTES = 4 * 1024 * 1024"
definition MAX_IMAGES :: nat where "MAX_IMAGES = 8"

lemmas input_limits = MAX_IMAGE_BYTES_def MAX_TEXT_BYTES_def MAX_INPUT_BYTES_def MAX_IMAGES_def

text \<open>\<open>len(text.encode('utf-8'))\<close>: one byte below 128, two bytes up to 255.\<close>

definition utf8_len :: "str \<Rightarrow> nat" where
  "utf8_len s = sum_list (map (\<lambda>c. if c < CHR 0x80 then 1 else 2) s)"

definition byte_prefix :: "nat list \<Rightarrow> nat list \<Rightarrow> bool" where
  "byte_prefix bs ps \<longleftrightarrow> take (length ps) bs = ps"

definition detect_image :: "nat list \<Rightarrow> str option" where
  "detect_image data =
     (if byte_prefix data [0x89, 0x50, 0x4E, 0x47, 0x0D, 0x0A, 0x1A, 0x0A] then Some ''image/png''
      else if byte_prefix data [0xFF, 0xD8, 0xFF] then Some ''image/jpeg''
      else if take 6 data \<in> {[0x47, 0x49, 0x46, 0x38, 0x37, 0x61], [0x47, 0x49, 0x46, 0x38, 0x39, 0x61]}
        then Some ''image/gif''
      else if take 4 data = [0x52, 0x49, 0x46, 0x46]
           \<and> take 4 (drop 8 data) = [0x57, 0x45, 0x42, 0x50] then Some ''image/webp''
      else None)"

text \<open>
  The validation part of \<open>image_block\<close>: the media type it would put in the block. The caller
  in \<open>normalize_input\<close> drops the block itself. A media type that is present but is no string
  never equals the detected one.
\<close>

definition image_block :: "nat list \<Rightarrow> json option \<Rightarrow> py_exn + str" where
  "image_block data media_type =
     (if length data > MAX_IMAGE_BYTES then Inl (ValueError ''Image exceeds 512 KiB; crop or resize it first.'')
      else (case detect_image data of
          None \<Rightarrow> Inl (ValueError ''Expected matching PNG, JPEG, GIF or WebP image bytes.'')
        | Some d \<Rightarrow>
            (if media_type \<noteq> None \<and> media_type \<noteq> Some JNull \<and> media_type \<noteq> Some (JStr d)
             then Inl (ValueError ''Expected matching PNG, JPEG, GIF or WebP image bytes.'')
             else Inr d)))"

record input_totals =
  it_size :: nat
  it_text :: nat
  it_images :: nat
  it_meaningful :: bool

definition no_input :: input_totals where
  "no_input = \<lparr>it_size = 0, it_text = 0, it_images = 0, it_meaningful = False\<rparr>"

definition keys_are :: "jdict \<Rightarrow> str list \<Rightarrow> bool" where
  "keys_are d ks \<longleftrightarrow> set (map fst d) = set ks"

definition image_data :: "(str \<Rightarrow> nat list option) \<Rightarrow> json \<Rightarrow> py_exn + nat list" where
  "image_data b64decode source =
     (case source of
        JObj s \<Rightarrow>
          (if \<not> keys_are s [''type'', ''media_type'', ''data''] \<or> dict_get s ''type'' \<noteq> Some (JStr ''base64'')
           then Inl (ValueError ''Invalid image source'')
           else (case jget s ''data'' of
               JStr e \<Rightarrow>
                 (if length e > ((MAX_IMAGE_BYTES + 2) div 3) * 4 then Inl (ValueError ''Image exceeds 512 KiB'')
                  else (case b64decode e of
                      None \<Rightarrow> Inl (ValueError ''Invalid image base64'')
                    | Some data \<Rightarrow> rbind (image_block data (dict_get s ''media_type'')) (\<lambda>_. Inr data)))
             | _ \<Rightarrow> Inl (ValueError ''Image exceeds 512 KiB'')))
      | _ \<Rightarrow> Inl (ValueError ''Invalid image source''))"

definition input_block :: "(str \<Rightarrow> nat list option) \<Rightarrow> json \<Rightarrow> input_totals \<Rightarrow> py_exn + input_totals" where
  "input_block b64decode block t =
     (case block of
        JObj b \<Rightarrow>
          (if dict_get b ''type'' = None then Inl (ValueError ''Invalid input block'')
           else if has_type b ''text'' \<and> keys_are b [''type'', ''text''] \<and> jget_str b ''text'' \<noteq> None
             then (let x = the (jget_str b ''text'') in
               Inr (t\<lparr>it_text := it_text t + utf8_len x,
                      it_meaningful := it_meaningful t \<or> py_strip x \<noteq> []\<rparr>))
           else if has_type b ''image'' \<and> keys_are b [''type'', ''source'']
             then rbind (image_data b64decode (jget b ''source'')) (\<lambda>data.
               Inr (t\<lparr>it_size := it_size t + length data, it_images := it_images t + 1,
                      it_meaningful := True\<rparr>))
           else Inl (ValueError ''Only text and base64 image input is supported''))
      | _ \<Rightarrow> Inl (ValueError ''Invalid input block''))"

fun input_blocks :: "(str \<Rightarrow> nat list option) \<Rightarrow> json list \<Rightarrow> input_totals \<Rightarrow> py_exn + input_totals" where
  "input_blocks b64decode [] t = Inr t"
| "input_blocks b64decode (b # bs) t =
     rbind (input_block b64decode b t) (\<lambda>t'. input_blocks b64decode bs t')"

definition normalize_input :: "(str \<Rightarrow> nat list option) \<Rightarrow> json \<Rightarrow> py_exn + json" where
  "normalize_input b64decode value =
     (case value of
        JStr s \<Rightarrow>
          (if py_strip s = [] then Inl (ValueError ''prompt must not be empty; provide text or an image'')
           else if utf8_len s > MAX_TEXT_BYTES then Inl (ValueError ''Text input exceeds 256 KiB'')
           else Inr value)
      | JList blocks \<Rightarrow>
          (if blocks = [] \<or> length blocks > 64
           then Inl (ValueError ''Input must be text or 1-64 text/image blocks'')
           else rbind (input_blocks b64decode blocks no_input) (\<lambda>t.
             if it_text t > MAX_TEXT_BYTES \<or> it_size t + it_text t > MAX_INPUT_BYTES
                \<or> it_images t > MAX_IMAGES
             then Inl (ValueError ''Input exceeds text, image count or total attachment budget'')
             else if \<not> it_meaningful t
             then Inl (ValueError ''prompt must not be empty; provide text or an image'')
             else Inr value))
      | _ \<Rightarrow> Inl (ValueError ''Input must be text or 1-64 text/image blocks''))"

text \<open>\<open>input_text\<close>: the text a turn's goal is anchored to.\<close>

definition block_text :: "json \<Rightarrow> str option" where
  "block_text b = (case b of JObj d \<Rightarrow> (if has_type d ''text'' then jget_str d ''text'' else None) | _ \<Rightarrow> None)"

definition input_text :: "json \<Rightarrow> str" where
  "input_text value =
     (case value of
        JStr s \<Rightarrow> s
      | JList blocks \<Rightarrow>
          (let text = py_join [NL] (List.map_filter block_text blocks)
           in if py_strip text \<noteq> [] then text else ''[User supplied image input]'')
      | _ \<Rightarrow> ''[User supplied image input]'')"

subsection \<open>What the gate lets through\<close>

text \<open>What a block carries: its text, or the bytes its base64 text decodes to.\<close>

inductive block_carries :: "(str \<Rightarrow> nat list option) \<Rightarrow> json \<Rightarrow> str + nat list \<Rightarrow> bool" for b64decode where
  Text: "dict_get b ''type'' = Some (JStr ''text'') \<Longrightarrow> dict_get b ''text'' = Some (JStr x) \<Longrightarrow>
    block_carries b64decode (JObj b) (Inl x)"
| Image: "dict_get b ''type'' = Some (JStr ''image'') \<Longrightarrow> dict_get b ''source'' = Some (JObj s) \<Longrightarrow>
    dict_get s ''data'' = Some (JStr e) \<Longrightarrow> b64decode e = Some bytes \<Longrightarrow>
    block_carries b64decode (JObj b) (Inr bytes)"

definition text_bytes :: "(str + nat list) list \<Rightarrow> nat" where
  "text_bytes ps = sum_list (map (\<lambda>p. case p of Inl x \<Rightarrow> utf8_len x | Inr _ \<Rightarrow> 0) ps)"

definition image_bytes :: "(str + nat list) list \<Rightarrow> nat" where
  "image_bytes ps = sum_list (map (\<lambda>p. case p of Inl _ \<Rightarrow> 0 | Inr bytes \<Rightarrow> length bytes) ps)"

definition image_count :: "(str + nat list) list \<Rightarrow> nat" where
  "image_count ps = sum_list (map (\<lambda>p. case p of Inl _ \<Rightarrow> 0 | Inr _ \<Rightarrow> 1) ps)"

definition says_something :: "str + nat list \<Rightarrow> bool" where
  "says_something p = (case p of Inl x \<Rightarrow> py_strip x \<noteq> [] | Inr _ \<Rightarrow> True)"

definition small_image :: "str + nat list \<Rightarrow> bool" where
  "small_image p = (case p of Inl _ \<Rightarrow> True | Inr bytes \<Rightarrow> length bytes \<le> 512 * 1024 \<and> detect_image bytes \<noteq> None)"

lemma image_data_decodes:
  "image_data f src = Inr data \<Longrightarrow> \<exists>s e. src = JObj s \<and> dict_get s ''data'' = Some (JStr e) \<and> f e = Some data
     \<and> length data \<le> 512 * 1024 \<and> detect_image data \<noteq> None"
  by (auto simp: image_data_def image_block_def MAX_IMAGE_BYTES_def jget_def dict_get_or_def
      split: json.splits if_splits option.splits)

lemma input_block_carries:
  assumes "input_block f b t = Inr t'"
  shows "\<exists>p. block_carries f b p \<and> small_image p \<and> it_text t' = it_text t + text_bytes [p]
     \<and> it_size t' = it_size t + image_bytes [p] \<and> it_images t' = it_images t + image_count [p]
     \<and> it_meaningful t' = (it_meaningful t \<or> says_something p)"
proof -
  obtain d where b: "b = JObj d" using assms by (auto simp: input_block_def split: json.splits)
  consider (words) x where "has_type d ''text''" "jget_str d ''text'' = Some x"
      "t' = t\<lparr>it_text := it_text t + utf8_len x, it_meaningful := it_meaningful t \<or> py_strip x \<noteq> []\<rparr>"
    | (image) bytes where "has_type d ''image''" "image_data f (jget d ''source'') = Inr bytes"
      "t' = t\<lparr>it_size := it_size t + length bytes, it_images := it_images t + 1, it_meaningful := True\<rparr>"
    using assms by (auto simp: b input_block_def Let_def split: if_splits)
  then show ?thesis
  proof cases
    case words
    then have "block_carries f b (Inl x)"
      by (auto simp: b has_type_def jget_str_def intro: Text split: option.splits json.splits)
    with words show ?thesis
      by (intro exI [of _ "Inl x"]) (simp add: text_bytes_def image_bytes_def image_count_def says_something_def small_image_def)
  next
    case image
    from image_data_decodes [OF image(2)] obtain s e where
      src: "jget d ''source'' = JObj s" "dict_get s ''data'' = Some (JStr e)" "f e = Some bytes"
        "length bytes \<le> 512 * 1024" "detect_image bytes \<noteq> None" by blast
    then have "block_carries f b (Inr bytes)"
      using image(1) by (auto simp: b has_type_def jget_def dict_get_or_def intro: Image split: option.splits)
    with image src show ?thesis
      by (intro exI [of _ "Inr bytes"]) (simp add: text_bytes_def image_bytes_def image_count_def says_something_def small_image_def)
  qed
qed

lemma part_sums:
  "text_bytes (p # ps) = text_bytes [p] + text_bytes ps" "image_bytes (p # ps) = image_bytes [p] + image_bytes ps"
  "image_count (p # ps) = image_count [p] + image_count ps"
  by (simp_all add: text_bytes_def image_bytes_def image_count_def)

lemma input_blocks_carry:
  "input_blocks f bs t = Inr t' \<Longrightarrow> \<exists>ps. list_all2 (block_carries f) bs ps \<and> list_all small_image ps
     \<and> it_text t' = it_text t + text_bytes ps \<and> it_size t' = it_size t + image_bytes ps
     \<and> it_images t' = it_images t + image_count ps \<and> it_meaningful t' = (it_meaningful t \<or> list_ex says_something ps)"
proof (induction bs arbitrary: t)
  case Nil
  then show ?case
    by (intro exI [of _ "[]"]) (simp add: text_bytes_def image_bytes_def image_count_def)
next
  case (Cons b bs)
  from Cons.prems obtain u where u: "input_block f b t = Inr u" "input_blocks f bs u = Inr t'"
    by auto
  from input_block_carries [OF u(1)] obtain p where p: "block_carries f b p" "small_image p"
    "it_text u = it_text t + text_bytes [p]" "it_size u = it_size t + image_bytes [p]"
    "it_images u = it_images t + image_count [p]" "it_meaningful u = (it_meaningful t \<or> says_something p)" by blast
  from Cons.IH [OF u(2)] obtain ps where "list_all2 (block_carries f) bs ps" "list_all small_image ps"
    "it_text t' = it_text u + text_bytes ps" "it_size t' = it_size u + image_bytes ps"
    "it_images t' = it_images u + image_count ps" "it_meaningful t' = (it_meaningful u \<or> list_ex says_something ps)" by blast
  with p show ?case
    by (intro exI [of _ "p # ps"]) (simp add: part_sums [of p ps])
qed

text \<open>Input that is within the limits, with what it carries.\<close>

definition bounded_input :: "(str \<Rightarrow> nat list option) \<Rightarrow> json \<Rightarrow> bool" where
  "bounded_input b64decode given =
     (case given of
        JStr s \<Rightarrow> py_strip s \<noteq> [] \<and> utf8_len s \<le> 256 * 1024
      | JList blocks \<Rightarrow> 1 \<le> length blocks \<and> length blocks \<le> 64
          \<and> (\<exists>ps. list_all2 (block_carries b64decode) blocks ps \<and> list_all small_image ps \<and> image_count ps \<le> 8
               \<and> text_bytes ps \<le> 256 * 1024 \<and> image_bytes ps + text_bytes ps \<le> 4 * 1024 * 1024
               \<and> list_ex says_something ps)
      | _ \<Rightarrow> False)"

end
