(* ===== verification/Runtime_State.thy ===== *)
theory Runtime_State
  imports Messages
begin

text \<open>
  \<open>forge/tool_types.py\<close> and \<open>forge/runtime/state.py\<close>: tool results, token usage,
  verification evidence, turn results, stream events, and the construction of the
  model-visible assistant and tool-result messages. A constructor whose \<open>__post_init__\<close>
  can raise is a function into \<open>py_exn + _\<close>; the others are the records themselves.
\<close>

subsection \<open>Tool results\<close>

record tool_error =
  te_code :: str
  te_message :: str
  te_details :: jdict

record tool_result =
  tr_success :: bool
  tr_summary :: str
  tr_content :: str
  tr_error :: "tool_error option"
  tr_metadata :: jdict

definition tool_result_wf :: "tool_result \<Rightarrow> bool" where
  "tool_result_wf r \<longleftrightarrow> (tr_success r \<longleftrightarrow> tr_error r = None)"

text \<open>\<open>ToolResult.__post_init__\<close>.\<close>

definition mk_tool_result :: "tool_result \<Rightarrow> py_exn + tool_result" where
  "mk_tool_result r =
     (if tr_success r \<and> tr_error r \<noteq> None
      then Inl (ValueError ''A successful tool result cannot contain an error.'')
      else if \<not> tr_success r \<and> tr_error r = None
      then Inl (ValueError ''A failed tool result must contain an error.'')
      else Inr r)"

definition tool_ok :: "str \<Rightarrow> str \<Rightarrow> jdict \<Rightarrow> py_exn + tool_result" where
  "tool_ok summary content metadata =
     mk_tool_result \<lparr>tr_success = True, tr_summary = summary, tr_content = content,
       tr_error = None, tr_metadata = metadata\<rparr>"

definition tool_fail :: "str \<Rightarrow> str \<Rightarrow> str option \<Rightarrow> str \<Rightarrow> jdict \<Rightarrow> jdict \<Rightarrow> py_exn + tool_result" where
  "tool_fail code message summary content details metadata =
     mk_tool_result \<lparr>tr_success = False,
       tr_summary = (case summary of Some s \<Rightarrow> (if s = [] then message else s) | None \<Rightarrow> message),
       tr_content = content,
       tr_error = Some \<lparr>te_code = code, te_message = message, te_details = details\<rparr>,
       tr_metadata = metadata\<rparr>"

lemma mk_tool_result_wf: "mk_tool_result r = Inr r' \<longleftrightarrow> tool_result_wf r \<and> r' = r"
  by (auto simp: mk_tool_result_def tool_result_wf_def)

subsection \<open>Token usage\<close>

record token_usage =
  tu_input_tokens :: int
  tu_output_tokens :: int
  tu_cache_creation :: int
  tu_cache_read :: int

definition usage_ok :: "token_usage \<Rightarrow> bool" where
  "usage_ok u \<longleftrightarrow> 0 \<le> tu_input_tokens u \<and> 0 \<le> tu_output_tokens u
     \<and> 0 \<le> tu_cache_creation u \<and> 0 \<le> tu_cache_read u"

text \<open>\<open>TokenUsage.__post_init__\<close>: the first negative field is named in the error.\<close>

definition mk_token_usage :: "int \<Rightarrow> int \<Rightarrow> int \<Rightarrow> int \<Rightarrow> py_exn + token_usage" where
  "mk_token_usage i out cc cr =
     guard (i < 0) (ValueError ''input_tokens must not be negative'') (
     guard (out < 0) (ValueError ''output_tokens must not be negative'') (
     guard (cc < 0) (ValueError ''cache_creation_input_tokens must not be negative'') (
     guard (cr < 0) (ValueError ''cache_read_input_tokens must not be negative'') (
     Inr \<lparr>tu_input_tokens = i, tu_output_tokens = out, tu_cache_creation = cc, tu_cache_read = cr\<rparr>))))"

definition total_input_tokens :: "token_usage \<Rightarrow> int" where
  "total_input_tokens u = tu_input_tokens u + tu_cache_creation u + tu_cache_read u"

definition total_tokens :: "token_usage \<Rightarrow> int" where
  "total_tokens u = total_input_tokens u + tu_output_tokens u"

definition zero_usage :: token_usage where
  "zero_usage = \<lparr>tu_input_tokens = 0, tu_output_tokens = 0, tu_cache_creation = 0, tu_cache_read = 0\<rparr>"

lemma mk_token_usage_ok: "mk_token_usage i out cc cr = Inr u \<Longrightarrow> usage_ok u"
  by (auto simp: mk_token_usage_def usage_ok_def)

lemma usage_ok_zero [simp]: "usage_ok zero_usage"
  by (simp add: usage_ok_def zero_usage_def)

lemma total_input_nonneg: "usage_ok u \<Longrightarrow> 0 \<le> total_input_tokens u"
  by (simp add: usage_ok_def total_input_tokens_def)

subsection \<open>Verification evidence and completion reports\<close>

datatype freshness = Current | Unknown

record evidence =
  ev_command :: str
  ev_cwd :: str
  ev_exit_code :: int
  ev_duration :: pyfloat
  ev_timed_out :: bool
  ev_revision :: int
  ev_diagnostic :: str
  ev_epoch :: int
  ev_coverage :: "str list"
  ev_limitations :: "str list"
  ev_stdin_sha256 :: str
  ev_valid :: bool
  ev_issues :: "str list"
  ev_check_signature :: str
  ev_requirement_ids :: "str list"
  ev_asserted_ids :: "str list"
  ev_verification_id :: str
  ev_output_checks :: "jdict list"
  ev_supersedes :: "str list"
  ev_revision_reason :: str
  ev_task_id :: str
  ev_turn_id :: str
  ev_freshness :: freshness
  ev_check_id :: str
  ev_check_spec :: jdict

text \<open>
  \<open>VerificationEvidence.from_dict\<close> on the decoded field values: whatever the stored record
  said, the freshness read back is \<open>unknown\<close>.
\<close>

definition evidence_from_dict :: "evidence \<Rightarrow> evidence" where
  "evidence_from_dict stored = stored\<lparr>ev_freshness := Unknown\<rparr>"

definition ev_success :: "evidence \<Rightarrow> bool" where
  "ev_success e \<longleftrightarrow> \<not> ev_timed_out e \<and> ev_exit_code e = 0 \<and> ev_valid e"

record report_data =
  cr_run_status :: str
  cr_agent_assessment :: str
  cr_acceptance_status :: str
  cr_verification_status :: str
  cr_passed :: "str list"
  cr_failed :: "str list"
  cr_historical :: "str list"
  cr_unmet :: "str list"
  cr_usage_complete :: bool

definition report_summary :: "report_data \<Rightarrow> str" where
  "report_summary r =
     ''Verification: '' @ cr_verification_status r @ ''; '' @ nat_str (length (cr_passed r)) @ '' passed, ''
     @ nat_str (length (cr_failed r)) @ '' failed, '' @ nat_str (length (cr_historical r))
     @ '' historical/expired. Caller acceptance: '' @ cr_acceptance_status r @ ''.''
     @ (if cr_usage_complete r then [] else '' Token usage is incomplete.'')"

subsection \<open>Tool calls and stream events\<close>

record tool_call =
  tc_index :: int
  tc_id :: str
  tc_name :: str
  tc_arguments :: jdict

definition mk_tool_call :: "int \<Rightarrow> str \<Rightarrow> str \<Rightarrow> jdict \<Rightarrow> py_exn + tool_call" where
  "mk_tool_call i cid nm args =
     guard (i < 0) (ValueError ''index must not be negative'') (
     guard (cid = []) (ValueError ''id must not be empty'') (
     guard (nm = []) (ValueError ''name must not be empty'') (
     Inr \<lparr>tc_index = i, tc_id = cid, tc_name = nm, tc_arguments = args\<rparr>)))"

text \<open>\<open>ModelStreamEvent\<close>: what a provider adapter yields while one response streams.\<close>

datatype stream_event =
    ProviderState str jdict
  | TextDelta str int
  | ToolCallStarted int str str
  | ToolCallArgumentsDelta int str
  | ToolCallCompleted tool_call
  | UsageUpdate (uu_usage: token_usage) (uu_request: "token_usage option") (uu_calls: int)
      (uu_raw: "jdict option") (uu_request_id: "str option") (uu_returned_model: "str option")
      (uu_final: "bool option")
  | ResponseCompleted "str option"
  | RetryScheduled int str pyfloat

subsection \<open>Model-visible messages\<close>

definition tool_use_block :: "tool_call \<Rightarrow> json" where
  "tool_use_block c = JObj [(''type'', JStr ''tool_use''), (''id'', JStr (tc_id c)),
     (''name'', JStr (tc_name c)), (''input'', JObj (tc_arguments c))]"

definition text_block :: "str \<Rightarrow> json" where
  "text_block t = JObj [(''type'', JStr ''text''), (''text'', JStr t)]"

definition build_assistant_message :: "str \<Rightarrow> tool_call list \<Rightarrow> jdict" where
  "build_assistant_message text tool_calls =
     (if tool_calls = [] then [(''role'', JStr ''assistant''), (''content'', JStr text)]
      else [(''role'', JStr ''assistant''),
            (''content'', JList ((if text \<noteq> [] then [text_block text] else [])
               @ map tool_use_block (sort_key tc_index tool_calls)))])"

definition error_json :: "tool_error option \<Rightarrow> json" where
  "error_json e = (case e of None \<Rightarrow> JNull
     | Some x \<Rightarrow> JObj [(''code'', JStr (te_code x)), (''message'', JStr (te_message x)),
         (''details'', JObj (te_details x))])"

definition serialize_tool_result :: "(pyfloat \<Rightarrow> str) \<Rightarrow> tool_result \<Rightarrow> str" where
  "serialize_tool_result frepr r = json_dumps frepr (JObj [
     (''success'', JBool (tr_success r)), (''summary'', JStr (tr_summary r)),
     (''content'', JStr (tr_content r)), (''error'', error_json (tr_error r)),
     (''metadata'', JObj (tr_metadata r))])"

text \<open>
  The rich blocks of a result: \<open>content_blocks\<close> when truthy, else the single image. A truthy
  \<open>content_blocks\<close> that is no list reaches \<open>normalize_input\<close> as it is.
\<close>

definition rich_blocks :: "tool_result \<Rightarrow> json" where
  "rich_blocks r =
     (let cb = jget (tr_metadata r) ''content_blocks'' in
      if json_truthy cb then cb
      else (case dict_get (tr_metadata r) ''image'' of Some img \<Rightarrow> JList [img] | None \<Rightarrow> JList []))"

definition without_rich :: "tool_result \<Rightarrow> tool_result" where
  "without_rich r = r\<lparr>tr_metadata :=
     filter (\<lambda>kv. fst kv \<notin> {''image'', ''content_blocks''}) (tr_metadata r)\<rparr>"

definition spread :: "json \<Rightarrow> json list" where
  "spread v = (case v of JList vs \<Rightarrow> vs | JStr s \<Rightarrow> map (\<lambda>c. JStr [c]) s | _ \<Rightarrow> [])"

definition tool_result_block ::
  "(pyfloat \<Rightarrow> str) \<Rightarrow> (str \<Rightarrow> nat list option) \<Rightarrow> tool_call \<times> tool_result \<Rightarrow> py_exn + json" where
  "tool_result_block frepr b64decode cr =
     (let c = fst cr; r = snd cr; blocks = rich_blocks r in
      rbind (if json_truthy blocks
             then rbind (normalize_input b64decode blocks) (\<lambda>n.
                    Inr (JList (text_block (serialize_tool_result frepr (without_rich r)) # spread n)))
             else Inr (JStr (serialize_tool_result frepr r)))
        (\<lambda>body. Inr (JObj [(''type'', JStr ''tool_result''), (''tool_use_id'', JStr (tc_id c)),
           (''content'', body), (''is_error'', JBool (\<not> tr_success r))])))"

fun tool_result_blocks ::
  "(pyfloat \<Rightarrow> str) \<Rightarrow> (str \<Rightarrow> nat list option) \<Rightarrow> (tool_call \<times> tool_result) list \<Rightarrow> py_exn + json list" where
  "tool_result_blocks frepr b64decode [] = Inr []"
| "tool_result_blocks frepr b64decode (x # xs) =
     rbind (tool_result_block frepr b64decode x) (\<lambda>b.
     rbind (tool_result_blocks frepr b64decode xs) (\<lambda>bs. Inr (b # bs)))"

definition build_tool_result_message ::
  "(pyfloat \<Rightarrow> str) \<Rightarrow> (str \<Rightarrow> nat list option) \<Rightarrow> (tool_call \<times> tool_result) list \<Rightarrow> py_exn + jdict" where
  "build_tool_result_message frepr b64decode results =
     rbind (tool_result_blocks frepr b64decode results) (\<lambda>content.
       Inr [(''role'', JStr ''user''), (''content'', JList content)])"

subsection \<open>Every requested tool call is answered, in order\<close>

definition block_id :: "str \<Rightarrow> json \<Rightarrow> str option" where
  "block_id key b = (case b of JObj d \<Rightarrow> jget_str d key | _ \<Rightarrow> None)"

definition message_blocks :: "jdict \<Rightarrow> json list" where
  "message_blocks m = (case jget m ''content'' of JList bs \<Rightarrow> bs | _ \<Rightarrow> [])"

definition tool_use_ids :: "jdict \<Rightarrow> str list" where
  "tool_use_ids m = List.map_filter (block_id ''id'') (message_blocks m)"

definition tool_result_ids :: "jdict \<Rightarrow> str list" where
  "tool_result_ids m = List.map_filter (block_id ''tool_use_id'') (message_blocks m)"

lemmas message_defs = build_assistant_message_def build_tool_result_message_def
  message_blocks_def tool_use_ids_def tool_result_ids_def block_id_def

lemma dict_get_lit [simp]:
  "jget ((k', v) # d) k = (if k' = k then v else jget d k)"
  "jget_str ((k', v) # d) k = (if k' = k then json_str_opt v else jget_str d k)"
  "jget [] k = JNull" "jget_str [] k = None"
  by (auto simp: jget_def jget_str_def dict_get_or_def dict_get_def split: json.splits)

lemma block_id_tool_use [simp]: "block_id ''id'' (tool_use_block c) = Some (tc_id c)"
  by (simp add: block_id_def tool_use_block_def)

lemma block_id_text [simp]: "block_id ''id'' (text_block t) = None"
  by (simp add: block_id_def text_block_def)

lemma map_filter_tool_use: "List.map_filter (block_id ''id'') (map tool_use_block cs) = map tc_id cs"
  by (induction cs) (simp_all add: List.map_filter_simps)

lemma tool_use_ids_assistant:
  "cs \<noteq> [] \<Longrightarrow> tool_use_ids (build_assistant_message t cs) = map tc_id (sort_key tc_index cs)"
  by (simp add: tool_use_ids_def message_blocks_def build_assistant_message_def map_filter_tool_use
      List.map_filter_simps)

lemma tool_result_block_id:
  "tool_result_block frepr f cr = Inr b \<Longrightarrow> block_id ''tool_use_id'' b = Some (tc_id (fst cr))"
  by (auto simp: tool_result_block_def block_id_def Let_def split: if_splits)

lemma tool_result_blocks_ids:
  "tool_result_blocks frepr f crs = Inr bs \<Longrightarrow>
     List.map_filter (block_id ''tool_use_id'') bs = map (tc_id \<circ> fst) crs"
  by (induction crs arbitrary: bs)
    (auto simp: List.map_filter_simps dest: tool_result_block_id)

lemma tool_result_ids_message:
  "build_tool_result_message frepr f crs = Inr m \<Longrightarrow> tool_result_ids m = map (tc_id \<circ> fst) crs"
  by (auto simp: build_tool_result_message_def tool_result_ids_def message_blocks_def
      dest: tool_result_blocks_ids)

end
