(* ===== verification/Turn_State.thy ===== *)
theory Turn_State
  imports Runtime_State
begin

text \<open>
  \<open>forge/runtime/turn_state.py\<close>: the budget and the execution facts of one turn. A turn
  started by a sub-agent keeps a reference to its parent turn and charges it too, so the
  object graph a turn sees is a chain: here a list of turn states, the turn itself first, then
  its parent, and so on. \<open>monotonic()\<close> is the argument \<open>now\<close>. The event recorder
  (\<open>observability\<close>) is not modelled; it never changes the fields below.
\<close>

datatype exec_status = Executed | Cached | Rejected | Cancelled | Indeterminate

record execution_record =
  er_tool_call_id :: str
  er_tool_name :: str
  er_status :: exec_status
  er_success :: bool
  er_duration :: pyfloat
  er_revision :: int
  er_epoch :: int
  er_error_code :: "str option"
  er_summary :: str

record turn_state =
  ts_max_model_calls :: "int option"
  ts_max_tool_calls :: "int option"
  ts_max_input_tokens :: "int option"
  ts_max_seconds :: "pyfloat option"
  ts_model_calls :: int
  ts_tool_requests :: int
  ts_usage :: token_usage
  ts_last_usage :: "token_usage option"
  ts_timings :: "(str, pyfloat) dict"
  ts_request_counts :: "(str, int) dict"
  ts_feedback_count :: int
  ts_records :: "execution_record list"
  ts_evidence :: "evidence list"
  ts_revision :: int
  ts_epoch :: int
  ts_started_at :: pyfloat
  ts_unknown_usage :: int

definition new_turn ::
  "int option \<Rightarrow> int option \<Rightarrow> int option \<Rightarrow> pyfloat option \<Rightarrow> pyfloat \<Rightarrow> turn_state" where
  "new_turn mm mt mi ms now = \<lparr>ts_max_model_calls = mm, ts_max_tool_calls = mt,
     ts_max_input_tokens = mi, ts_max_seconds = ms, ts_model_calls = 0, ts_tool_requests = 0,
     ts_usage = zero_usage, ts_last_usage = None, ts_timings = [], ts_request_counts = [],
     ts_feedback_count = 0, ts_records = [], ts_evidence = [], ts_revision = 0, ts_epoch = 0,
     ts_started_at = now, ts_unknown_usage = 0\<rparr>"

subsection \<open>The evidence ledger\<close>

definition is_current :: "int \<Rightarrow> int \<Rightarrow> evidence \<Rightarrow> bool" where
  "is_current revision epoch item \<longleftrightarrow>
     ev_freshness item = Current \<and> ev_revision item = revision \<and> ev_epoch item = epoch"

definition ledger_add :: "evidence list \<Rightarrow> evidence \<Rightarrow> evidence list" where
  "ledger_add ledger e = ledger @ [e]"

definition ledger_current :: "int \<Rightarrow> int \<Rightarrow> evidence list \<Rightarrow> evidence list" where
  "ledger_current revision epoch ledger = filter (is_current revision epoch) ledger"

definition ledger_latest_current :: "int \<Rightarrow> int \<Rightarrow> evidence list \<Rightarrow> evidence option" where
  "ledger_latest_current revision epoch ledger = find_opt (is_current revision epoch) (rev ledger)"

subsection \<open>Budgets\<close>

definition own_budget_reason :: "pyfloat \<Rightarrow> bool \<Rightarrow> turn_state \<Rightarrow> str option" where
  "own_budget_reason now include_model s =
     (if (case ts_max_seconds s of None \<Rightarrow> False | Some m \<Rightarrow> now - ts_started_at s \<ge> m)
      then Some ''time_budget_exhausted''
      else if (case ts_max_input_tokens s of None \<Rightarrow> False | Some m \<Rightarrow> total_input_tokens (ts_usage s) \<ge> m)
      then Some ''token_budget_exhausted''
      else if include_model \<and> (case ts_max_model_calls s of None \<Rightarrow> False | Some m \<Rightarrow> ts_model_calls s \<ge> m)
      then Some ''model_budget_exhausted''
      else None)"

fun budget_reason :: "pyfloat \<Rightarrow> bool \<Rightarrow> turn_state list \<Rightarrow> str option" where
  "budget_reason now include_model [] = None"
| "budget_reason now include_model (s # parents) =
     (case budget_reason now include_model parents of
        Some inherited \<Rightarrow> Some inherited
      | None \<Rightarrow> own_budget_reason now include_model s)"

definition can_request_model :: "pyfloat \<Rightarrow> turn_state list \<Rightarrow> bool" where
  "can_request_model now chain \<longleftrightarrow> budget_reason now True chain = None"

fun can_request_tool_batch :: "int \<Rightarrow> turn_state list \<Rightarrow> bool" where
  "can_request_tool_batch count [] = True"
| "can_request_tool_batch count (s # parents) =
     (count \<ge> 0 \<and> can_request_tool_batch count parents
      \<and> (case ts_max_tool_calls s of None \<Rightarrow> True | Some m \<Rightarrow> ts_tool_requests s + count \<le> m))"

subsection \<open>Recording\<close>

definition add_usage :: "token_usage \<Rightarrow> token_usage \<Rightarrow> token_usage" where
  "add_usage left right = \<lparr>
     tu_input_tokens = tu_input_tokens left + tu_input_tokens right,
     tu_output_tokens = tu_output_tokens left + tu_output_tokens right,
     tu_cache_creation = tu_cache_creation left + tu_cache_creation right,
     tu_cache_read = tu_cache_read left + tu_cache_read right\<rparr>"

fun record_unknown_usage :: "turn_state list \<Rightarrow> turn_state list" where
  "record_unknown_usage [] = []"
| "record_unknown_usage (s # parents) =
     s\<lparr>ts_unknown_usage := ts_unknown_usage s + 1\<rparr> # record_unknown_usage parents"

fun record_usage :: "token_usage \<Rightarrow> turn_state list \<Rightarrow> turn_state list" where
  "record_usage u [] = []"
| "record_usage u (s # parents) =
     s\<lparr>ts_usage := add_usage (ts_usage s) u, ts_last_usage := Some u\<rparr> # record_usage u parents"

definition count_request :: "str \<Rightarrow> turn_state \<Rightarrow> turn_state" where
  "count_request stage s = s\<lparr>ts_model_calls := ts_model_calls s + 1,
     ts_request_counts := dict_set (ts_request_counts s) stage (dict_get_or (ts_request_counts s) stage 0 + 1)\<rparr>"

definition subagent_stage :: "str \<Rightarrow> str" where
  "subagent_stage stage = ''subagent/'' @ stage"

fun count_model_request :: "str \<Rightarrow> turn_state list \<Rightarrow> turn_state list" where
  "count_model_request stage [] = []"
| "count_model_request stage (s # parents) =
     count_request stage s # count_model_request (subagent_stage stage) parents"

definition record_model_request :: "token_usage option \<Rightarrow> str \<Rightarrow> turn_state list \<Rightarrow> turn_state list" where
  "record_model_request usage stage chain =
     (let chain' = count_model_request stage chain
      in case usage of None \<Rightarrow> chain' | Some u \<Rightarrow> record_usage u chain')"

fun record_tool_request :: "turn_state list \<Rightarrow> turn_state list" where
  "record_tool_request [] = []"
| "record_tool_request (s # parents) =
     s\<lparr>ts_tool_requests := ts_tool_requests s + 1\<rparr> # record_tool_request parents"

definition add_time :: "str \<Rightarrow> pyfloat \<Rightarrow> turn_state list \<Rightarrow> turn_state list" where
  "add_time stage seconds chain = (case chain of [] \<Rightarrow> []
     | s # parents \<Rightarrow> s\<lparr>ts_timings := dict_set (ts_timings s) stage
         (dict_get_or (ts_timings s) stage 0 + max 0 seconds)\<rparr> # parents)"

definition record_execution :: "execution_record \<Rightarrow> turn_state \<Rightarrow> turn_state" where
  "record_execution r s = s\<lparr>ts_records := ts_records s @ [r]\<rparr>"

definition observe_workspace :: "int \<Rightarrow> int option \<Rightarrow> turn_state \<Rightarrow> turn_state" where
  "observe_workspace revision epoch s =
     (let s' = s\<lparr>ts_revision := revision\<rparr>
      in case epoch of None \<Rightarrow> s' | Some e \<Rightarrow> s'\<lparr>ts_epoch := e\<rparr>)"

subsection \<open>Statistics\<close>

definition status_name :: "exec_status \<Rightarrow> str" where
  "status_name st = (case st of Executed \<Rightarrow> ''executed'' | Cached \<Rightarrow> ''cached''
     | Rejected \<Rightarrow> ''rejected'' | Cancelled \<Rightarrow> ''cancelled'' | Indeterminate \<Rightarrow> ''indeterminate'')"

fun dict_update :: "('k, 'v) dict \<Rightarrow> ('k \<times> 'v) list \<Rightarrow> ('k, 'v) dict" where
  "dict_update d [] = d"
| "dict_update d ((k, v) # kvs) = dict_update (dict_set d k v) kvs"

definition count_status :: "(str, pyfloat) dict \<Rightarrow> execution_record \<Rightarrow> (str, pyfloat) dict" where
  "count_status counts r = (let k = status_name (er_status r) in
     dict_set counts k (dict_get_or counts k 0 + 1))"

text \<open>\<open>statistics\<close>; \<open>rnd\<close> is \<open>round(x, 6)\<close>.\<close>

definition statistics :: "(pyfloat \<Rightarrow> pyfloat) \<Rightarrow> pyfloat \<Rightarrow> turn_state \<Rightarrow> (str, pyfloat) dict" where
  "statistics rnd now s =
     (let counts = foldl count_status
            [(''executed'', 0), (''cached'', 0), (''rejected'', 0), (''cancelled'', 0), (''indeterminate'', 0)]
            (ts_records s);
          counts = dict_update counts
            [(''model_requests'', of_int (ts_model_calls s)), (''tool_requests'', of_int (ts_tool_requests s)),
             (''recovery_feedback'', of_int (ts_feedback_count s)),
             (''unknown_usage_requests'', of_int (ts_unknown_usage s))];
          counts = dict_update counts
            (map (\<lambda>(k, v). (k @ ''_stage_requests'', of_int v)) (ts_request_counts s));
          counts = dict_update counts (map (\<lambda>(k, v). (k @ ''_seconds'', rnd v)) (ts_timings s))
      in dict_set counts ''elapsed_seconds'' (rnd (now - ts_started_at s)))"

subsection \<open>Execution records\<close>

definition execution_record_from_result ::
  "tool_call \<Rightarrow> tool_result \<Rightarrow> exec_status \<Rightarrow> pyfloat \<Rightarrow> int \<Rightarrow> int \<Rightarrow> execution_record" where
  "execution_record_from_result call result status duration revision epoch = \<lparr>
     er_tool_call_id = tc_id call, er_tool_name = tc_name call, er_status = status,
     er_success = tr_success result, er_duration = duration, er_revision = revision, er_epoch = epoch,
     er_error_code = (case tr_error result of None \<Rightarrow> None | Some e \<Rightarrow> Some (te_code e)),
     er_summary = tr_summary result\<rparr>"

definition rejection_codes :: "str list" where
  "rejection_codes = [''permission_denied'', ''invalid_arguments'', ''unknown_tool'', ''hook_denied'',
     ''outside_task_scope'', ''tool_not_available_in_phase'', ''placeholder_write_denied'']"

definition status_of_name :: "json \<Rightarrow> exec_status option" where
  "status_of_name v = (if v = JStr ''executed'' then Some Executed
     else if v = JStr ''cached'' then Some Cached
     else if v = JStr ''rejected'' then Some Rejected
     else if v = JStr ''cancelled'' then Some Cancelled
     else if v = JStr ''indeterminate'' then Some Indeterminate else None)"

definition execution_status_for_result :: "tool_result \<Rightarrow> exec_status" where
  "execution_status_for_result result =
     (case status_of_name (jget (tr_metadata result) ''execution_status'') of
        Some st \<Rightarrow> st
      | None \<Rightarrow>
         (if json_truthy (jget (tr_metadata result) ''cache_hit'') then Cached
          else (case tr_error result of
              None \<Rightarrow> Executed
            | Some e \<Rightarrow>
                (if te_code e \<in> set rejection_codes then Rejected
                 else if endswith (te_code e) ''cancelled'' then Cancelled
                 else Executed))))"

subsection \<open>The evidence ledger keeps everything and reports only the current state\<close>

lemma ledger_current_sound:
  "e \<in> set (ledger_current r p l) \<longleftrightarrow> e \<in> set l \<and> is_current r p e"
  by (simp add: ledger_current_def)

lemma ledger_latest_current_iff:
  "ledger_latest_current r p l = None \<longleftrightarrow> ledger_current r p l = []"
  by (simp add: ledger_latest_current_def ledger_current_def find_opt_None filter_empty_conv)

lemma find_opt_rev_last:
  "find_opt P (rev xs) = (if filter P xs = [] then None else Some (last (filter P xs)))"
  by (induction xs rule: rev_induct) auto

lemma ledger_latest_current_last:
  "ledger_current r p l \<noteq> [] \<Longrightarrow> ledger_latest_current r p l = Some (last (ledger_current r p l))"
  by (simp add: ledger_latest_current_def ledger_current_def find_opt_rev_last)

lemma restored_not_current [simp]: "\<not> is_current r p (evidence_from_dict e)"
  by (simp add: is_current_def evidence_from_dict_def)

subsection \<open>Chains: what every level sees\<close>

lemma budget_reason_None_iff:
  "budget_reason now im chain = None \<longleftrightarrow> (\<forall>s\<in>set chain. own_budget_reason now im s = None)"
  by (induction chain) (auto split: option.splits)

lemma can_request_tool_batch_iff:
  "can_request_tool_batch n chain \<longleftrightarrow> (\<forall>s\<in>set chain. 0 \<le> n \<and>
     (case ts_max_tool_calls s of None \<Rightarrow> True | Some m \<Rightarrow> ts_tool_requests s + n \<le> m))"
  by (induction chain) auto

lemma record_usage_map:
  "record_usage u chain = map (\<lambda>s. s\<lparr>ts_usage := add_usage (ts_usage s) u, ts_last_usage := Some u\<rparr>) chain"
  by (induction chain) auto

lemma record_unknown_usage_map:
  "record_unknown_usage chain = map (\<lambda>s. s\<lparr>ts_unknown_usage := ts_unknown_usage s + 1\<rparr>) chain"
  by (induction chain) auto

lemma record_tool_request_map:
  "record_tool_request chain = map (\<lambda>s. s\<lparr>ts_tool_requests := ts_tool_requests s + 1\<rparr>) chain"
  by (induction chain) auto

lemma count_model_request_nth:
  "i < length chain \<Longrightarrow> count_model_request stage chain ! i
     = count_request ((subagent_stage ^^ i) stage) (chain ! i)"
proof (induction stage chain arbitrary: i rule: count_model_request.induct)
  case (1 stage)
  then show ?case by simp
next
  case (2 stage s parents)
  then show ?case by (cases i) (simp_all add: funpow_swap1)
qed

lemma length_count_model_request [simp]: "length (count_model_request stage chain) = length chain"
  by (induction stage chain rule: count_model_request.induct) auto

text \<open>The fields that bound a turn, and the counters they bound.\<close>

definition limits :: "turn_state \<Rightarrow> int option \<times> int option \<times> int option \<times> pyfloat option" where
  "limits s = (ts_max_model_calls s, ts_max_tool_calls s, ts_max_input_tokens s, ts_max_seconds s)"

definition within_limits :: "turn_state \<Rightarrow> bool" where
  "within_limits s \<longleftrightarrow> 0 \<le> ts_model_calls s \<and> 0 \<le> ts_tool_requests s \<and> usage_ok (ts_usage s)
     \<and> (\<forall>m. ts_max_model_calls s = Some m \<longrightarrow> ts_model_calls s \<le> max 0 m)"

lemma within_limits_new [intro, simp]: "within_limits (new_turn mm mt mi ms now)"
  by (simp add: within_limits_def new_turn_def)

lemma usage_ok_add: "usage_ok u \<Longrightarrow> usage_ok v \<Longrightarrow> usage_ok (add_usage u v)"
  by (simp add: usage_ok_def add_usage_def)

lemma total_input_add: "total_input_tokens (add_usage u v) = total_input_tokens u + total_input_tokens v"
  by (simp add: add_usage_def total_input_tokens_def)

lemma within_limits_count_request:
  "within_limits s \<Longrightarrow> own_budget_reason now True s = None \<Longrightarrow> within_limits (count_request stage s)"
  by (auto simp: within_limits_def count_request_def own_budget_reason_def split: if_splits option.splits)

lemma list_all_count_model_request:
  "list_all within_limits chain \<Longrightarrow> budget_reason now True chain = None \<Longrightarrow>
     list_all within_limits (count_model_request stage chain)"
proof (induction stage chain rule: count_model_request.induct)
  case (1 stage)
  then show ?case by simp
next
  case (2 stage s parents)
  then show ?case
    by (auto intro: within_limits_count_request split: option.splits)
qed

lemma list_all_record_usage:
  "list_all within_limits chain \<Longrightarrow> usage_ok u \<Longrightarrow> list_all within_limits (record_usage u chain)"
  by (auto simp: record_usage_map list_all_iff within_limits_def intro: usage_ok_add)

lemma list_all_record_unknown:
  "list_all within_limits chain \<Longrightarrow> list_all within_limits (record_unknown_usage chain)"
  by (auto simp: record_unknown_usage_map list_all_iff within_limits_def)

lemma list_all_add_time: "list_all within_limits chain \<Longrightarrow> list_all within_limits (add_time st t chain)"
  by (auto simp: add_time_def within_limits_def split: list.splits)

lemma list_all_record_tool: "list_all within_limits chain \<Longrightarrow> list_all within_limits (record_tool_request chain)"
  by (auto simp: record_tool_request_map list_all_iff within_limits_def)

declare list_all_count_model_request [inv_intros] list_all_record_usage [inv_intros]
  list_all_record_unknown [inv_intros] list_all_add_time [inv_intros] list_all_record_tool [inv_intros]

subsection \<open>Runs of a turn and its sub-agents\<close>

text \<open>
  The operations the agent loop performs on the stack of turns: a model request after its
  guard, a usage report, the request of a tool, which is counted while the response streams in, and
  the start and end of a sub-agent, whose turn has the current one as its parent.
\<close>

datatype budget_op =
    RequestModel pyfloat str
  | ReportUsage token_usage
  | ReportUnknown
  | RequestTool
  | SpawnTurn turn_state
  | ReturnTurn

fun budget_step :: "turn_state list \<Rightarrow> budget_op \<Rightarrow> turn_state list" where
  "budget_step chain (RequestModel now stage) =
     (if can_request_model now chain then record_model_request None stage chain else chain)"
| "budget_step chain (ReportUsage u) = (if usage_ok u then record_usage u chain else chain)"
| "budget_step chain ReportUnknown = record_unknown_usage chain"
| "budget_step chain RequestTool = record_tool_request chain"
| "budget_step chain (SpawnTurn s) = (if within_limits s then s # chain else chain)"
| "budget_step chain ReturnTurn = (case chain of _ # p # ps \<Rightarrow> p # ps | _ \<Rightarrow> chain)"

lemma budget_step_within_limits:
  "list_all within_limits chain \<Longrightarrow> list_all within_limits (budget_step chain op)"
  by (cases op)
    (auto simp: can_request_model_def record_model_request_def intro: inv_intros split: list.splits)

lemma budget_run_within_limits:
  "list_all within_limits chain \<Longrightarrow> list_all within_limits (foldl budget_step chain ops)"
  by (induction ops arbitrary: chain) (auto intro: budget_step_within_limits)

end
