(* ===== verification/Model_Budget.thy ===== *)
theory Model_Budget
  imports Turn_State
begin

text \<open>
  \<open>forge/runtime/model_budget.py\<close>: \<open>BudgetedModelClient.stream\<close>, the turn-scoped adapter
  around a provider. The provider is the environment: it calls the request observer once per
  HTTP attempt (an \<open>Attempt\<close> action, with the clock and whether the task is being cancelled)
  and yields stream events (\<open>Yields\<close>); it then ends normally, is cancelled or fails
  (\<open>ending\<close>). The stream's local variables are the record \<open>stream_state\<close>; the events given
  to the sink are its \<open>ss_log\<close>. Fresh request ids come from \<open>uuid\<close>, indexed by the attempt
  number. Not modelled: the debug copy of the text, wall-clock durations and the wire observer.
\<close>

record tool_block =
  tb_id :: "str option"
  tb_name :: "str option"
  tb_characters :: "int option"
  tb_complete :: "bool option"
  tb_arguments :: "jdict option"

record request =
  rq_id :: str
  rq_ordinal :: int
  rq_attempt_no :: int
  rq_remaining :: "int option"
  rq_stage :: str
  rq_text_characters :: int
  rq_tool_blocks :: "(str, tool_block) dict"
  rq_stop_reason :: "str option"

datatype outcome = OCompleted | OCancelled | OFailed | ORetrying | OIndeterminate

datatype log_event =
    InputSnapshot str
  | RequestStarted request
  | RequestFinished (rf_request: request) (rf_outcome: outcome) (rf_reason: str)
      (rf_usage: "token_usage option") (rf_final: "bool option") (rf_complete: bool)
  | RequestChunk str str
  | ToolChunk str int "str option" "str option" "str option"

datatype stream_exn = BudgetExhausted str | StreamCancelled | StreamError str

record stream_state =
  ss_chain :: "turn_state list"
  ss_stage :: str
  ss_sink :: bool
  ss_usage :: "token_usage option"
  ss_raw_usage :: "jdict option"
  ss_request_id :: "str option"
  ss_returned_model :: "str option"
  ss_final :: "bool option"
  ss_request :: "request option"
  ss_attempt_no :: int
  ss_log :: "log_event list"

definition start_stream :: "turn_state list \<Rightarrow> str \<Rightarrow> bool \<Rightarrow> stream_state" where
  "start_stream chain stage sink = \<lparr>ss_chain = chain, ss_stage = stage, ss_sink = sink,
     ss_usage = None, ss_raw_usage = None, ss_request_id = None, ss_returned_model = None,
     ss_final = None, ss_request = None, ss_attempt_no = 0,
     ss_log = (if sink then [InputSnapshot stage] else [])\<rparr>"

definition emit :: "log_event \<Rightarrow> stream_state \<Rightarrow> stream_state" where
  "emit e st = (if ss_sink st then st\<lparr>ss_log := ss_log st @ [e]\<rparr> else st)"

definition response_complete :: "outcome \<Rightarrow> request \<Rightarrow> bool" where
  "response_complete out r \<longleftrightarrow> out = OCompleted \<and> rq_stop_reason r \<noteq> None
     \<and> list_all (\<lambda>b. tb_complete b = Some True) (dict_values (rq_tool_blocks r))"

definition end_request :: "outcome \<Rightarrow> str \<Rightarrow> stream_state \<Rightarrow> stream_state" where
  "end_request out reason st =
     (case ss_request st of
        None \<Rightarrow> st
      | Some r \<Rightarrow>
         (let st1 = (if ss_usage st = None \<or> ss_final st = Some False
                     then st\<lparr>ss_chain := record_unknown_usage (ss_chain st)\<rparr> else st);
              st2 = emit (RequestFinished r out reason (ss_usage st) (ss_final st) (response_complete out r)) st1
          in st2\<lparr>ss_request := None\<rparr>))"

definition settle_usage :: "stream_state \<Rightarrow> stream_state" where
  "settle_usage st = (case ss_usage st of None \<Rightarrow> st
     | Some u \<Rightarrow> st\<lparr>ss_chain := record_usage u (ss_chain st), ss_usage := None\<rparr>)"

definition remaining_calls :: "turn_state list \<Rightarrow> int option" where
  "remaining_calls chain =
     (let rs = List.map_filter (\<lambda>s. map_option (\<lambda>m. max 0 (m - ts_model_calls s)) (ts_max_model_calls s)) chain
      in if rs = [] then None else Some (Min (set rs)))"

text \<open>What \<open>begin_request\<close> does before it asks for the budget: close an attempt the provider
  left open, charge the usage it reported, and forget its identification.\<close>

definition prepare_request :: "stream_state \<Rightarrow> stream_state" where
  "prepare_request st =
     (settle_usage (end_request OIndeterminate ''missing_attempt_boundary'' st))
       \<lparr>ss_raw_usage := None, ss_request_id := None, ss_returned_model := None, ss_final := None\<rparr>"

definition open_request :: "(int \<Rightarrow> str) \<Rightarrow> stream_state \<Rightarrow> stream_state" where
  "open_request uuid st =
     (let chain = record_model_request None (ss_stage st) (ss_chain st);
          n = ss_attempt_no st + 1;
          r = \<lparr>rq_id = uuid n, rq_ordinal = (case chain of [] \<Rightarrow> 0 | s # _ \<Rightarrow> ts_model_calls s),
               rq_attempt_no = n, rq_remaining = remaining_calls chain, rq_stage = ss_stage st,
               rq_text_characters = 0, rq_tool_blocks = [], rq_stop_reason = None\<rparr>
      in emit (RequestStarted r) (st\<lparr>ss_chain := chain, ss_attempt_no := n, ss_request := Some r\<rparr>))"

definition begin_request :: "(int \<Rightarrow> str) \<Rightarrow> pyfloat \<Rightarrow> bool \<Rightarrow> stream_state \<Rightarrow> stream_state \<times> stream_exn option" where
  "begin_request uuid now cancelling st =
     (if cancelling then (st, Some StreamCancelled)
      else (let st = prepare_request st in
        case budget_reason now True (ss_chain st) of
          Some reason \<Rightarrow> (st, Some (BudgetExhausted reason))
        | None \<Rightarrow> (open_request uuid st, None)))"

definition or_else :: "str option \<Rightarrow> str option \<Rightarrow> str option" where
  "or_else new old = (case new of None \<Rightarrow> old | Some s \<Rightarrow> (if s = [] then old else Some s))"

definition note_usage :: "stream_event \<Rightarrow> stream_state \<Rightarrow> stream_state" where
  "note_usage e st = (case e of
     UsageUpdate u req calls raw rid model final \<Rightarrow>
       st\<lparr>ss_usage := Some (case req of Some r \<Rightarrow> r | None \<Rightarrow> u), ss_raw_usage := raw,
          ss_request_id := or_else rid (ss_request_id st),
          ss_returned_model := or_else model (ss_returned_model st), ss_final := final\<rparr>
   | _ \<Rightarrow> st)"

definition set_block :: "request \<Rightarrow> int \<Rightarrow> tool_block \<Rightarrow> request" where
  "set_block r i b = r\<lparr>rq_tool_blocks := dict_set (rq_tool_blocks r) (int_str i) b\<rparr>"

text \<open>One event while a request is open. A delta for a block without a character count is the
  \<open>KeyError\<close> of \<open>block['argument_characters'] += ...\<close>.\<close>

definition on_request_event :: "stream_event \<Rightarrow> request \<Rightarrow> stream_state \<Rightarrow> stream_state \<times> stream_exn option" where
  "on_request_event e r st = (case e of
     TextDelta t _ \<Rightarrow>
       (emit (RequestChunk (rq_id r) t)
          (st\<lparr>ss_request := Some (r\<lparr>rq_text_characters := rq_text_characters r + int (length t)\<rparr>)\<rparr>), None)
   | ToolCallStarted i cid nm \<Rightarrow>
       (emit (ToolChunk (rq_id r) i (Some cid) (Some nm) None)
          (st\<lparr>ss_request := Some (set_block r i \<lparr>tb_id = Some cid, tb_name = Some nm,
              tb_characters = Some 0, tb_complete = Some False, tb_arguments = None\<rparr>)\<rparr>), None)
   | ToolCallArgumentsDelta i part \<Rightarrow>
       (let b = dict_get_or (rq_tool_blocks r) (int_str i) \<lparr>tb_id = None, tb_name = None,
              tb_characters = Some 0, tb_complete = Some False, tb_arguments = None\<rparr>
        in (case tb_characters b of
            None \<Rightarrow> (st, Some (StreamError ''KeyError''))
          | Some n \<Rightarrow>
             (emit (ToolChunk (rq_id r) i None None (Some part))
               (st\<lparr>ss_request := Some (set_block r i (b\<lparr>tb_characters := Some (n + int (length part))\<rparr>))\<rparr>), None)))
   | ToolCallCompleted c \<Rightarrow>
       (let b = dict_get_or (rq_tool_blocks r) (int_str (tc_index c)) \<lparr>tb_id = None, tb_name = None,
              tb_characters = None, tb_complete = None, tb_arguments = None\<rparr>
        in (st\<lparr>ss_request := Some (set_block r (tc_index c) (b\<lparr>tb_id := Some (tc_id c),
              tb_name := Some (tc_name c), tb_complete := Some True, tb_arguments := Some (tc_arguments c)\<rparr>))\<rparr>, None))
   | ResponseCompleted stop \<Rightarrow> (st\<lparr>ss_request := Some (r\<lparr>rq_stop_reason := stop\<rparr>)\<rparr>, None)
   | RetryScheduled _ reason _ \<Rightarrow> (end_request ORetrying reason st, None)
   | _ \<Rightarrow> (st, None))"

definition on_event :: "stream_event \<Rightarrow> stream_state \<Rightarrow> stream_state \<times> stream_exn option" where
  "on_event e st =
     (let st = note_usage e st in
      case ss_request st of None \<Rightarrow> (st, None) | Some r \<Rightarrow> on_request_event e r st)"

datatype action = Attempt pyfloat bool | Yields stream_event
datatype ending = EndNormal | EndCancelled | EndFailed str

text \<open>The \<open>except\<close> and \<open>finally\<close> clauses.\<close>

definition close_stream :: "pyfloat \<Rightarrow> ending \<Rightarrow> stream_state \<Rightarrow> stream_state" where
  "close_stream elapsed ending st =
     (let st = (case ending of
            EndNormal \<Rightarrow> end_request OCompleted [] st
          | EndCancelled \<Rightarrow> end_request OCancelled ''request_cancelled'' st
          | EndFailed reason \<Rightarrow> end_request OFailed reason st);
          st = end_request OIndeterminate ''stream_closed'' st;
          st = settle_usage st
      in st\<lparr>ss_chain := add_time (ss_stage st) elapsed (ss_chain st)\<rparr>)"

definition ending_of :: "stream_exn \<Rightarrow> ending" where
  "ending_of x = (case x of StreamCancelled \<Rightarrow> EndCancelled
     | BudgetExhausted reason \<Rightarrow> EndFailed reason | StreamError reason \<Rightarrow> EndFailed reason)"

fun act :: "(int \<Rightarrow> str) \<Rightarrow> action \<Rightarrow> stream_state \<Rightarrow> stream_state \<times> stream_exn option" where
  "act uuid (Attempt now cancelling) st = begin_request uuid now cancelling st"
| "act uuid (Yields e) st = on_event e st"

text \<open>The body of the \<open>try\<close>: actions until one raises, then the clean-up.\<close>

fun stream_loop :: "(int \<Rightarrow> str) \<Rightarrow> pyfloat \<Rightarrow> action list \<Rightarrow> ending \<Rightarrow> stream_state \<Rightarrow> stream_state \<times> stream_exn option" where
  "stream_loop uuid elapsed [] ending st = (close_stream elapsed ending st, None)"
| "stream_loop uuid elapsed (a # as) ending st =
     (case act uuid a st of
        (st', None) \<Rightarrow> stream_loop uuid elapsed as ending st'
      | (st', Some x) \<Rightarrow> (close_stream elapsed (ending_of x) st', Some x))"

text \<open>A client that does not report its attempts is charged one request for the stream.\<close>

definition run_stream ::
  "(int \<Rightarrow> str) \<Rightarrow> bool \<Rightarrow> pyfloat \<Rightarrow> bool \<Rightarrow> pyfloat \<Rightarrow> turn_state list \<Rightarrow> str \<Rightarrow> bool \<Rightarrow>
     action list \<Rightarrow> ending \<Rightarrow> stream_state \<times> stream_exn option" where
  "run_stream uuid observes now cancelling elapsed chain stage sink actions ending =
     stream_loop uuid elapsed ((if observes then [] else [Attempt now cancelling]) @ actions) ending
       (start_stream chain stage sink)"

subsection \<open>Calls charged to a chain\<close>

definition calls_above :: "turn_state list \<Rightarrow> int \<Rightarrow> turn_state list \<Rightarrow> bool" where
  "calls_above chain0 n chain \<longleftrightarrow> map ts_model_calls chain = map (\<lambda>s. ts_model_calls s + n) chain0"

lemma calls_record_unknown [simp]: "map ts_model_calls (record_unknown_usage c) = map ts_model_calls c"
  by (simp add: record_unknown_usage_map)

lemma calls_record_usage [simp]: "map ts_model_calls (record_usage u c) = map ts_model_calls c"
  by (simp add: record_usage_map)

lemma calls_add_time [simp]: "map ts_model_calls (add_time st t c) = map ts_model_calls c"
  by (simp add: add_time_def split: list.splits)

lemma calls_count_model_request [simp]:
  "map ts_model_calls (count_model_request stage c) = map (\<lambda>s. ts_model_calls s + 1) c"
  by (induction stage c rule: count_model_request.induct) (simp_all add: count_request_def)

lemma end_request_closed [simp]: "ss_request (end_request out reason st) = None"
  by (auto simp: end_request_def emit_def Let_def split: option.splits)

lemma settle_request [simp]: "ss_request (settle_usage st) = ss_request st"
  by (simp add: settle_usage_def split: option.splits)

lemma prepare_request_simps [simp]: "ss_request (prepare_request st) = None" "ss_usage (prepare_request st) = None"
  by (simp_all add: prepare_request_def settle_usage_def split: option.splits)

subsection \<open>Usage is charged once per attempt\<close>

definition opt_list :: "'a option \<Rightarrow> 'a list" where
  "opt_list x = (case x of None \<Rightarrow> [] | Some y \<Rightarrow> [y])"

text \<open>The reference: of the cumulative reports of each attempt, the last one.\<close>

fun last_reports :: "token_usage option \<Rightarrow> action list \<Rightarrow> token_usage list" where
  "last_reports cur [] = opt_list cur"
| "last_reports cur (Attempt now c # as) = opt_list cur @ last_reports None as"
| "last_reports cur (Yields (UsageUpdate u req _ _ _ _ _) # as) =
     last_reports (Some (case req of Some r \<Rightarrow> r | None \<Rightarrow> u)) as"
| "last_reports cur (Yields _ # as) = last_reports cur as"

definition usages :: "turn_state list \<Rightarrow> token_usage list" where
  "usages chain = map ts_usage chain"

definition charge :: "token_usage list \<Rightarrow> token_usage \<Rightarrow> token_usage" where
  "charge us u = foldl add_usage u us"

lemma usages_simps [simp]:
  "usages (record_unknown_usage c) = usages c"
  "usages (add_time st t c) = usages c"
  "usages (count_model_request stage c) = usages c"
  "usages (record_usage u c) = map (\<lambda>v. add_usage v u) (usages c)"
  by (simp_all add: usages_def record_unknown_usage_map add_time_def record_usage_map split: list.splits)
    (induction stage c rule: count_model_request.induct; simp add: count_request_def)

lemma end_request_usage [simp]:
  "usages (ss_chain (end_request out reason st)) = usages (ss_chain st)"
  "ss_usage (end_request out reason st) = ss_usage st"
  by (simp_all add: end_request_def emit_def Let_def split: option.splits)

lemma emit_usage [simp]:
  "ss_chain (emit e st) = ss_chain st" "ss_usage (emit e st) = ss_usage st"
  by (simp_all add: emit_def)

lemma charge_Nil [simp]: "charge [] = (\<lambda>u. u)"
  by (simp add: charge_def fun_eq_iff)

lemma settle_usage_charge [simp]:
  "usages (ss_chain (settle_usage st)) = map (charge (opt_list (ss_usage st))) (usages (ss_chain st))"
  "ss_usage (settle_usage st) = None"
  by (simp_all add: settle_usage_def opt_list_def charge_def split: option.splits)

lemma charge_append: "charge (us @ vs) u = charge vs (charge us u)"
  by (simp add: charge_def)

lemma close_usage:
  "usages (ss_chain (close_stream elapsed ending st)) = map (charge (opt_list (ss_usage st))) (usages (ss_chain st))"
  by (cases ending) (simp_all add: close_stream_def Let_def)

lemma event_usage:
  "usages (ss_chain (fst (on_event e st))) = usages (ss_chain st) \<and>
   last_reports (ss_usage (fst (on_event e st))) as = last_reports (ss_usage st) (Yields e # as)"
  by (cases e) (auto simp: on_event_def note_usage_def on_request_event_def Let_def split: option.splits)

lemma prepare_usage [simp]:
  "usages (ss_chain (prepare_request st)) = map (charge (opt_list (ss_usage st))) (usages (ss_chain st))"
  by (simp add: prepare_request_def)

lemma open_request_usage [simp]:
  "usages (ss_chain (open_request uuid st)) = usages (ss_chain st)"
  "ss_usage (open_request uuid st) = ss_usage st"
  by (simp_all add: open_request_def record_model_request_def Let_def)

lemma begin_usage:
  "begin_request uuid now cancelling st = (st', None) \<Longrightarrow>
     usages (ss_chain st') = map (charge (opt_list (ss_usage st))) (usages (ss_chain st)) \<and> ss_usage st' = None"
  by (auto simp: begin_request_def Let_def split: if_splits option.splits)

lemma begin_usage_exn:
  "begin_request uuid now cancelling st = (st', Some x) \<Longrightarrow>
     map (charge (opt_list (ss_usage st'))) (usages (ss_chain st'))
       = map (charge (opt_list (ss_usage st))) (usages (ss_chain st))"
  by (auto simp: begin_request_def Let_def charge_def opt_list_def split: if_splits option.splits)

lemma loop_usage:
  "\<exists>k\<le>length as. usages (ss_chain (fst (stream_loop uuid elapsed as ending st)))
       = map (charge (last_reports (ss_usage st) (take k as))) (usages (ss_chain st))
     \<and> (snd (stream_loop uuid elapsed as ending st) = None \<longrightarrow> k = length as)"
proof (induction as arbitrary: st)
  case Nil
  show ?case by (simp add: close_usage)
next
  case (Cons a as)
  obtain st' x where act: "act uuid a st = (st', x)" by force
  show ?case
  proof (cases x)
    case None
    obtain k where k: "k \<le> length as"
      "usages (ss_chain (fst (stream_loop uuid elapsed as ending st')))
         = map (charge (last_reports (ss_usage st') (take k as))) (usages (ss_chain st'))"
      "snd (stream_loop uuid elapsed as ending st') = None \<longrightarrow> k = length as"
      using Cons.IH by blast
    have "map (charge (last_reports (ss_usage st') (take k as))) (usages (ss_chain st'))
        = map (charge (last_reports (ss_usage st) (a # take k as))) (usages (ss_chain st))"
    proof (cases a)
      case (Attempt now c)
      with act None begin_usage [of uuid now c st st'] show ?thesis
        by (simp add: charge_append comp_def)
    next
      case (Yields e)
      with act event_usage [of e st "take k as"] show ?thesis by simp
    qed
    with k act None show ?thesis by (intro exI [of _ "Suc k"]) simp
  next
    case (Some y)
    have "map (charge (opt_list (ss_usage st'))) (usages (ss_chain st'))
        = map (charge (last_reports (ss_usage st) [a])) (usages (ss_chain st))"
    proof (cases a)
      case (Attempt now c)
      with act Some begin_usage_exn [of uuid now c st st' y] show ?thesis
        by (simp add: opt_list_def)
    next
      case (Yields e)
      with act event_usage [of e st "[]"] show ?thesis by simp
    qed
    with act Some show ?thesis by (intro exI [of _ "Suc 0"]) (simp add: close_usage)
  qed
qed

subsection \<open>The life of a request in the log\<close>

text \<open>
  The logs a stream may leave: attempts are numbered from 1, a request starts when none is open,
  chunks carry the id of the open request, and it is the open request that is finished.
  \<open>request_log n cur l\<close>: after \<open>l\<close>, \<open>n\<close> requests were started and \<open>cur\<close> is the open one.
\<close>

inductive request_log :: "int \<Rightarrow> str option \<Rightarrow> log_event list \<Rightarrow> bool" where
  Empty: "request_log 0 None []"
| Snapshot: "request_log n cur l \<Longrightarrow> request_log n cur (l @ [InputSnapshot stage])"
| Started: "request_log n None l \<Longrightarrow> rq_attempt_no r = n + 1 \<Longrightarrow>
    request_log (n + 1) (Some (rq_id r)) (l @ [RequestStarted r])"
| Finished: "request_log n (Some (rq_id r)) l \<Longrightarrow> rq_attempt_no r = n \<Longrightarrow>
    request_log n None (l @ [RequestFinished r out reason usage final whole])"
| Chunk: "request_log n (Some i) l \<Longrightarrow> request_log n (Some i) (l @ [RequestChunk i t])"
| Tool: "request_log n (Some i) l \<Longrightarrow> request_log n (Some i) (l @ [ToolChunk i b cid nm part])"

lemma started_log:
  "request_log n None l \<Longrightarrow> rq_attempt_no r = n + 1 \<Longrightarrow> i = rq_id r \<Longrightarrow>
     request_log (n + 1) (Some i) (l @ [RequestStarted r])"
  by (simp add: Started)

definition attempts :: "action list \<Rightarrow> int" where
  "attempts acts = sum_list (map (\<lambda>a. case a of Attempt _ _ \<Rightarrow> 1 | Yields _ \<Rightarrow> 0) acts)"

text \<open>A level of the chain has room for one more request, after so many calls and input tokens.\<close>

definition has_room :: "int \<Rightarrow> int \<Rightarrow> pyfloat \<Rightarrow> turn_state \<Rightarrow> bool" where
  "has_room calls tokens now s \<longleftrightarrow>
     (\<forall>m. ts_max_model_calls s = Some m \<longrightarrow> ts_model_calls s + calls < m)
     \<and> (\<forall>m. ts_max_input_tokens s = Some m \<longrightarrow> total_input_tokens (ts_usage s) + tokens < m)
     \<and> (\<forall>m. ts_max_seconds s = Some m \<longrightarrow> now - ts_started_at s < m)"

definition reported_input :: "action list \<Rightarrow> int" where
  "reported_input acts = sum_list (map total_input_tokens (last_reports None acts))"

definition room_after :: "turn_state list \<Rightarrow> action list \<Rightarrow> pyfloat \<Rightarrow> bool" where
  "room_after chain acts now \<longleftrightarrow> list_all (has_room (attempts acts) (reported_input acts) now) chain"

lemma attempts_simps [simp]:
  "attempts [] = 0" "attempts (acts @ [Attempt now c]) = attempts acts + 1"
  "attempts (acts @ [Yields e]) = attempts acts"
  by (simp_all add: attempts_def)

text \<open>What the budget guard reads of a chain, in terms of the chain the stream began with.\<close>

definition frame_of :: "turn_state \<Rightarrow> (int option \<times> int option \<times> int option \<times> pyfloat option) \<times> pyfloat" where
  "frame_of s = (limits s, ts_started_at s)"

definition charged :: "turn_state list \<Rightarrow> int \<Rightarrow> token_usage list \<Rightarrow> turn_state list \<Rightarrow> bool" where
  "charged chain n used c \<longleftrightarrow> map frame_of c = map frame_of chain
     \<and> calls_above chain n c \<and> usages c = map (charge used) (usages chain)"

lemma charged_refl: "charged chain 0 [] chain"
  by (simp add: charged_def calls_above_def)

lemma frames_simps [simp]:
  "map frame_of (record_unknown_usage c) = map frame_of c"
  "map frame_of (add_time st t c) = map frame_of c"
  "map frame_of (record_usage u c) = map frame_of c"
  by (simp_all add: frame_of_def limits_def record_unknown_usage_map add_time_def record_usage_map
      split: list.splits)

lemma frames_count [simp]: "map frame_of (count_model_request stage c) = map frame_of c"
  by (induction stage c rule: count_model_request.induct) (simp_all add: count_request_def frame_of_def limits_def)

lemma total_input_charge:
  "total_input_tokens (charge used u) = total_input_tokens u + sum_list (map total_input_tokens used)"
  by (induction used arbitrary: u) (simp_all add: charge_def total_input_add)

lemma own_budget_room:
  assumes "frame_of s' = frame_of s" "ts_model_calls s' = ts_model_calls s + n" "ts_usage s' = charge used (ts_usage s)"
  shows "own_budget_reason now True s' = None \<longleftrightarrow> has_room n (sum_list (map total_input_tokens used)) now s"
  using assms
  by (auto simp: frame_of_def limits_def own_budget_reason_def has_room_def total_input_charge not_le
      split: option.splits if_splits)

lemma budget_room:
  assumes "charged chain n used c"
  shows "budget_reason now True c = None \<longleftrightarrow> list_all (has_room n (sum_list (map total_input_tokens used)) now) chain"
proof -
  have len: "length c = length chain" using assms by (metis charged_def length_map)
  have "own_budget_reason now True (c ! i) = None \<longleftrightarrow>
      has_room n (sum_list (map total_input_tokens used)) now (chain ! i)" if "i < length chain" for i
    using assms that len
    by (intro own_budget_room; simp add: charged_def calls_above_def usages_def list_eq_iff_nth_eq)
  then show ?thesis
    by (simp add: budget_reason_None_iff list_all_length all_set_conv_all_nth len)
qed

text \<open>What holds of a stream after the actions \<open>acts\<close>.\<close>

definition accounted_for :: "turn_state list \<Rightarrow> action list \<Rightarrow> stream_state \<Rightarrow> bool" where
  "accounted_for chain acts st \<longleftrightarrow> ss_sink st
     \<and> request_log (attempts acts) (map_option rq_id (ss_request st)) (ss_log st)
     \<and> ss_attempt_no st = attempts acts
     \<and> (\<forall>r. ss_request st = Some r \<longrightarrow> rq_attempt_no r = attempts acts)
     \<and> (\<exists>used. (\<forall>rest. last_reports None (acts @ rest) = used @ last_reports (ss_usage st) rest)
          \<and> charged chain (attempts acts) used (ss_chain st))"

lemma accounted_start: "accounted_for chain [] (start_stream chain stage True)"
  using Snapshot [OF Empty, of stage] charged_refl [of chain]
  by (simp add: accounted_for_def start_stream_def)

lemma accounted_end_request: "accounted_for chain acts st \<Longrightarrow> accounted_for chain acts (end_request out reason st)"
  by (auto simp: accounted_for_def end_request_def emit_def Let_def charged_def calls_above_def
      intro: Finished split: option.splits)

text \<open>Once an attempt's usage is settled, its reports count.\<close>

definition settled_for :: "turn_state list \<Rightarrow> action list \<Rightarrow> stream_state \<Rightarrow> bool" where
  "settled_for chain acts st \<longleftrightarrow> ss_sink st
     \<and> request_log (attempts acts) None (ss_log st) \<and> ss_request st = None \<and> ss_usage st = None
     \<and> ss_attempt_no st = attempts acts \<and> charged chain (attempts acts) (last_reports None acts) (ss_chain st)"

lemma charged_usage: "charged chain n used c \<Longrightarrow> charged chain n (used @ [u]) (record_usage u c)"
  by (simp add: charged_def calls_above_def charge_append comp_def) (simp add: charge_def)

lemma settle_after_end:
  assumes "accounted_for chain acts st" "ss_request st = None"
  shows "settled_for chain acts (settle_usage st)"
proof -
  obtain used where "last_reports None acts = used @ opt_list (ss_usage st)" "charged chain (attempts acts) used (ss_chain st)"
    using assms(1) by (auto simp: accounted_for_def dest: spec [where x = "[]"])
  then show ?thesis
    using assms charged_usage [of chain "attempts acts" used "ss_chain st"]
    by (auto simp: settled_for_def accounted_for_def settle_usage_def opt_list_def split: option.splits)
qed

lemma settled_prepare: "accounted_for chain acts st \<Longrightarrow> settled_for chain acts (prepare_request st)"
  using settle_after_end [OF accounted_end_request, of chain acts st]
  by (simp add: prepare_request_def settled_for_def)

lemma last_reports_attempt: "last_reports cur (acts @ Attempt now c # rest) = last_reports cur acts @ last_reports None rest"
  by (induction cur acts rule: last_reports.induct) simp_all

lemma calls_above_Suc: "calls_above chain n c \<Longrightarrow> calls_above chain (n + 1) (count_model_request stage c)"
  by (simp add: calls_above_def list_eq_iff_nth_eq)

lemma settled_open:
  assumes "settled_for chain acts st"
  shows "accounted_for chain (acts @ [Attempt now c]) (open_request uuid st)"
proof -
  have "charged chain (attempts acts + 1) (last_reports None acts) (count_model_request (ss_stage st) (ss_chain st))"
    using assms calls_above_Suc [of chain "attempts acts"] by (simp add: settled_for_def charged_def)
  then show ?thesis
    using assms by (auto simp: accounted_for_def settled_for_def open_request_def record_model_request_def
        emit_def Let_def last_reports_attempt intro: started_log)
qed

lemma settled_room: "settled_for chain acts st \<Longrightarrow> budget_reason now True (ss_chain st) = None \<longleftrightarrow> room_after chain acts now"
  using budget_room [of chain "attempts acts" "last_reports None acts" "ss_chain st" now]
  by (simp add: settled_for_def room_after_def reported_input_def)

lemma begin_accounted:
  assumes "accounted_for chain acts st" "begin_request uuid now c st = (st', None)"
  shows "accounted_for chain (acts @ [Attempt now c]) st'" "\<not> c" "room_after chain acts now"
  using assms settled_open [OF settled_prepare [OF assms(1)]] settled_room [OF settled_prepare [OF assms(1)]]
  by (auto simp: begin_request_def Let_def split: if_splits option.splits)

lemma begin_refused:
  assumes "accounted_for chain acts st" "begin_request uuid now c st = (st', Some (BudgetExhausted reason))"
  shows "\<not> c \<and> \<not> room_after chain acts now"
  using assms settled_room [OF settled_prepare [OF assms(1)], of now]
  by (auto simp: begin_request_def Let_def split: if_splits option.splits)

text \<open>What holds when the stream is over, or is about to be closed.\<close>

definition loggable :: "turn_state list \<Rightarrow> int \<Rightarrow> stream_state \<Rightarrow> bool" where
  "loggable chain n st \<longleftrightarrow> ss_sink st \<and> request_log n (map_option rq_id (ss_request st)) (ss_log st)
     \<and> (\<forall>r. ss_request st = Some r \<longrightarrow> rq_attempt_no r = n) \<and> calls_above chain n (ss_chain st)"

lemma accounted_loggable: "accounted_for chain acts st \<Longrightarrow> loggable chain (attempts acts) st"
  by (auto simp: accounted_for_def loggable_def charged_def)

lemma loggable_end_request: "loggable chain n st \<Longrightarrow> loggable chain n (end_request out reason st)"
  by (auto simp: loggable_def end_request_def emit_def Let_def calls_above_def intro: Finished split: option.splits)

lemma loggable_settle: "loggable chain n st \<Longrightarrow> loggable chain n (settle_usage st)"
  by (auto simp: loggable_def settle_usage_def calls_above_def split: option.splits)

lemma loggable_time: "loggable chain n st \<Longrightarrow> loggable chain n (st\<lparr>ss_chain := add_time stage t (ss_chain st)\<rparr>)"
  by (simp add: loggable_def calls_above_def)

definition closed_after :: "turn_state list \<Rightarrow> int \<Rightarrow> stream_state \<Rightarrow> bool" where
  "closed_after chain n st \<longleftrightarrow> ss_request st = None \<and> request_log n None (ss_log st)
     \<and> map ts_model_calls (ss_chain st) = map (\<lambda>s. ts_model_calls s + n) chain"

lemma loggable_close:
  assumes "loggable chain n st"
  shows "closed_after chain n (close_stream elapsed ending st)"
proof -
  have "ss_request (close_stream elapsed ending st) = None" by (simp add: close_stream_def Let_def)
  moreover have "loggable chain n (close_stream elapsed ending st)"
    using assms unfolding close_stream_def Let_def
    by (cases ending) (simp_all add: loggable_time loggable_settle loggable_end_request)
  ultimately show ?thesis by (simp add: closed_after_def loggable_def calls_above_def)
qed

lemma event_request:
  "ss_request (note_usage e st) = ss_request st" "ss_log (note_usage e st) = ss_log st"
  "ss_sink (note_usage e st) = ss_sink st" "ss_chain (note_usage e st) = ss_chain st"
  "ss_attempt_no (note_usage e st) = ss_attempt_no st"
  by (cases e; simp add: note_usage_def)+

lemma loggable_note: "loggable chain n st \<Longrightarrow> loggable chain n (note_usage e st)"
  by (simp add: loggable_def event_request)

lemma loggable_request_event:
  "loggable chain n st \<Longrightarrow> ss_request st = Some r \<Longrightarrow> loggable chain n (fst (on_request_event e r st))"
  by (cases e)
    (auto simp: on_request_event_def loggable_end_request,
     auto simp: loggable_def emit_def set_block_def Let_def intro: request_log.intros split: option.splits)

lemma loggable_event: "loggable chain n st \<Longrightarrow> loggable chain n (fst (on_event e st))"
  using loggable_request_event [OF loggable_note]
  by (auto simp: on_event_def Let_def loggable_note split: option.splits)

lemma attempt_no_event: "ss_attempt_no (fst (on_event e st)) = ss_attempt_no st"
  by (cases e) (auto simp: on_event_def note_usage_def on_request_event_def end_request_def emit_def Let_def
      split: option.splits)

lemma frames_event: "map frame_of (ss_chain (fst (on_event e st))) = map frame_of (ss_chain st)"
  by (cases e) (auto simp: on_event_def note_usage_def on_request_event_def end_request_def emit_def Let_def
      split: option.splits)

lemma accounted_event:
  assumes "accounted_for chain acts st"
  shows "accounted_for chain (acts @ [Yields e]) (fst (on_event e st))"
proof -
  have "loggable chain (attempts acts) (fst (on_event e st))"
    by (rule loggable_event [OF accounted_loggable [OF assms]])
  moreover obtain used where "\<forall>rest. last_reports None (acts @ rest) = used @ last_reports (ss_usage st) rest"
    "charged chain (attempts acts) used (ss_chain st)"
    using assms by (auto simp: accounted_for_def)
  ultimately show ?thesis
    using assms event_usage [of e st] attempt_no_event [of e st] frames_event [of e st]
    by (auto simp: accounted_for_def loggable_def charged_def)
qed

lemma accounted_act:
  assumes "accounted_for chain acts st" "act uuid a st = (st', None)"
  shows "accounted_for chain (acts @ [a]) st' \<and> (\<forall>now c. a = Attempt now c \<longrightarrow> \<not> c \<and> room_after chain acts now)"
proof (cases a)
  case (Attempt now c)
  with assms(2) have "begin_request uuid now c st = (st', None)" by simp
  from begin_accounted [OF assms(1) this] Attempt show ?thesis by simp
next
  case (Yields e)
  with assms accounted_event [OF assms(1), of e] show ?thesis by simp
qed

lemma stopped_act:
  assumes "accounted_for chain acts st" "act uuid a st = (st', Some x)"
  shows "loggable chain (attempts acts) st' \<and>
    (\<forall>reason. x = BudgetExhausted reason \<longrightarrow> (\<exists>now. a = Attempt now False \<and> \<not> room_after chain acts now))"
proof (cases a)
  case (Attempt now c)
  have "loggable chain (attempts acts) (prepare_request st)"
    using settled_prepare [OF assms(1)] by (simp add: settled_for_def loggable_def charged_def)
  with assms Attempt begin_refused [OF assms(1), of uuid now c st'] accounted_loggable [OF assms(1)] show ?thesis
    by (auto simp: begin_request_def Let_def split: if_splits option.splits)
next
  case (Yields e)
  have "\<nexists>reason. snd (on_event e st) = Some (BudgetExhausted reason)"
    by (cases e) (auto simp: on_event_def on_request_event_def Let_def split: option.splits)
  with assms Yields loggable_event [OF accounted_loggable [OF assms(1)], of e] show ?thesis by auto
qed

text \<open>
  The attempts among the actions were let through: nobody cancelled, and every level of the chain
  had room for one more request after what the stream had been charged before.
\<close>

definition let_through :: "turn_state list \<Rightarrow> action list \<Rightarrow> bool" where
  "let_through chain acts \<longleftrightarrow>
     (\<forall>before now c after. acts = before @ Attempt now c # after \<longrightarrow> \<not> c \<and> room_after chain before now)"

lemma let_through_Nil: "let_through chain []"
  by (simp add: let_through_def)

lemma let_through_snoc:
  assumes "let_through chain acts" "\<And>now c. a = Attempt now c \<Longrightarrow> \<not> c \<and> room_after chain acts now"
  shows "let_through chain (acts @ [a])"
  unfolding let_through_def
proof (intro allI impI)
  fix before now c after
  assume eq: "acts @ [a] = before @ Attempt now c # after"
  show "\<not> c \<and> room_after chain before now"
  proof (cases after rule: rev_cases)
    case Nil
    with eq assms(2) show ?thesis by simp
  next
    case (snoc as b)
    with eq have "acts = before @ Attempt now c # as" by simp
    with assms(1) show ?thesis unfolding let_through_def by blast
  qed
qed

text \<open>The actions a stream got to, and why it stopped there.\<close>

definition got_to :: "turn_state list \<Rightarrow> action list \<Rightarrow> nat \<Rightarrow> stream_exn option \<Rightarrow> bool" where
  "got_to chain acts k x \<longleftrightarrow> k \<le> length acts \<and> (x = None \<longrightarrow> k = length acts)
     \<and> let_through chain (take k acts)
     \<and> (\<forall>reason. x = Some (BudgetExhausted reason) \<longrightarrow>
          (\<exists>now after. acts = take k acts @ Attempt now False # after \<and> \<not> room_after chain (take k acts) now))"

lemma accounted_loop:
  assumes "accounted_for chain before st" and "let_through chain before"
  shows "\<exists>k. got_to chain (before @ as) k (snd (stream_loop uuid elapsed as ending st))
    \<and> closed_after chain (attempts (take k (before @ as))) (fst (stream_loop uuid elapsed as ending st))"
  using assms
proof (induction as arbitrary: before st)
  case Nil
  then show ?case
    by (intro exI [of _ "length before"]) (auto simp: got_to_def intro!: loggable_close accounted_loggable)
next
  case (Cons a as)
  obtain st' x where act: "act uuid a st = (st', x)" by force
  show ?case
  proof (cases x)
    case None
    have "accounted_for chain (before @ [a]) st'" "let_through chain (before @ [a])"
      using accounted_act [OF Cons.prems(1) act [unfolded None]] let_through_snoc [OF Cons.prems(2)] by blast+
    from Cons.IH [OF this] act None show ?thesis by simp
  next
    case (Some y)
    then have "loggable chain (attempts before) st'"
      "\<forall>reason. y = BudgetExhausted reason \<longrightarrow> (\<exists>now. a = Attempt now False \<and> \<not> room_after chain before now)"
      using stopped_act [OF Cons.prems(1)] act by auto
    with Cons.prems act Some show ?thesis
      by (intro exI [of _ "length before"]) (auto simp: got_to_def intro: loggable_close)
  qed
qed

end
