(* ===== verification/Py_Stdlib.thy ===== *)
theory Py_Stdlib
  imports Py_Text
begin

text \<open>
  The parts of the Python standard library the command and path checks use, modelled from the
  library's own algorithms: \<open>fnmatch\<close> patterns (POSIX, case sensitive), the \<open>shlex\<close> lexer, and
  backtracking regular expressions of \<open>re\<close> restricted to the operators that occur in the sources.
\<close>

subsection \<open>fnmatch\<close>

datatype gtok = GStar | GAny | GSet bool "(char \<times> char) list" | GLit char

fun parse_set :: "str \<Rightarrow> (char \<times> char) list" where
  "parse_set (a # b # c # r) =
     (if b = CHR 0x2D then (a, c) # parse_set r else (a, a) # parse_set (b # c # r))"
| "parse_set (a # r) = (a, a) # parse_set r"
| "parse_set [] = []"

text \<open>After \<open>[\<close>: negation, the set's characters, and what follows the closing bracket.\<close>

definition split_set :: "str \<Rightarrow> (bool \<times> str \<times> str) option" where
  "split_set s =
     (let neg = startswith s ''!'';
          s1 = (if neg then tl s else s);
          fst_br = startswith s1 '']'';
          s2 = (if fst_br then tl s1 else s1);
          body = takeWhile (\<lambda>c. c \<noteq> CHR 0x5D) s2;
          rest = dropWhile (\<lambda>c. c \<noteq> CHR 0x5D) s2
      in if rest = [] then None
         else Some (neg, (if fst_br then CHR 0x5D # body else body), tl rest))"

lemma split_set_length: "split_set s = Some (n, b, r) \<Longrightarrow> length r \<le> length s"
proof -
  assume a: "split_set s = Some (n, b, r)"
  obtain s2 where s2: "r = tl (dropWhile (\<lambda>c. c \<noteq> CHR 0x5D) s2)" "length s2 \<le> length s"
    using a by (auto simp: split_set_def Let_def split: if_splits)
  have "length r \<le> length s2"
    unfolding s2(1) by (metis diff_le_self length_dropWhile_le length_tl order_trans)
  with s2(2) show ?thesis by simp
qed

function glob_parse :: "str \<Rightarrow> gtok list" where
  "glob_parse [] = []"
| "glob_parse (c # p) =
     (if c = CHR 0x2A then GStar # glob_parse p
      else if c = CHR 0x3F then GAny # glob_parse p
      else if c = CHR 0x5B then
        (case split_set p of
           None \<Rightarrow> GLit c # glob_parse p
         | Some (neg, body, rest) \<Rightarrow> GSet neg (parse_set body) # glob_parse rest)
      else GLit c # glob_parse p)"
  by pat_completeness auto
termination
  by (relation "measure length") (auto dest: split_set_length)

definition in_ranges :: "char \<Rightarrow> (char \<times> char) list \<Rightarrow> bool" where
  "in_ranges c rs \<longleftrightarrow> list_ex (\<lambda>(lo, hi). lo \<le> c \<and> c \<le> hi) rs"

fun glob_match :: "gtok list \<Rightarrow> str \<Rightarrow> bool" where
  "glob_match [] s = (s = [])"
| "glob_match (GStar # p) [] = glob_match p []"
| "glob_match (GStar # p) (c # s) = (glob_match p (c # s) \<or> glob_match (GStar # p) s)"
| "glob_match (GAny # p) s = (case s of [] \<Rightarrow> False | _ # s' \<Rightarrow> glob_match p s')"
| "glob_match (GSet neg rs # p) s =
     (case s of [] \<Rightarrow> False | c # s' \<Rightarrow> in_ranges c rs \<noteq> neg \<and> glob_match p s')"
| "glob_match (GLit d # p) s = (case s of [] \<Rightarrow> False | c # s' \<Rightarrow> c = d \<and> glob_match p s')"

definition fnmatch :: "str \<Rightarrow> str \<Rightarrow> bool" where
  "fnmatch name pat = glob_match (glob_parse pat) name"

definition plain_pattern :: "str \<Rightarrow> bool" where
  "plain_pattern p \<longleftrightarrow> CHR 0x2A \<notin> set p \<and> CHR 0x3F \<notin> set p \<and> CHR 0x5B \<notin> set p"

lemma glob_star_all: "glob_match [GStar] s"
  by (induction s) auto

lemma glob_parse_plain: "plain_pattern p \<Longrightarrow> glob_parse p = map GLit p"
  by (induction p) (auto simp: plain_pattern_def)

lemma glob_match_lits: "glob_match (map GLit p) s \<longleftrightarrow> s = p"
  by (induction p arbitrary: s) (auto split: list.splits)

lemma fnmatch_star [simp]: "fnmatch s ''*''"
  by (simp add: fnmatch_def glob_star_all)

lemma fnmatch_plain: "plain_pattern p \<Longrightarrow> fnmatch s p \<longleftrightarrow> s = p"
  by (simp add: fnmatch_def glob_parse_plain glob_match_lits)

lemma glob_parse_plain_append:
  "plain_pattern p \<Longrightarrow> glob_parse (p @ q) = map GLit p @ glob_parse q"
  by (induction p) (auto simp: plain_pattern_def)

lemma glob_match_lits_append:
  "glob_match (map GLit p @ q) s \<longleftrightarrow> prefix p s \<and> glob_match q (drop (length p) s)"
  by (induction p arbitrary: s) (auto split: list.splits simp: prefix_Cons)

lemma fnmatch_prefix_star: "plain_pattern p \<Longrightarrow> fnmatch s (p @ ''*'') \<longleftrightarrow> prefix p s"
  by (simp add: fnmatch_def glob_parse_plain_append glob_match_lits_append glob_star_all)

subsection \<open>shlex\<close>

record lexer =
  lx_posix :: bool
  lx_punct :: "char list"
  lx_whitespace :: "char list"
  lx_comment :: "char list"

text \<open>\<open>shlex.split(s)\<close>, and the two lexers the permission classifier sets up.\<close>

definition split_lexer :: lexer where
  "split_lexer = \<lparr>lx_posix = True, lx_punct = [], lx_whitespace = [CHR 0x20, TAB, CR, NL], lx_comment = []\<rparr>"

definition shell_lexer :: "bool \<Rightarrow> lexer" where
  "shell_lexer posix = \<lparr>lx_posix = posix, lx_punct = [CHR 0x3B, CHR 0x26, CHR 0x7C, NL],
     lx_whitespace = [CHR 0x20, TAB, CR], lx_comment = [CHR 0x23]\<rparr>"

datatype lex_state = LSpace | LWord | LPunct | LQuote char | LEscape "char option"

definition add_token :: "bool \<Rightarrow> str \<Rightarrow> str list option \<Rightarrow> str list option" where
  "add_token emit tok r = (if emit then map_option (\<lambda>ts. rev tok # ts) r else r)"

definition drop_line :: "str \<Rightarrow> str" where
  "drop_line s = drop 1 (dropWhile (\<lambda>c. c \<noteq> NL) s)"

lemma length_drop_line: "length (drop_line s) \<le> length s"
  unfolding drop_line_def by (metis diff_le_self length_drop length_dropWhile_le order_trans)

definition is_quote :: "char \<Rightarrow> bool" where
  "is_quote c \<longleftrightarrow> c = SQ \<or> c = DQ"

text \<open>
  \<open>shlex.read_token\<close> repeated, with \<open>whitespace_split\<close> set. \<open>tok\<close> is the current token reversed,
  \<open>quoted\<close> that it contained quotes; \<open>None\<close> is the \<open>ValueError\<close> of an unclosed quote or escape.
\<close>

function lex :: "lexer \<Rightarrow> lex_state \<Rightarrow> bool \<Rightarrow> str \<Rightarrow> str \<Rightarrow> str list option" where
  "lex cfg LSpace quoted tok [] = Some []"
| "lex cfg LSpace quoted tok (c # s) =
     (if c \<in> set (lx_whitespace cfg) then lex cfg LSpace quoted tok s
      else if c \<in> set (lx_comment cfg) then lex cfg LSpace quoted tok (drop_line s)
      else if lx_posix cfg \<and> c = BSL then lex cfg (LEscape None) False [] s
      else if c \<in> set (lx_punct cfg) then lex cfg LPunct False [c] s
      else if is_quote c then lex cfg (LQuote c) True (if lx_posix cfg then [] else [c]) s
      else lex cfg LWord False [c] s)"
| "lex cfg (LQuote q) quoted tok [] = None"
| "lex cfg (LQuote q) quoted tok (c # s) =
     (if c = q then
        (if lx_posix cfg then lex cfg LWord True tok s
         else add_token True (c # tok) (lex cfg LSpace False [] s))
      else if lx_posix cfg \<and> c = BSL \<and> q = DQ then lex cfg (LEscape (Some q)) True tok s
      else lex cfg (LQuote q) True (c # tok) s)"
| "lex cfg (LEscape e) quoted tok [] = None"
| "lex cfg (LEscape e) quoted tok (c # s) =
     (case e of
        None \<Rightarrow> lex cfg LWord quoted (c # tok) s
      | Some q \<Rightarrow> lex cfg (LQuote q) quoted (if c \<noteq> BSL \<and> c \<noteq> q then c # BSL # tok else c # tok) s)"
| "lex cfg LWord quoted tok [] = add_token (tok \<noteq> [] \<or> lx_posix cfg \<and> quoted) tok (Some [])"
| "lex cfg LWord quoted tok (c # s) =
     (if c \<in> set (lx_whitespace cfg) then
        add_token (tok \<noteq> [] \<or> lx_posix cfg \<and> quoted) tok (lex cfg LSpace False [] s)
      else if c \<in> set (lx_comment cfg) then
        (if lx_posix cfg
         then add_token (tok \<noteq> [] \<or> quoted) tok (lex cfg LSpace False [] (drop_line s))
         else lex cfg LWord quoted tok (drop_line s))
      else if lx_posix cfg \<and> is_quote c then lex cfg (LQuote c) True tok s
      else if lx_posix cfg \<and> c = BSL then lex cfg (LEscape None) quoted tok s
      else if c \<in> set (lx_punct cfg) then
        add_token (tok \<noteq> [] \<or> lx_posix cfg \<and> quoted) tok (lex cfg LSpace False [] (c # s))
      else lex cfg LWord quoted (c # tok) s)"
| "lex cfg LPunct quoted tok [] = add_token True tok (Some [])"
| "lex cfg LPunct quoted tok (c # s) =
     (if c \<in> set (lx_whitespace cfg) then add_token True tok (lex cfg LSpace False [] s)
      else if c \<in> set (lx_comment cfg) then
        (if lx_posix cfg then add_token True tok (lex cfg LSpace False [] (drop_line s))
         else lex cfg LPunct quoted tok (drop_line s))
      else if c \<in> set (lx_punct cfg) then lex cfg LPunct quoted (c # tok) s
      else add_token True tok (lex cfg LSpace False [] (c # s)))"
  by pat_completeness auto

termination
  by (relation "measures [\<lambda>(cfg, st, q, tok, s). length s, \<lambda>(cfg, st, q, tok, s). if st = LSpace then 0 else 1]")
    (auto simp: length_drop_line le_imp_less_Suc)

definition shlex_split :: "str \<Rightarrow> str list option" where
  "shlex_split s = lex split_lexer LSpace False [] s"

definition shell_tokens :: "bool \<Rightarrow> str \<Rightarrow> str list option" where
  "shell_tokens posix s = lex (shell_lexer posix) LSpace False [] s"

text \<open>
  Lexing creates no characters: the visible ones of all tokens were in the input. This is what
  makes the recursion of the callers on \<open>' '.join(tokens[i:])\<close> terminate.
\<close>

definition visible :: "str \<Rightarrow> nat" where
  "visible s = length (filter (\<lambda>c. c \<noteq> CHR 0x20) s)"

definition pending :: "lex_state \<Rightarrow> nat" where
  "pending st = (case st of LEscape (Some _) \<Rightarrow> 1 | _ \<Rightarrow> 0)"

lemma visible_simps [simp]:
  "visible [] = 0"
  "visible (c # s) = (if c = CHR 0x20 then visible s else Suc (visible s))"
  "visible (s @ t) = visible s + visible t"
  "visible (rev s) = visible s"
  by (simp_all add: visible_def rev_filter [symmetric])

lemma visible_drop_line: "visible (drop_line s) \<le> visible s"
proof -
  have "drop_line s = drop (Suc (length (takeWhile (\<lambda>c. c \<noteq> NL) s))) s"
    by (simp add: drop_line_def dropWhile_eq_drop)
  then obtain n where n: "drop_line s = drop n s" by blast
  have "visible s = visible (take n s) + visible (drop n s)"
    by (metis append_take_drop_id visible_simps(3))
  with n show ?thesis by simp
qed

lemma add_token_visible:
  "add_token b tok r = Some ts \<Longrightarrow> \<exists>us. r = Some us \<and> visible (concat ts) \<le> visible tok + visible (concat us)"
  by (auto simp: add_token_def split: if_splits)

lemma visible_drop_line': "n \<le> visible (drop_line s) + m \<Longrightarrow> n \<le> visible s + m"
  using visible_drop_line [of s] by linarith

lemma visible_drop_line'': "n \<le> m + visible (drop_line s) \<Longrightarrow> n \<le> m + visible s"
  using visible_drop_line [of s] by linarith

lemma lex_visible:
  "lex cfg st quoted tok s = Some ts \<Longrightarrow> visible (concat ts) \<le> visible tok + visible s + pending st"
proof (induction cfg st quoted tok s arbitrary: ts rule: lex.induct)
  case (2 cfg quoted tok c s)
  then show ?case
    using visible_drop_line [of s]
    by (fastforce simp: pending_def is_quote_def split: if_splits dest: le_trans)
next
  case (4 cfg q quoted tok c s)
  then show ?case
    by (fastforce simp: pending_def split: if_splits dest!: add_token_visible)
next
  case (6 cfg e quoted tok c s)
  then show ?case
    by (fastforce simp: pending_def split: if_splits option.splits)
next
  case (8 cfg quoted tok c s)
  then show ?case
    using visible_drop_line [of s]
    by (fastforce simp: pending_def split: if_splits dest!: add_token_visible)
next
  case (10 cfg quoted tok c s)
  then show ?case
    using visible_drop_line [of s]
    by (fastforce simp: pending_def split: if_splits dest!: add_token_visible)
qed (auto simp: pending_def dest!: add_token_visible)

end
