(* ===== verification/Py_Regex.thy ===== *)
theory Py_Regex
  imports Py_Stdlib
begin

text \<open>
  The regular expressions of the sources. A position is the previous character and the rest of
  the text; \<open>ends r pos\<close> lists the positions at which \<open>r\<close> can stop, in the order in which the
  backtracking matcher of \<open>re\<close> tries them. Letters match without regard to case where the
  pattern is compiled with \<open>IGNORECASE\<close> (\<open>ilit\<close>).
\<close>

type_synonym pos = "char option \<times> str"

datatype rx =
    Cls "char \<Rightarrow> bool"
  | Eps
  | Seq rx rx
  | Alt rx rx
  | Star rx
  | TextStart
  | LineStart
  | TextEnd
  | WordB

fun iterate :: "nat \<Rightarrow> (pos \<Rightarrow> pos list) \<Rightarrow> pos \<Rightarrow> pos list" where
  "iterate 0 f pos = [pos]"
| "iterate (Suc n) f pos =
     concat (map (\<lambda>q. if length (snd q) < length (snd pos) then iterate n f q else []) (f pos)) @ [pos]"

definition word_before :: "pos \<Rightarrow> bool" where
  "word_before p = (case fst p of None \<Rightarrow> False | Some c \<Rightarrow> py_isword c)"

definition word_after :: "pos \<Rightarrow> bool" where
  "word_after p = (case snd p of [] \<Rightarrow> False | c # _ \<Rightarrow> py_isword c)"

primrec ends :: "rx \<Rightarrow> pos \<Rightarrow> pos list" where
  "ends (Cls P) pos = (case snd pos of [] \<Rightarrow> [] | c # s \<Rightarrow> (if P c then [(Some c, s)] else []))"
| "ends Eps pos = [pos]"
| "ends (Seq a b) pos = concat (map (ends b) (ends a pos))"
| "ends (Alt a b) pos = ends a pos @ ends b pos"
| "ends (Star r) pos = iterate (Suc (length (snd pos))) (ends r) pos"
| "ends TextStart pos = (if fst pos = None then [pos] else [])"
| "ends LineStart pos = (if fst pos = None \<or> fst pos = Some NL then [pos] else [])"
| "ends TextEnd pos = (if snd pos = [] \<or> snd pos = [NL] then [pos] else [])"
| "ends WordB pos = (if word_before pos \<noteq> word_after pos then [pos] else [])"

text \<open>\<open>re.match\<close> and \<open>re.search\<close>, as truth values.\<close>

definition rx_match :: "rx \<Rightarrow> str \<Rightarrow> bool" where
  "rx_match r s \<longleftrightarrow> ends r (None, s) \<noteq> []"

fun search_from :: "rx \<Rightarrow> char option \<Rightarrow> str \<Rightarrow> bool" where
  "search_from r p [] = (ends r (p, []) \<noteq> [])"
| "search_from r p (c # s) = (ends r (p, c # s) \<noteq> [] \<or> search_from r (Some c) s)"

definition rx_search :: "rx \<Rightarrow> str \<Rightarrow> bool" where
  "rx_search r s = search_from r None s"

text \<open>\<open>re.split\<close> for a pattern that never matches the empty text.\<close>

function split_from :: "rx \<Rightarrow> str \<Rightarrow> char option \<Rightarrow> str \<Rightarrow> str list" where
  "split_from r acc p [] = [rev acc]"
| "split_from r acc p (c # s) =
     (case ends r (p, c # s) of
        q # _ \<Rightarrow> (if length (snd q) < length (c # s)
                then rev acc # split_from r [] (fst q) (snd q)
                else split_from r (c # acc) (Some c) s)
      | [] \<Rightarrow> split_from r (c # acc) (Some c) s)"
  by pat_completeness auto
termination
  by (relation "measure (\<lambda>(r, acc, p, s). length s)") auto

definition rx_split :: "rx \<Rightarrow> str \<Rightarrow> str list" where
  "rx_split r s = split_from r [] None s"

text \<open>
  \<open>re.search\<close> of a pattern \<open>A(G)B\<close>, giving the text of its group: the leftmost match, and of
  those the first in backtracking order.
\<close>

definition capture_here :: "rx \<Rightarrow> rx \<Rightarrow> rx \<Rightarrow> pos \<Rightarrow> str option" where
  "capture_here a g b pos = find_opt (\<lambda>_. True)
     (concat (map (\<lambda>q. List.map_filter (\<lambda>r. if ends b r = [] then None
        else Some (take (length (snd q) - length (snd r)) (snd q))) (ends g q)) (ends a pos)))"

fun capture_from :: "rx \<Rightarrow> rx \<Rightarrow> rx \<Rightarrow> char option \<Rightarrow> str \<Rightarrow> str option" where
  "capture_from a g b p [] = capture_here a g b (p, [])"
| "capture_from a g b p (c # s) =
     (case capture_here a g b (p, c # s) of Some t \<Rightarrow> Some t | None \<Rightarrow> capture_from a g b (Some c) s)"

definition rx_capture :: "rx \<Rightarrow> rx \<Rightarrow> rx \<Rightarrow> str \<Rightarrow> str option" where
  "rx_capture a g b s = capture_from a g b None s"

subsection \<open>Building blocks\<close>

fun seqs :: "rx list \<Rightarrow> rx" where
  "seqs [] = Eps"
| "seqs [r] = r"
| "seqs (r # rs) = Seq r (seqs rs)"

fun alts :: "rx list \<Rightarrow> rx" where
  "alts [] = Cls (\<lambda>_. False)"
| "alts [r] = r"
| "alts (r # rs) = Alt r (alts rs)"

definition chr :: "char \<Rightarrow> rx" where "chr c = Cls (\<lambda>x. x = c)"
definition ichr :: "char \<Rightarrow> rx" where "ichr c = Cls (\<lambda>x. lower_char x = lower_char c)"
definition lit :: "str \<Rightarrow> rx" where "lit s = seqs (map chr s)"
definition ilit :: "str \<Rightarrow> rx" where "ilit s = seqs (map ichr s)"
definition plus :: "rx \<Rightarrow> rx" where "plus r = Seq r (Star r)"
definition opt :: "rx \<Rightarrow> rx" where "opt r = Alt r Eps"
definition sp :: rx where "sp = Cls py_isspace"
definition dig :: rx where "dig = Cls py_isdigit"
definition any_of :: "char list \<Rightarrow> rx" where "any_of cs = Cls (\<lambda>c. c \<in> set cs)"
definition none_of :: "char list \<Rightarrow> rx" where "none_of cs = Cls (\<lambda>c. c \<notin> set cs)"

lemmas rx_blocks = chr_def ichr_def lit_def ilit_def plus_def opt_def sp_def dig_def any_of_def none_of_def

subsection \<open>Searching\<close>

lemma search_from_append:
  "search_from r (if pre = [] then p else Some (last pre)) s \<Longrightarrow> search_from r p (pre @ s)"
proof (induction pre arbitrary: p)
  case Nil
  then show ?case by simp
next
  case (Cons c pre)
  then show ?case by (cases pre) auto
qed

lemma search_from_here: "ends r (p, s) \<noteq> [] \<Longrightarrow> search_from r p s"
  by (cases s) auto

text \<open>A pattern that can start after \<open>pre\<close> is found in \<open>pre @ s\<close>.\<close>

lemma rx_search_at:
  "ends r (if pre = [] then None else Some (last pre), s) \<noteq> [] \<Longrightarrow> rx_search r (pre @ s)"
  unfolding rx_search_def by (rule search_from_append) (rule search_from_here)

lemma ends_ilit:
  "w \<noteq> [] \<Longrightarrow> map lower_char u = map lower_char w \<Longrightarrow> ends (ilit w) (p, u @ s) = [(Some (last u), s)]"
proof (induction w arbitrary: u p rule: induct_list012)
  case 1
  then show ?case by simp
next
  case (2 x)
  then obtain y where "u = [y]" "lower_char y = lower_char x" by auto
  then show ?case by (simp add: ilit_def ichr_def)
next
  case (3 x y zs)
  then obtain a u' where u: "u = a # u'" "lower_char a = lower_char x"
    "map lower_char u' = map lower_char (y # zs)" by (cases u) auto
  then have "u' \<noteq> []" by auto
  with "3.IH"(2) [of u' "Some a"] u show ?case by (simp add: ilit_def ichr_def)
qed

lemma ends_Alt_left: "ends a pos \<noteq> [] \<Longrightarrow> ends (Alt a b) pos \<noteq> []"
  by simp

lemma ends_Alt_right: "ends b pos \<noteq> [] \<Longrightarrow> ends (Alt a b) pos \<noteq> []"
  by simp

lemma ends_alts: "r \<in> set rs \<Longrightarrow> q \<in> set (ends r pos) \<Longrightarrow> q \<in> set (ends (alts rs) pos)"
  by (induction rs rule: alts.induct) auto

end
