(* ===== verification/Verification.thy ===== *)
theory Verification
  imports Turn_State Py_Regex
begin

text \<open>
  \<open>forge/runtime/verification.py\<close>: evidence built from a tool result, and the classification of
  a verification command. A command counts as evidence of behaviour only if its exit status
  cannot be masked by the shell (\<open>has_unsafe_shell_chain\<close>), it does not assert failure
  (\<open>NEGATIVE\<close>) and some segment is no mere inspection (\<open>NON_TASK\<close>).
\<close>

subsection \<open>Evidence from a tool result\<close>

text \<open>
  Metadata values convert as in \<open>Json\<close>: \<open>pr\<close> is \<open>str\<close> on values that are no strings, \<open>fl\<close> is
  \<open>float\<close> on strings.
\<close>

definition strs_of :: "(json \<Rightarrow> str) \<Rightarrow> jdict \<Rightarrow> str \<Rightarrow> str list option" where
  "strs_of pr m k = (case dict_get m k of None \<Rightarrow> Some []
     | Some v \<Rightarrow> map_option (map (str_of pr)) (iter_of v))"

definition nonblank_strs :: "(json \<Rightarrow> str) \<Rightarrow> jdict \<Rightarrow> str \<Rightarrow> str list option" where
  "nonblank_strs pr m k = map_option (filter (\<lambda>s. py_strip s \<noteq> [])) (strs_of pr m k)"

definition dicts_of :: "jdict \<Rightarrow> str \<Rightarrow> jdict list option" where
  "dicts_of m k = (case dict_get m k of None \<Rightarrow> Some []
     | Some v \<Rightarrow> Option.bind (iter_of v) (\<lambda>vs. those (map json_obj_opt vs)))"

definition text_of :: "(json \<Rightarrow> str) \<Rightarrow> jdict \<Rightarrow> str \<Rightarrow> str" where
  "text_of pr m k = (case dict_get m k of None \<Rightarrow> [] | Some v \<Rightarrow> str_of pr v)"

text \<open>
  \<open>verification_from_result\<close>: no evidence unless the tool marked its result, and none when a
  required field is missing or does not convert. The output checks are objects, as the verify
  tool's schema makes them.
\<close>

definition verification_from_result ::
  "(json \<Rightarrow> str) \<Rightarrow> (str \<Rightarrow> pyfloat option) \<Rightarrow> tool_result \<Rightarrow> int option \<Rightarrow> int option \<Rightarrow> evidence option" where
  "verification_from_result pr fl result revision epoch =
     (let m = tr_metadata result in
      if dict_get m ''verification'' \<noteq> Some (JBool True) then None
      else
        Option.bind (dict_get m ''command'') (\<lambda>command.
        Option.bind (dict_get m ''cwd'') (\<lambda>cwd.
        Option.bind (Option.bind (dict_get m ''exit_code'') int_of) (\<lambda>exit_code.
        Option.bind (Option.bind (dict_get m ''duration_seconds'') (float_of fl)) (\<lambda>duration.
        Option.bind (dict_get m ''timed_out'') (\<lambda>timed_out.
        Option.bind (case revision of Some r \<Rightarrow> Some r
            | None \<Rightarrow> Option.bind (dict_get m ''workspace_revision'') int_of) (\<lambda>rev.
        Option.bind (case epoch of Some e \<Rightarrow> Some e
            | None \<Rightarrow> (case dict_get m ''environment_epoch'' of None \<Rightarrow> Some 0 | Some v \<Rightarrow> int_of v)) (\<lambda>ep.
        Option.bind (nonblank_strs pr m ''covers'') (\<lambda>covers.
        Option.bind (nonblank_strs pr m ''limitations'') (\<lambda>limitations.
        Option.bind (strs_of pr m ''evidence_issues'') (\<lambda>issues.
        Option.bind (strs_of pr m ''requirement_ids'') (\<lambda>reqs.
        Option.bind (strs_of pr m ''asserted_requirement_ids'') (\<lambda>asserted.
        Option.bind (dicts_of m ''output_checks'') (\<lambda>checks.
        Option.bind (strs_of pr m ''supersedes'') (\<lambda>supersedes.
        Option.bind (case dict_get m ''check_spec'' of None \<Rightarrow> Some [] | Some v \<Rightarrow> json_obj_opt v) (\<lambda>spec.
        Some \<lparr>ev_command = str_of pr command, ev_cwd = str_of pr cwd, ev_exit_code = exit_code,
          ev_duration = duration, ev_timed_out = json_truthy timed_out, ev_revision = rev,
          ev_diagnostic = slice_last 8000 (tr_content result), ev_epoch = ep,
          ev_coverage = covers, ev_limitations = limitations,
          ev_stdin_sha256 = text_of pr m ''stdin_sha256'',
          ev_valid = (case dict_get m ''evidence_valid'' of None \<Rightarrow> True | Some v \<Rightarrow> json_truthy v),
          ev_issues = issues, ev_check_signature = text_of pr m ''check_signature'',
          ev_requirement_ids = reqs, ev_asserted_ids = asserted,
          ev_verification_id = text_of pr m ''verification_id'', ev_output_checks = checks,
          ev_supersedes = supersedes, ev_revision_reason = text_of pr m ''revision_reason'',
          ev_task_id = [], ev_turn_id = [], ev_freshness = Current,
          ev_check_id = text_of pr m ''check_id'', ev_check_spec = spec\<rparr>))))))))))))))))"

subsection \<open>Patterns\<close>

definition exe :: rx where "exe = opt (ilit ''.exe'')"

definition NON_TASK_VERIFICATION :: rx where
  "NON_TASK_VERIFICATION = Seq TextStart (alts [
     seqs [ilit ''git'', plus sp, alts [ilit ''status'',
             Seq (ilit ''diff'') (opt (Seq (plus sp) (ilit ''--check''))), ilit ''log''], WordB],
     seqs [ilit ''python'', opt (Seq (plus dig) (opt (Seq (chr CHR ''.'') (plus dig)))), plus sp,
           ilit ''-m'', plus sp, alts [ilit ''py_compile'', ilit ''compileall''], WordB],
     seqs [alts [
        seqs [ilit ''node'', exe, plus sp, alts [ilit ''--check'', ilit ''-c'']],
        seqs [alts [ilit ''bash'', ilit ''sh'', ilit ''zsh''], exe, plus sp, ilit ''-n''],
        seqs [ilit ''ruby'', exe, plus sp, ilit ''-c''],
        seqs [ilit ''perl'', exe, plus sp, ilit ''-c''],
        seqs [ilit ''php'', exe, plus sp, ilit ''-l'']], WordB],
     seqs [alts [
        seqs [ilit ''test'', plus sp, ilit ''-'', alts [ilit ''e'', ilit ''f'', ilit ''d'']],
        ilit ''find'', ilit ''ls'', ilit ''dir'', ilit ''cat'', ilit ''type'', ilit ''head'',
        ilit ''tail'', ilit ''wc'', ilit ''stat''], WordB],
     seqs [alts [ilit ''echo'', ilit ''printf'', ilit ''pwd'', ilit ''true'', ilit '':''], WordB]])"

definition NEGATIVE_VERIFICATION :: rx where
  "NEGATIVE_VERIFICATION = alts [
     seqs [WordB, ilit ''set'', Star sp, ilit ''+e'', WordB],
     seqs [WordB, alts [ilit ''status'', ilit ''rc'', ilit ''code'', ilit ''exit_code''], Star sp,
           chr CHR ''='', Star sp, lit ''$?'', WordB],
     seqs [WordB, ilit ''test'', plus sp, Star (none_of [CHR '';'', CHR ''&'', CHR ''|'', NL]), plus sp,
           alts [ilit ''-ne'', lit ''!='', seqs [ilit ''not'', plus sp, ilit ''equal'']], plus sp, lit ''0'', WordB],
     seqs [WordB, ilit ''assert'', plus sp, Star (none_of [CHR '';'', CHR ''&'', CHR ''|'', NL]),
           alts [lit ''!='', seqs [ilit ''is'', plus sp, ilit ''not'']], plus sp, lit ''0'', WordB],
     seqs [Alt TextStart (any_of [CHR '';'', CHR ''&'', CHR ''|'']), Star sp, ilit ''true'', Star sp, TextEnd]]"

definition SEGMENT_SEPARATOR :: rx where
  "SEGMENT_SEPARATOR = seqs [Star sp,
     alts [lit ''&&'', lit ''||'', any_of [CHR '';'', CHR ''|'']], Star sp]"

subsection \<open>Command names\<close>

definition last_component :: "str \<Rightarrow> str" where
  "last_component s = last (split_char CHR ''/'' s)"

definition strip_exe :: "str \<Rightarrow> str" where
  "strip_exe name = (if endswith (py_lower name) ''.exe'' then take (length name - 4) name else name)"

text \<open>
  The executable of \<open>_command_basename\<close> and the rest of the command: a quoted name that is not
  empty and is closed, else the leading run of non-space characters; \<open>None\<close> when there is
  neither.
\<close>

definition quoted_name :: "char \<Rightarrow> str \<Rightarrow> (str \<times> str) option" where
  "quoted_name q s =
     (case s of [] \<Rightarrow> None
      | c # r \<Rightarrow>
         (let name = takeWhile (\<lambda>x. x \<noteq> q) r; rest = dropWhile (\<lambda>x. x \<noteq> q) r
          in if c = q \<and> name \<noteq> [] \<and> rest \<noteq> [] then Some (name, tl rest) else None))"

definition bare_name :: "str \<Rightarrow> (str \<times> str) option" where
  "bare_name s = (let name = takeWhile (\<lambda>c. \<not> py_isspace c) s in
     if name = [] then None else Some (name, dropWhile (\<lambda>c. \<not> py_isspace c) s))"

definition split_executable :: "str \<Rightarrow> (str \<times> str) option" where
  "split_executable s = (case quoted_name DQ s of Some r \<Rightarrow> Some r
     | None \<Rightarrow> (case quoted_name SQ s of Some r \<Rightarrow> Some r | None \<Rightarrow> bare_name s))"

definition command_basename :: "str \<Rightarrow> str" where
  "command_basename command = (case split_executable command of
     None \<Rightarrow> command
   | Some (executable, rest) \<Rightarrow> strip_exe (last_component (slashes executable)) @ rest)"

subsection \<open>Classification\<close>

datatype command_kind = Structural | Behavior

datatype quality = QStructural | QBehavior | QNegative | QUnknown

definition verification_kind :: "str \<Rightarrow> command_kind" where
  "verification_kind command =
     (if list_ex (\<lambda>segment. segment \<noteq> [] \<and>
            \<not> rx_match NON_TASK_VERIFICATION (command_basename (py_strip segment)))
          (rx_split SEGMENT_SEPARATOR (py_strip command))
      then Behavior else Structural)"

definition kind_quality :: "command_kind \<Rightarrow> quality" where
  "kind_quality k = (case k of Structural \<Rightarrow> QStructural | Behavior \<Rightarrow> QBehavior)"

text \<open>The scan outside quotes: the open quote, whether the last character was a backslash.\<close>

fun scan_chain :: "char option \<Rightarrow> bool \<Rightarrow> str \<Rightarrow> bool" where
  "scan_chain quote escaped [] = False"
| "scan_chain quote True (c # s) = scan_chain quote False s"
| "scan_chain quote False (c # s) =
     (if c = BSL \<and> quote \<noteq> Some SQ then scan_chain quote True s
      else (case quote of
          Some q \<Rightarrow> scan_chain (if c = q then None else Some q) False s
        | None \<Rightarrow>
           (if is_quote c then scan_chain (Some c) False s
            else if c \<in> {CHR '';'', NL, CR, CHR ''|''} \<or> (c = CHR ''&'' \<and> \<not> startswith s ''&'') then True
            else (case s of
                d # s' \<Rightarrow> (if c = CHR ''&'' \<and> d = CHR ''&'' then scan_chain None False s' else scan_chain None False s)
              | [] \<Rightarrow> False))))"

definition SHELLS :: "str list" where
  "SHELLS = [''sh'', ''bash'', ''zsh'', ''dash'', ''cmd'', ''cmd.exe'', ''powershell'', ''powershell.exe'',
     ''pwsh'', ''pwsh.exe'']"

definition COMMAND_FLAGS :: "str list" where
  "COMMAND_FLAGS = [''-c'', ''/c'', ''-command'']"

text \<open>What follows the first command flag that is not the last word.\<close>

fun nested_args :: "str list \<Rightarrow> str list option" where
  "nested_args [] = None"
| "nested_args (w # ws) = (if py_lower w \<in> set COMMAND_FLAGS \<and> ws \<noteq> [] then Some ws else nested_args ws)"

definition shell_argument :: "str list \<Rightarrow> str option" where
  "shell_argument words = (case words of [] \<Rightarrow> None
     | w # ws \<Rightarrow> (if py_lower (last_component (slashes w)) \<in> set SHELLS
          then map_option (py_join '' '') (nested_args ws) else None))"

lemma visible_join: "visible (py_join '' '' ws) = visible (concat ws)"
  by (induction "'' ''" ws rule: py_join.induct) simp_all

lemma visible_zero: "visible w = 0 \<Longrightarrow> py_lower w = w"
  by (induction w) (auto simp: py_lower_def lower_char_def less_eq_char_def split: if_splits)

lemma flag_visible: "py_lower w \<in> set COMMAND_FLAGS \<Longrightarrow> 0 < visible w"
  by (rule ccontr) (use visible_zero [of w] in \<open>auto simp: COMMAND_FLAGS_def\<close>)

lemma nested_args_visible: "nested_args ws = Some vs \<Longrightarrow> visible (concat vs) < visible (concat ws)"
  by (induction ws) (auto split: if_splits dest: flag_visible)

lemma shell_argument_visible:
  assumes "shlex_split command = Some words" "shell_argument words = Some arg"
  shows "visible arg < visible command"
proof -
  have "visible (concat words) \<le> visible command"
    using lex_visible [OF assms(1) [unfolded shlex_split_def]] by (simp add: pending_def)
  moreover have "visible arg < visible (concat words)"
    using assms(2) nested_args_visible
    by (fastforce simp: shell_argument_def visible_join split: list.splits if_splits)
  ultimately show ?thesis by simp
qed

function has_unsafe_shell_chain :: "str \<Rightarrow> bool" where
  "has_unsafe_shell_chain command =
     (case shlex_split command of
        None \<Rightarrow> True
      | Some words \<Rightarrow>
          (case shell_argument words of
             Some arg \<Rightarrow> has_unsafe_shell_chain arg
           | None \<Rightarrow> False)
          \<or> scan_chain None False command)"
  by pat_completeness auto
termination
  by (relation "measure visible") (auto dest: shell_argument_visible)

declare has_unsafe_shell_chain.simps [simp del]

text \<open>A quoted Python heredoc: header, identifier as closing line, none of it in the body.\<close>

definition heredoc_start :: "str \<Rightarrow> str option" where
  "heredoc_start l =
     (if \<not> startswith l ''python'' then None
      else (let r = drop 6 l;
                r = (if startswith r ''3'' then
                       (let t = tl r; ds = takeWhile py_isdigit (drop 1 t) in
                        if startswith t ''.'' \<and> ds \<noteq> [] then drop (1 + length ds) t else t)
                     else r)
            in if startswith r '' -'' then Some (drop 2 r) else None))"

definition heredoc_delimiter :: "str \<Rightarrow> str option" where
  "heredoc_delimiter l = Option.bind (heredoc_start l) (\<lambda>r.
     (let r = py_lstrip r in
      if \<not> startswith r ''<<'' then None
      else (let r = py_lstrip (drop 2 r) in
        (case r of
           [] \<Rightarrow> None
         | q # r' \<Rightarrow>
            (let ident = takeWhile (\<lambda>c. py_isalpha_ascii c \<or> py_isdigit c \<or> c = CHR ''_'') r'
             in if is_quote q \<and> ident \<noteq> [] \<and> \<not> py_isdigit (hd ident) \<and> r' = ident @ [q]
                then Some ident else None)))))"

definition is_python_heredoc :: "str \<Rightarrow> bool" where
  "is_python_heredoc command =
     (let lines = splitlines (py_strip command) in
      3 \<le> length lines
      \<and> (case heredoc_delimiter (hd lines) of
           None \<Rightarrow> False
         | Some d \<Rightarrow> last lines = d \<and> d \<notin> set (butlast (tl lines))))"

definition verification_quality :: "str \<Rightarrow> quality" where
  "verification_quality command =
     (if is_python_heredoc command then QBehavior
      else if rx_search NEGATIVE_VERIFICATION command then QNegative
      else if has_unsafe_shell_chain command then QUnknown
      else kind_quality (verification_kind command))"

definition is_task_verification_command :: "str \<Rightarrow> bool" where
  "is_task_verification_command command \<longleftrightarrow> verification_quality command = QBehavior"

definition is_positive_verification_command :: "str \<Rightarrow> bool" where
  "is_positive_verification_command command \<longleftrightarrow> verification_quality command = QBehavior"

subsection \<open>Masked exit codes are never positive evidence\<close>

definition inert :: "char \<Rightarrow> bool" where
  "inert c \<longleftrightarrow> c \<noteq> BSL \<and> \<not> is_quote c \<and> c \<noteq> CHR ''&''"

lemma scan_chain_step:
  "inert c \<Longrightarrow> scan_chain None False (c # s) \<longleftrightarrow> c \<in> {CHR '';'', NL, CR, CHR ''|''} \<or> scan_chain None False s"
  by (cases s) (auto simp: inert_def)

lemma unsafe_of_scan: "scan_chain None False c \<Longrightarrow> has_unsafe_shell_chain c"
  by (simp add: has_unsafe_shell_chain.simps [of c] split: option.splits)

lemma unsafe_of_nested:
  "shlex_split c = Some words \<Longrightarrow> shell_argument words = Some arg \<Longrightarrow> has_unsafe_shell_chain arg \<Longrightarrow>
     has_unsafe_shell_chain c"
  by (simp add: has_unsafe_shell_chain.simps [of c])

text \<open>The scan skips a quoted string, whatever it contains.\<close>

lemma scan_chain_single_quoted:
  "SQ \<notin> set body \<Longrightarrow> scan_chain (Some SQ) False (body @ SQ # s) = scan_chain None False s"
  by (induction body) auto

text \<open>
  What may stand before an operator of the shell that is outside quotes: plain characters, escaped
  characters, \<open>&&\<close>, closed single-quoted strings (no escapes inside) and closed double-quoted
  strings (a backslash escapes the next character).
\<close>

inductive double_quotable :: "str \<Rightarrow> bool" where
  Nothing: "double_quotable []"
| Literal: "c \<noteq> DQ \<Longrightarrow> c \<noteq> BSL \<Longrightarrow> double_quotable b \<Longrightarrow> double_quotable (c # b)"
| Backslash: "double_quotable b \<Longrightarrow> double_quotable (BSL # c # b)"

inductive quotes_closed :: "str \<Rightarrow> bool" where
  Start: "quotes_closed []"
| Plain: "inert c \<Longrightarrow> quotes_closed p \<Longrightarrow> quotes_closed (c # p)"
| Escaped: "quotes_closed p \<Longrightarrow> quotes_closed (BSL # c # p)"
| AndAnd: "quotes_closed p \<Longrightarrow> quotes_closed (CHR ''&'' # CHR ''&'' # p)"
| Single: "SQ \<notin> set b \<Longrightarrow> quotes_closed p \<Longrightarrow> quotes_closed (SQ # b @ SQ # p)"
| Double: "double_quotable b \<Longrightarrow> quotes_closed p \<Longrightarrow> quotes_closed (DQ # b @ DQ # p)"

definition operator :: "char \<Rightarrow> str \<Rightarrow> bool" where
  "operator c post \<longleftrightarrow> c \<in> {CHR '';'', NL, CR, CHR ''|''} \<or> (c = CHR ''&'' \<and> \<not> startswith post ''&'')"

lemma scan_chain_double_quoted:
  "double_quotable b \<Longrightarrow> scan_chain (Some DQ) False (b @ DQ # s) = scan_chain None False s"
  by (induction rule: double_quotable.induct) auto

lemma scan_chain_operator: "operator c post \<Longrightarrow> scan_chain None False (c # post)"
  by (auto simp: operator_def is_quote_def)

lemma scan_chain_quoted:
  "q = SQ \<or> q = DQ \<Longrightarrow> scan_chain None False (q # s) = scan_chain (Some q) False s"
  by (auto simp: is_quote_def)

lemma scan_chain_escaped: "scan_chain None False (BSL # c # s) = scan_chain None False s"
  by simp

lemma scan_chain_and_and: "scan_chain None False (CHR ''&'' # CHR ''&'' # s) = scan_chain None False s"
  by (simp add: is_quote_def)

lemma scan_chain_closed:
  "quotes_closed p \<Longrightarrow> scan_chain None False s \<Longrightarrow> scan_chain None False (p @ s)"
  by (induction rule: quotes_closed.induct)
    (simp_all add: scan_chain_step scan_chain_quoted scan_chain_single_quoted scan_chain_double_quoted
       scan_chain_escaped scan_chain_and_and del: scan_chain.simps)

lemma unsafe_of_operator:
  "quotes_closed pre \<Longrightarrow> operator c post \<Longrightarrow> has_unsafe_shell_chain (pre @ c # post)"
  by (intro unsafe_of_scan scan_chain_closed scan_chain_operator)

lemma quality_behavior_cases:
  "verification_quality c = QBehavior \<Longrightarrow> is_python_heredoc c \<or>
     (\<not> has_unsafe_shell_chain c \<and> \<not> rx_search NEGATIVE_VERIFICATION c \<and> verification_kind c = Behavior)"
  by (auto simp: verification_quality_def kind_quality_def split: if_splits command_kind.splits)

end
