(* ===== verification/Check_Contracts.thy ===== *)
theory Check_Contracts
  imports Verification
begin

text \<open>
  \<open>forge/runtime/check_contracts.py\<close>: when does one verification discharge the failure of
  another? A failure stays an obligation until the same check succeeds, or until an explicit
  checker repair succeeds that keeps every recorded assertion. The JSON text of an assertion
  contract is represented by the JSON value it prints (keys in sorted order), which it
  determines. Paths are POSIX paths, so \<open>os.path.normcase\<close> is the identity. Rewriting the arguments of
  a verification (\<open>inherit_check_arguments\<close>, \<open>resolve_stored_check\<close>) is left out.
\<close>

subsection \<open>Contracts and keys\<close>

definition tolerance_of :: "jdict \<Rightarrow> json" where
  "tolerance_of check = (case dict_get check ''tolerance'' of None \<Rightarrow> JFloat 0
     | Some v \<Rightarrow> (case float_of (\<lambda>_. None) v of Some q \<Rightarrow> JFloat q | None \<Rightarrow> v))"

definition assertion_contract :: "jdict \<Rightarrow> json" where
  "assertion_contract check =
     (let delta = (jget check ''operator'' = JStr ''delta_eq'') in
      JObj ([(''expected'', jget check ''expected''), (''key'', jget check ''key''),
             (''operator'', jget check ''operator'')]
        @ (if delta then [(''reference_key'', jget check ''reference_key'')] else [])
        @ [(''requirement_id'', jget check ''requirement_id''),
           (''source'', if json_truthy (jget check ''source_ref'')
              then JList [JStr ''reference'', jget check ''source_ref'']
              else JList [JStr ''legacy_text'', jget check ''expected_source''])]
        @ (if delta then [(''tolerance'', tolerance_of check)] else [])))"

definition contracts :: "jdict list \<Rightarrow> json set" where
  "contracts checks = set (map assertion_contract checks)"

definition verification_command_key :: "str \<Rightarrow> str \<Rightarrow> str" where
  "verification_command_key command cwd =
     (let c = slashes (py_strip cwd) in (if c = [] then ''.'' else c) @ [CHR 0x00] @ py_strip command)"

definition verification_obligation_key :: "evidence \<Rightarrow> str" where
  "verification_obligation_key e =
     py_join [CHR 0x00] [verification_command_key (ev_command e) (ev_cwd e), ev_stdin_sha256 e, ev_check_signature e]"

definition checker_revision_covers :: "evidence \<Rightarrow> evidence \<Rightarrow> bool" where
  "checker_revision_covers old new =
     (if \<not> (ev_success new \<and> ev_verification_id old \<noteq> [] \<and> ev_verification_id old \<in> set (ev_supersedes new)
             \<and> py_strip (ev_revision_reason new) \<noteq> [] \<and> ev_cwd old = ev_cwd new) then False
      else if ev_output_checks old = [] then
        verification_command_key (ev_command old) (ev_cwd old) = verification_command_key (ev_command new) (ev_cwd new)
        \<and> ev_stdin_sha256 old = ev_stdin_sha256 new
        \<and> set (ev_requirement_ids old) \<subseteq> set (ev_requirement_ids new)
      else if \<not> set (ev_requirement_ids old) \<subseteq> set (ev_asserted_ids new) then False
      else contracts (ev_output_checks old) \<subseteq> contracts (ev_output_checks new))"

subsection \<open>Unresolved failures\<close>

text \<open>
  The loop over the evidence, with the dictionary from obligation keys to failures. It is
  stated over any representation of the items (\<open>proj\<close> gives the evidence), because the
  delivery report runs it on items it tells apart by identity.
\<close>

definition resolve_step :: "('a \<Rightarrow> evidence) \<Rightarrow> 'a \<Rightarrow> (str, 'a) dict \<Rightarrow> (str, 'a) dict" where
  "resolve_step proj item unresolved =
     (let key = verification_obligation_key (proj item) in
      if ev_success (proj item) then
        (let u = dict_pop unresolved key in
         fold (\<lambda>k d. dict_pop d k)
           (map fst (filter (\<lambda>kv. checker_revision_covers (proj (snd kv)) (proj item)) u)) u)
      else dict_set unresolved key item)"

definition unresolved_dict :: "('a \<Rightarrow> evidence) \<Rightarrow> 'a list \<Rightarrow> (str, 'a) dict" where
  "unresolved_dict proj items = fold (resolve_step proj) items []"

definition unresolved_verification_failures :: "evidence list \<Rightarrow> evidence list" where
  "unresolved_verification_failures items = dict_values (unresolved_dict (\<lambda>e. e) items)"

subsection \<open>Guidance\<close>

definition checker_repair_guidance :: "evidence \<Rightarrow> str" where
  "checker_repair_guidance item =
     (if ev_output_checks item \<noteq> [] \<and> ev_check_spec item \<noteq> [] then
        ''Use verify.check_id='' @ [DQ] @ (if ev_check_id item \<noteq> [] then ev_check_id item else ev_verification_id item)
        @ [DQ] @ '' with the corrected command and revision_reason. Omit output_checks and cwd: the original assertions, requirements and working directory are inherited automatically. Changing thresholds is not a checker repair.''
      else if ev_output_checks item \<noteq> [] then
        ''Use verify.inherit_checks_from with this verification ID and revision_reason; omit rewritten old output_checks. Original assertions and cwd must be preserved.''
      else
        ''This check has no recorded output assertions. Rerun its exact command, stdin and cwd (or its stored check_id); repair a referenced checker file if needed. inherit_checks_from supports only that unchanged invocation and optional added assertions. Changing an inline checker cannot automatically discharge this obligation: its original behavioral requirements remain unverified.'')"

subsection \<open>The obligations that remain\<close>

definition discharges :: "evidence \<Rightarrow> evidence \<Rightarrow> bool" where
  "discharges new old \<longleftrightarrow> ev_success new \<and>
     (verification_obligation_key new = verification_obligation_key old \<or> checker_revision_covers old new)"

text \<open>The specification: a failure later than which nothing discharges or repeats it.\<close>

definition outstanding :: "evidence list \<Rightarrow> evidence \<Rightarrow> bool" where
  "outstanding items f \<longleftrightarrow> (\<exists>xs ys. items = xs @ f # ys \<and> \<not> ev_success f \<and>
     (\<forall>s\<in>set ys. \<not> discharges s f) \<and>
     (\<forall>g\<in>set ys. \<not> ev_success g \<longrightarrow> verification_obligation_key g \<noteq> verification_obligation_key f))"

lemma resolve_step_lookup:
  assumes "dict_wf d"
  shows "dict_get (resolve_step proj x d) k =
    (if ev_success (proj x) then
       (if k = verification_obligation_key (proj x) then None
        else case dict_get d k of None \<Rightarrow> None
          | Some f \<Rightarrow> if checker_revision_covers (proj f) (proj x) then None else Some f)
     else if k = verification_obligation_key (proj x) then Some x else dict_get d k)"
proof (cases "ev_success (proj x)")
  case False
  then show ?thesis by (simp add: resolve_step_def dict_get_set)
next
  case True
  let ?u = "dict_pop d (verification_obligation_key (proj x))"
  let ?ks = "map fst (filter (\<lambda>kv. checker_revision_covers (proj (snd kv)) (proj x)) ?u)"
  have wf: "dict_wf ?u" using assms by (rule dict_wf_pop)
  have "k \<in> set ?ks \<longleftrightarrow> (\<exists>f. dict_get ?u k = Some f \<and> checker_revision_covers (proj f) (proj x))"
    by (force simp: dict_get_Some_iff [OF wf])
  then show ?thesis
    using True by (auto simp: resolve_step_def Let_def dict.remove_fold_lookup dict_get_pop split: option.splits)
qed

lemma resolve_step_wf: "dict_wf d \<Longrightarrow> dict_wf (resolve_step proj x d)"
  by (auto simp: resolve_step_def Let_def intro!: dict.wf_remove_fold dict_wf_set dict_wf_pop)

lemma unresolved_dict_snoc: "unresolved_dict proj (xs @ [x]) = resolve_step proj x (unresolved_dict proj xs)"
  by (simp add: unresolved_dict_def)

lemma unresolved_dict_wf: "dict_wf (unresolved_dict proj xs)"
  by (induction xs rule: rev_induct) (simp_all add: unresolved_dict_snoc resolve_step_wf, simp add: unresolved_dict_def)

lemma unresolved_dict_key:
  "dict_get (unresolved_dict proj xs) k = Some f \<Longrightarrow>
     f \<in> set xs \<and> \<not> ev_success (proj f) \<and> verification_obligation_key (proj f) = k"
proof (induction xs arbitrary: f rule: rev_induct)
  case Nil
  then show ?case by (simp add: unresolved_dict_def)
next
  case (snoc x xs)
  then show ?case
    by (auto simp: unresolved_dict_snoc resolve_step_lookup [OF unresolved_dict_wf]
        split: if_splits option.splits)
qed

lemma outstanding_Nil: "\<not> outstanding [] f"
  by (simp add: outstanding_def)

lemma outstanding_snoc:
  "outstanding (xs @ [x]) f \<longleftrightarrow>
     (f = x \<and> \<not> ev_success x) \<or>
     (outstanding xs f \<and> \<not> discharges x f \<and>
      (ev_success x \<or> verification_obligation_key x \<noteq> verification_obligation_key f))"
  (is "?L \<longleftrightarrow> ?A \<or> ?B")
proof
  assume ?L
  then obtain ps ys where split: "xs @ [x] = ps @ f # ys" and f: "\<not> ev_success f"
    and ys: "\<forall>s\<in>set ys. \<not> discharges s f"
      "\<forall>g\<in>set ys. \<not> ev_success g \<longrightarrow> verification_obligation_key g \<noteq> verification_obligation_key f"
    unfolding outstanding_def by blast
  show "?A \<or> ?B"
  proof (cases ys rule: rev_cases)
    case Nil
    with split f show ?thesis by simp
  next
    case (snoc zs z)
    with split have "xs = ps @ f # zs" "z = x" by simp_all
    with f ys snoc have ?B unfolding outstanding_def by auto
    then show ?thesis ..
  qed
next
  assume "?A \<or> ?B"
  then show ?L
  proof
    assume ?A
    then show ?L unfolding outstanding_def by (intro exI [of _ xs] exI [of _ "[]"]) simp
  next
    assume ?B
    then obtain ps ys where "xs = ps @ f # ys" "\<not> ev_success f" "\<forall>s\<in>set ys. \<not> discharges s f"
      "\<forall>g\<in>set ys. \<not> ev_success g \<longrightarrow> verification_obligation_key g \<noteq> verification_obligation_key f"
      "\<not> discharges x f" "ev_success x \<or> verification_obligation_key x \<noteq> verification_obligation_key f"
      unfolding outstanding_def by blast
    then show ?L unfolding outstanding_def by (intro exI [of _ ps] exI [of _ "ys @ [x]"]) auto
  qed
qed

lemma unresolved_dict_outstanding:
  "dict_get (unresolved_dict (\<lambda>e. e) xs) (verification_obligation_key f) = Some f \<longleftrightarrow> outstanding xs f"
proof (induction xs rule: rev_induct)
  case Nil
  show ?case by (simp add: unresolved_dict_def outstanding_Nil)
next
  case (snoc x xs)
  show ?case
    using snoc unresolved_dict_key [of "\<lambda>e. e" xs "verification_obligation_key f"]
    by (auto simp: unresolved_dict_snoc resolve_step_lookup [OF unresolved_dict_wf] outstanding_snoc
        discharges_def split: option.splits)
qed

lemma unresolved_iff_outstanding:
  "f \<in> set (unresolved_verification_failures xs) \<longleftrightarrow> outstanding xs f"
proof -
  have "f \<in> set (unresolved_verification_failures xs) \<longleftrightarrow> (\<exists>k. dict_get (unresolved_dict (\<lambda>e. e) xs) k = Some f)"
    unfolding unresolved_verification_failures_def by (rule dict_values_iff [OF unresolved_dict_wf])
  also have "\<dots> \<longleftrightarrow> dict_get (unresolved_dict (\<lambda>e. e) xs) (verification_obligation_key f) = Some f"
    using unresolved_dict_key [of "\<lambda>e. e" xs _ f] by auto
  finally show ?thesis by (simp add: unresolved_dict_outstanding)
qed

end
