(* ===== verification/Delivery.thy ===== *)
theory Delivery
  imports Check_Contracts
begin

text \<open>
  \<open>forge/runtime/delivery.py\<close>: the completion report and the per-requirement diagnostics. They
  are computed from the evidence ledger and never from what the agent says of itself. Python's
  \<open>id(item)\<close> is the position of the item in the ledger.
\<close>

subsection \<open>The completion report\<close>

type_synonym indexed_check = "nat \<times> evidence"

definition indexed :: "evidence list \<Rightarrow> indexed_check list" where
  "indexed items = zip [0..<length items] items"

definition check_key :: "evidence \<Rightarrow> str \<times> str \<times> str \<times> str" where
  "check_key e = (ev_command e, ev_cwd e, ev_stdin_sha256 e, ev_check_signature e)"

definition latest_step :: "nat set \<Rightarrow> indexed_check \<Rightarrow> (str \<times> str \<times> str \<times> str, indexed_check) dict \<Rightarrow>
     (str \<times> str \<times> str \<times> str, indexed_check) dict" where
  "latest_step current item latest =
     (let key = check_key (snd item) in
      case dict_get latest key of
        None \<Rightarrow> dict_set latest key item
      | Some prev \<Rightarrow> (if fst item \<in> current \<or> fst prev \<notin> current then dict_set latest key item else latest))"

definition ev_identity :: "evidence \<Rightarrow> str" where
  "ev_identity e = (if ev_verification_id e \<noteq> [] then ev_verification_id e else ev_command e)"

datatype bucket = Passed | Failed | Historical

definition check_bucket :: "nat set \<Rightarrow> nat set \<Rightarrow> indexed_check \<Rightarrow> bucket" where
  "check_bucket current unresolved item =
     (let is_current = fst item \<in> current;
          resolved = (\<not> ev_success (snd item) \<and> fst item \<notin> unresolved)
      in if \<not> is_current \<or> resolved then Historical
         else if ev_success (snd item) then Passed else Failed)"

definition completion_report ::
  "str \<Rightarrow> evidence list \<Rightarrow> int \<Rightarrow> int \<Rightarrow> str list \<Rightarrow> bool \<Rightarrow> str option \<Rightarrow> bool \<Rightarrow> report_data" where
  "completion_report status items revision epoch reasons has_contract assessment usage_complete =
     (let all = indexed items;
          current_items = filter (\<lambda>x. is_current revision epoch (snd x)) all;
          current = set (map fst current_items);
          unresolved = set (map fst (dict_values (unresolved_dict snd current_items)));
          latest = dict_values (fold (latest_step current) all []);
          ids = (\<lambda>b. map (\<lambda>x. ev_identity (snd x)) (filter (\<lambda>x. check_bucket current unresolved x = b) latest));
          passed = ids Passed; failed = ids Failed;
          verification = (if failed \<noteq> [] then ''failed_checks''
            else if passed \<noteq> [] then ''passed_checks'' else ''unverified'');
          acceptance = (if has_contract then (if reasons \<noteq> [] then ''unmet'' else ''met'') else ''not_configured'');
          acceptance = (if has_contract \<and> status \<noteq> ''completed'' \<and> reasons = [] then ''unknown'' else acceptance)
      in \<lparr>cr_run_status = (if status \<in> {''completed'', ''partial'', ''blocked''} then ''completed'' else ''failed''),
          cr_agent_assessment = (case assessment of None \<Rightarrow> status | Some a \<Rightarrow> (if a = [] then status else a)),
          cr_acceptance_status = acceptance, cr_verification_status = verification,
          cr_passed = passed, cr_failed = failed, cr_historical = ids Historical,
          cr_unmet = reasons, cr_usage_complete = usage_complete\<rparr>)"

subsection \<open>One requirement\<close>

type_synonym criterion = "(str, str) dict"

definition crit :: "criterion \<Rightarrow> str \<Rightarrow> str" where
  "crit c k = dict_get_or c k []"

record check_view =
  cv_verification_id :: str
  cv_check_id :: str
  cv_command_excerpt :: str
  cv_cwd :: str
  cv_current :: bool
  cv_success :: bool
  cv_quality :: quality
  cv_assertions :: "jdict list"
  cv_omitted :: int
  cv_limitations :: "str list"
  cv_issues :: "str list"
  cv_diagnostic :: str

record observation =
  ob_requirement_id :: str
  ob_source_quote :: str
  ob_condition :: str
  ob_intended_check :: str
  ob_state :: str
  ob_next_action :: str
  ob_checks :: "check_view list"

definition requirement_linked :: "str \<Rightarrow> evidence list \<Rightarrow> evidence list" where
  "requirement_linked ident items =
     filter (\<lambda>e. ident \<noteq> [] \<and> (ident \<in> set (ev_requirement_ids e) \<or> ident \<in> set (ev_asserted_ids e))) items"

definition requirement_asserted :: "str \<Rightarrow> evidence list \<Rightarrow> evidence list" where
  "requirement_asserted ident current =
     filter (\<lambda>e. ident \<in> set (ev_asserted_ids e) \<and> ev_check_signature e \<noteq> []) current"

definition requirement_state :: "str \<Rightarrow> evidence list \<Rightarrow> int \<Rightarrow> int \<Rightarrow> str \<times> str" where
  "requirement_state ident items revision epoch =
     (let linked = requirement_linked ident items;
          current = filter (is_current revision epoch) linked;
          asserted = requirement_asserted ident current
      in if list_ex (\<lambda>e. ev_success e \<and> verification_quality (ev_command e) = QBehavior) asserted then
           (''recorded_assertion_passed'', ''Check that the assertion measures the requested behavior against an independent source; execution success is not semantic proof.'')
         else if list_ex ev_success asserted then
           (''execution_contract_unestablished'', ''Assertions exist, but command exit semantics or check kind do not establish positive behavior. Run the substantive checker directly (for example python - with stdin), preserving its assertions.'')
         else if asserted \<noteq> [] then
           (''check_failed'', ''Inspect the recorded failure and distinguish a broken checker or environment from a wrong deliverable. Repair the cause and rerun check_id. For a checker correction, use inherit_checks_from and revision_reason without rewriting old assertions.'')
         else if linked \<noteq> [] \<and> current = [] then
           (''stale_evidence'', ''Rerun the stored check_id on the current workspace; old results are not current proof.'')
         else if current \<noteq> [] then
           (''assertion_binding_missing'', ''A check exists, but no executed output assertion is bound to this requirement with expected_source. Preserve actual measurements and bind the correct requirement ID.'')
         else
           (''unverified'', ''Run an independent check of the quoted requirement; use actual values, exact source identity or a behavioral comparison rather than output shape alone.''))"

definition clip_value :: "json \<Rightarrow> json" where
  "clip_value v = (case v of JStr s \<Rightarrow> JStr (take 500 s) | _ \<Rightarrow> v)"

definition check_view_of :: "str \<Rightarrow> evidence list \<Rightarrow> evidence \<Rightarrow> check_view" where
  "check_view_of ident current e =
     (let bound = filter (\<lambda>c. dict_get c ''requirement_id'' = Some (JStr ident)) (ev_output_checks e) in
      \<lparr>cv_verification_id = ev_verification_id e, cv_check_id = ev_check_id e,
       cv_command_excerpt = take 800 (ev_command e), cv_cwd = ev_cwd e, cv_current = (e \<in> set current),
       cv_success = ev_success e, cv_quality = verification_quality (ev_command e),
       cv_assertions = take 8 (map (map (\<lambda>kv. (fst kv, clip_value (snd kv)))) bound),
       cv_omitted = max 0 (int (length bound) - 8),
       cv_limitations = map (take 500) (take 5 (ev_limitations e)),
       cv_issues = map (take 500) (take 5 (ev_issues e)),
       cv_diagnostic = slice_last 1000 (ev_diagnostic e)\<rparr>)"

definition requirement_observation :: "criterion \<Rightarrow> evidence list \<Rightarrow> int \<Rightarrow> int \<Rightarrow> observation" where
  "requirement_observation c items revision epoch =
     (let ident = crit c ''id'';
          linked = requirement_linked ident items;
          current = filter (is_current revision epoch) linked;
          st = requirement_state ident items revision epoch
      in \<lparr>ob_requirement_id = ident, ob_source_quote = crit c ''source_quote'',
          ob_condition = crit c ''condition'', ob_intended_check = crit c ''check'',
          ob_state = fst st, ob_next_action = snd st,
          ob_checks = map (check_view_of ident current) (slice_last 3 linked)\<rparr>)"

definition requirement_reason :: "observation \<Rightarrow> str option" where
  "requirement_reason ob =
     (if ob_state ob = ''recorded_assertion_passed'' then None
      else Some (''Acceptance requirement '' @ (if ob_requirement_id ob \<noteq> [] then ob_requirement_id ob else ''legacy/unidentified'')
         @ '': '' @ ob_state ob @ ''. '' @ ob_source_quote ob @ ''. '' @ ob_next_action ob))"

subsection \<open>What a satisfied requirement and a passed check mean\<close>

text \<open>The evidence that satisfies a requirement.\<close>

definition proves :: "int \<Rightarrow> int \<Rightarrow> str \<Rightarrow> evidence \<Rightarrow> bool" where
  "proves revision epoch ident e \<longleftrightarrow> ident \<noteq> [] \<and> is_current revision epoch e \<and> ident \<in> set (ev_asserted_ids e)
     \<and> ev_check_signature e \<noteq> [] \<and> ev_success e \<and> verification_quality (ev_command e) = QBehavior"

lemma requirement_state_passed:
  "fst (requirement_state ident items r p) = ''recorded_assertion_passed'' \<longleftrightarrow> (\<exists>e\<in>set items. proves r p ident e)"
  by (auto simp: requirement_state_def Let_def proves_def requirement_linked_def requirement_asserted_def list_ex_iff)

lemma requirement_reason_None:
  "requirement_reason (requirement_observation c items r p) = None \<longleftrightarrow> (\<exists>e\<in>set items. proves r p (crit c ''id'') e)"
  by (simp add: requirement_reason_def requirement_observation_def Let_def requirement_state_passed)

lemma fold_latest_step_sub:
  "x \<in> set (dict_values (fold (latest_step cur) xs d)) \<Longrightarrow> x \<in> set xs \<union> set (dict_values d)"
proof (induction xs arbitrary: d)
  case Nil
  then show ?case by simp
next
  case (Cons y xs)
  from Cons.IH [of "latest_step cur y d"] Cons.prems
  have "x \<in> set xs \<union> set (dict_values (latest_step cur y d))" by simp
  moreover have "set (dict_values (latest_step cur y d)) \<subseteq> insert y (set (dict_values d))"
    using dict_values_set_subset [of d] by (auto simp: latest_step_def Let_def split: option.splits)
  ultimately show ?case by auto
qed

lemma indexed_snd: "x \<in> set (indexed items) \<Longrightarrow> snd x \<in> set items"
  by (cases x) (auto simp: indexed_def dest: set_zip_rightD)

lemma indexed_inj: "x \<in> set (indexed items) \<Longrightarrow> y \<in> set (indexed items) \<Longrightarrow> fst x = fst y \<Longrightarrow> x = y"
  by (auto simp: indexed_def in_set_zip intro: prod_eqI)

lemma check_bucket_Passed: "check_bucket cur unres x = Passed \<longleftrightarrow> fst x \<in> cur \<and> ev_success (snd x)"
  by (auto simp: check_bucket_def Let_def)

text \<open>Every check reported as passed is current, successful evidence of the ledger.\<close>

lemma report_passed_sound:
  assumes "i \<in> set (cr_passed (completion_report status items r p reasons hc a u))"
  shows "\<exists>e\<in>set items. ev_identity e = i \<and> is_current r p e \<and> ev_success e"
proof -
  let ?cur = "filter (\<lambda>x. is_current r p (snd x)) (indexed items)"
  let ?latest = "dict_values (fold (latest_step (set (map fst ?cur))) (indexed items) [])"
  have "cr_passed (completion_report status items r p reasons hc a u)
      = map (\<lambda>x. ev_identity (snd x)) (filter (\<lambda>x. fst x \<in> set (map fst ?cur) \<and> ev_success (snd x)) ?latest)"
    by (simp only: completion_report_def Let_def report_data.simps check_bucket_Passed)
  with assms obtain x where x: "x \<in> set ?latest" "ev_identity (snd x) = i" "fst x \<in> set (map fst ?cur)"
    "ev_success (snd x)"
    by auto
  then have mem: "x \<in> set (indexed items)"
    using fold_latest_step_sub [OF x(1)] by (simp add: dict_values_def)
  obtain y where "y \<in> set (indexed items)" "is_current r p (snd y)" "fst x = fst y"
    using x(3) by auto
  with mem indexed_inj [of x items y] have "is_current r p (snd x)" by simp
  with x mem show ?thesis using indexed_snd by blast
qed

end
