(* ===== verification/Completion.thy ===== *)
theory Completion
  imports Delivery
begin

text \<open>
  \<open>forge/runtime/completion.py\<close>: the gate a final answer has to pass. \<open>evaluate\<close> collects
  reasons to refuse; the answer is allowed when there is none. The file system, Git and
  caller-supplied regular expressions are the record \<open>gate_world\<close>: what the code asks of them
  and nothing else.
\<close>

record task_policy =
  po_require_changes :: bool
  po_require_verification :: bool
  po_require_task_verification :: bool
  po_require_positive :: bool
  po_require_coverage :: bool
  po_require_reconciliation :: bool
  po_require_diff_check :: bool
  po_max_delivery_repairs :: int
  po_allowed_paths :: "str list"
  po_required_paths :: "str list"
  po_required_commands :: "str list"
  po_required_hashes :: "(str \<times> str) list"
  po_required_coverage :: "str list"
  po_forbidden_output :: "str list"
  po_forbidden_paths :: "str list"

definition default_forbidden :: "str list" where
  "default_forbidden = [''tests/hidden/**'', ''**/tests/hidden/**'']"

definition default_policy :: task_policy where
  "default_policy = \<lparr>po_require_changes = False, po_require_verification = False,
     po_require_task_verification = False, po_require_positive = False, po_require_coverage = False,
     po_require_reconciliation = False, po_require_diff_check = False, po_max_delivery_repairs = 0,
     po_allowed_paths = [], po_required_paths = [], po_required_commands = [], po_required_hashes = [],
     po_required_coverage = [], po_forbidden_output = [], po_forbidden_paths = default_forbidden\<rparr>"

definition has_contract :: "task_policy \<Rightarrow> bool" where
  "has_contract po \<longleftrightarrow> po_require_changes po \<or> po_require_verification po \<or> po_require_task_verification po
     \<or> po_require_positive po \<or> po_require_coverage po \<or> po_require_reconciliation po
     \<or> po_require_diff_check po \<or> po_allowed_paths po \<noteq> [] \<or> po_required_paths po \<noteq> []
     \<or> po_required_commands po \<noteq> [] \<or> po_required_hashes po \<noteq> [] \<or> po_required_coverage po \<noteq> []
     \<or> po_forbidden_output po \<noteq> [] \<or> po_forbidden_paths po \<noteq> default_forbidden"

definition effective_delivery_repairs :: "task_policy \<Rightarrow> int" where
  "effective_delivery_repairs po = max 0 (min 2 (po_max_delivery_repairs po))"

record completion_decision =
  cd_allowed :: bool
  cd_reasons :: "str list"

record tracker_view =
  tk_changed_paths :: "str list"
  tk_available :: bool
  tk_git_available :: bool
  tk_revision :: int
  tk_epoch :: int

record process_result =
  pr_exit :: int
  pr_stdout :: str
  pr_stderr :: str

record gate_world =
  gw_inside :: "str \<Rightarrow> bool"
  gw_exists :: "str \<Rightarrow> bool"
  gw_is_file :: "str \<Rightarrow> bool"
  gw_sha256 :: "str \<Rightarrow> str"
  gw_search :: "str \<Rightarrow> str \<Rightarrow> str + bool"
  gw_ls_files :: "str \<Rightarrow> int"
  gw_diff_check :: "str list \<Rightarrow> process_result"
  gw_untracked_check :: "str \<Rightarrow> process_result"

subsection \<open>Path rules\<close>

definition matches_any :: "str \<Rightarrow> str list \<Rightarrow> bool" where
  "matches_any path patterns \<longleftrightarrow> list_ex (fnmatch (slashes path)) patterns"

definition path_violations :: "task_policy \<Rightarrow> str list \<Rightarrow> str list" where
  "path_violations po paths =
     (let forbidden = filter (\<lambda>p. matches_any p (po_forbidden_paths po)) paths;
          outside = filter (\<lambda>p. \<not> matches_any p (po_allowed_paths po)) paths
      in (if forbidden \<noteq> [] then [''Forbidden paths were modified: '' @ py_join '', '' forbidden] else [])
         @ (if po_allowed_paths po \<noteq> [] \<and> outside \<noteq> []
            then [''Paths outside the allowed scope were modified: '' @ py_join '', '' outside] else []))"

definition required_path_reasons :: "gate_world \<Rightarrow> task_policy \<Rightarrow> str list" where
  "required_path_reasons w po = concat (map (\<lambda>p.
     if \<not> gw_inside w p then [''Required task artifact is outside the workspace: '' @ p @ ''.'']
     else if \<not> gw_exists w p then [''Required task artifact does not exist: '' @ p @ ''.'']
     else []) (po_required_paths po))"

definition required_hash_reasons :: "gate_world \<Rightarrow> task_policy \<Rightarrow> str list" where
  "required_hash_reasons w po = concat (map (\<lambda>(p, expected).
     if \<not> gw_inside w p then [''Contract input is outside workspace: '' @ p @ ''.'']
     else if \<not> gw_is_file w p \<or> gw_sha256 w p \<noteq> expected
     then [''Caller-required input content was changed or removed: '' @ p @ ''.'']
     else []) (po_required_hashes po))"

definition error_detail :: "process_result \<Rightarrow> str" where
  "error_detail r = (let out = py_strip (pr_stdout r);
       d = take 2000 (if out \<noteq> [] then out else py_strip (pr_stderr r))
     in if d = [] then [] else [NL] @ d)"

definition diff_check_reasons :: "gate_world \<Rightarrow> str list \<Rightarrow> str list" where
  "diff_check_reasons w paths =
     (let tracked = filter (\<lambda>p. gw_ls_files w p = 0) paths;
          untracked = filter (\<lambda>p. gw_ls_files w p \<noteq> 0 \<and> gw_is_file w p) paths
      in (if tracked \<noteq> [] \<and> pr_exit (gw_diff_check w tracked) \<noteq> 0
          then [''git diff --check found a deterministic Patch error.'' @ error_detail (gw_diff_check w tracked)]
          else [])
         @ concat (map (\<lambda>p. let r = gw_untracked_check w p in
             if pr_exit r \<notin> {0, 1} \<or> py_strip (pr_stdout r) \<noteq> []
             then [''Git whitespace checking found a deterministic Patch error in untracked file: '' @ p @ ''.'' @ error_detail r]
             else []) untracked))"

subsection \<open>Evidence rules\<close>

definition verification_required :: "task_policy \<Rightarrow> bool \<Rightarrow> bool" where
  "verification_required po require \<longleftrightarrow> po_require_verification po \<or> po_require_task_verification po
     \<or> po_require_coverage po \<or> po_required_commands po \<noteq> [] \<or> po_required_coverage po \<noteq> [] \<or> require
     \<or> po_require_reconciliation po"

definition evidence_history :: "evidence list \<Rightarrow> evidence option \<Rightarrow> evidence list" where
  "evidence_history history verification =
     (case verification of None \<Rightarrow> history
      | Some v \<Rightarrow> (if history = [] \<or> last history \<noteq> v then history @ [v] else history))"

definition stale_obligation_reasons :: "evidence list \<Rightarrow> evidence list \<Rightarrow> str list" where
  "stale_obligation_reasons history current =
     (let keys = set (map verification_obligation_key (filter ev_success current)) in
      map (\<lambda>e. ''Acceptance check is stale and must be revalidated: '' @ py_join '', '' (ev_requirement_ids e)
             @ ''. Verification ID: '' @ (if ev_verification_id e \<noteq> [] then ev_verification_id e else ''legacy'')
             @ ''. '' @ checker_repair_guidance e)
        (filter (\<lambda>e. ev_requirement_ids e \<noteq> [] \<and> e \<notin> set current \<and> verification_obligation_key e \<notin> keys)
          (unresolved_verification_failures history)))"

definition reconciliation_reasons :: "task_policy \<Rightarrow> criterion list \<Rightarrow> evidence list \<Rightarrow> int \<Rightarrow> int \<Rightarrow> str list" where
  "reconciliation_reasons po criteria history revision epoch =
     (if \<not> po_require_reconciliation po then []
      else (if criteria = [] then [''The caller requires acceptance reconciliation, but no source-anchored criteria were registered. Provide finish_task.acceptance_criteria quoting the original requirements (a plan is optional), then bind executed output assertions to the returned req IDs. Use failed for an unsuccessful attempt.''] else [])
        @ List.map_filter (\<lambda>c. requirement_reason (requirement_observation c history revision epoch)) criteria)"

definition known_quality :: "evidence \<Rightarrow> bool" where
  "known_quality e \<longleftrightarrow> verification_quality (ev_command e) \<noteq> QUnknown"

definition declared_coverage :: "evidence list \<Rightarrow> str set" where
  "declared_coverage ok = set (concat (map ev_coverage (filter known_quality ok)))"

definition strength_reasons :: "task_policy \<Rightarrow> evidence list \<Rightarrow> str list" where
  "strength_reasons po ok =
     (if ok = [] then [''The current code has not been verified with the verify tool.'']
      else if list_all (\<lambda>e. \<not> known_quality e) ok then
        [''A successful verification command uses a shell chain whose failure coverage is unknown; do not treat its final exit code as sufficient evidence. Run the substantive check directly or explain and validate each branch explicitly.'']
      else if po_require_task_verification po \<and> \<not> list_ex (\<lambda>e. is_task_verification_command (ev_command e)) ok then
        [''The latest verification is only a structural or no-op check; run a task-level test or other command that exercises the requested behavior.'']
      else [])"

definition output_marker_reasons :: "gate_world \<Rightarrow> task_policy \<Rightarrow> evidence list \<Rightarrow> str list" where
  "output_marker_reasons w po ok = concat (map (\<lambda>e. concat (map (\<lambda>pattern.
     case gw_search w pattern (ev_diagnostic e) of
       Inl err \<Rightarrow> [''The completion policy contains an invalid verification output pattern '' @ py_repr pattern @ '': '' @ err @ ''.'']
     | Inr matched \<Rightarrow> (if matched then [''Verification exited 0 but its output contains the unresolved failure marker ''
           @ py_repr pattern @ ''; resolve that marker and verify the final revision again.''] else []))
     (po_forbidden_output po))) ok)"

definition required_command_reasons :: "task_policy \<Rightarrow> evidence list \<Rightarrow> str list" where
  "required_command_reasons po ok = concat (map (\<lambda>pattern.
     if list_ex (\<lambda>e. fnmatch (py_strip (ev_command e)) pattern \<and> known_quality e) ok then []
     else [''A task-required verification command has not passed on the current state: '' @ py_repr pattern @ ''.''])
     (po_required_commands po))"

definition verification_reasons :: "gate_world \<Rightarrow> task_policy \<Rightarrow> evidence list \<Rightarrow> evidence list \<Rightarrow> int \<Rightarrow> str list" where
  "verification_reasons w po history current revision =
     (let ok = filter ev_success current in
      concat (map (\<lambda>r. if r \<in> declared_coverage ok then []
         else [''Caller-required coverage has no current successful evidence: '' @ r @ ''.'']) (po_required_coverage po))
      @ strength_reasons po ok
      @ (if po_require_positive po \<and> \<not> list_ex (\<lambda>e. is_positive_verification_command (ev_command e)) ok
         then [''The successful verification does not establish positive task behavior; run a positive end-to-end verification that exits 0 when the requested behavior actually works.''] else [])
      @ (if po_require_coverage po \<and> \<not> list_ex (\<lambda>e. ev_coverage e \<noteq> [] \<and> is_positive_verification_command (ev_command e)) ok
         then [''Successful execution has no declared requirement coverage. Use verify.covers to state the concrete user requirements exercised, and verify.limitations for what remains untested. Coverage is a model explanation, not an independent proof.''] else [])
      @ output_marker_reasons w po ok
      @ required_command_reasons po ok
      @ (if history \<noteq> [] \<and> current = []
         then [''The code changed after verification; run verify again for workspace revision '' @ int_str revision @ ''.''] else []))"

definition unresolved_reasons :: "evidence list \<Rightarrow> str list" where
  "unresolved_reasons current =
     (let un = unresolved_verification_failures current;
          rendered = py_join '', '' (map (\<lambda>e. py_repr (take 160 (ev_command e)) @ '' (verification ID ''
            @ (if ev_verification_id e \<noteq> [] then ev_verification_id e else ''legacy'') @ ''; exit '' @ int_str (ev_exit_code e)
            @ ''; '' @ take 500 (let i = py_join ''; '' (ev_issues e) in if i \<noteq> [] then i else ''process failed'') @ '')'') un)
      in if un = [] then []
         else [''The latest verification failed and remains unresolved on the current workspace revision: '' @ rendered @ ''. ''
           @ py_join '' '' (fromkeys (map checker_repair_guidance un))])"

definition py_bool :: "bool \<Rightarrow> str" where
  "py_bool b = (if b then ''True'' else ''False'')"

definition check_key_text :: "jdict \<Rightarrow> str" where
  "check_key_text c = (case jget c ''key'' of JStr k \<Rightarrow> py_repr k | _ \<Rightarrow> [])"

definition mismatch_text :: "evidence \<Rightarrow> evidence \<Rightarrow> str" where
  "mismatch_text old new =
     (let kept = contracts (ev_output_checks new);
          missing = map check_key_text (filter (\<lambda>c. assertion_contract c \<notin> kept) (ev_output_checks old))
      in ''checker_contract_mismatch: '' @ ev_verification_id old @ ''; missing or changed assertions=[''
         @ py_join '', '' missing @ '']; cwd_matches='' @ py_bool (ev_cwd old = ev_cwd new)
         @ ''; requirement_bindings_preserved='' @ py_bool (set (ev_requirement_ids old) \<subseteq> set (ev_asserted_ids new))
         @ ''. Use inherit_checks_from to retain the recorded contract; do not change thresholds or requirement bindings.'')"

text \<open>The diagnostics of an attempted checker repair; only where a reason names the old check.\<close>

definition mismatch_step :: "evidence \<Rightarrow> evidence \<Rightarrow> str list \<Rightarrow> str list" where
  "mismatch_step new old reasons =
     (if ev_verification_id old \<noteq> [] \<and> ev_verification_id old \<in> set (ev_supersedes new)
         \<and> \<not> checker_revision_covers old new \<and> list_ex (py_in (ev_verification_id old)) reasons
      then reasons @ [mismatch_text old new] else reasons)"

definition add_mismatches :: "evidence list \<Rightarrow> evidence list \<Rightarrow> str list \<Rightarrow> str list" where
  "add_mismatches ok history reasons = fold (\<lambda>new. fold (mismatch_step new) history) ok reasons"

subsection \<open>The gate\<close>

definition is_code_task :: "task_policy \<Rightarrow> tracker_view \<Rightarrow> evidence option \<Rightarrow> evidence list \<Rightarrow> bool \<Rightarrow> bool \<Rightarrow> bool" where
  "is_code_task po tk verification history mutation_attempted require \<longleftrightarrow> mutation_attempted \<or> po_require_changes po
     \<or> verification_required po require \<or> tk_changed_paths tk \<noteq> [] \<or> verification \<noteq> None \<or> history \<noteq> []
     \<or> po_required_paths po \<noteq> [] \<or> po_required_hashes po \<noteq> []"

definition base_reasons :: "gate_world \<Rightarrow> task_policy \<Rightarrow> tracker_view \<Rightarrow> evidence list \<Rightarrow> bool \<Rightarrow> criterion list \<Rightarrow> str list" where
  "base_reasons w po tk history require criteria =
     (let current = filter (is_current (tk_revision tk) (tk_epoch tk)) history in
      (if tk_available tk then [] else [''Workspace change tracking is unavailable for this task.''])
      @ (if tk_available tk \<and> po_require_changes po \<and> tk_changed_paths tk = []
         then [''The task requires a code change, but the final Diff is empty.''] else [])
      @ path_violations po (tk_changed_paths tk)
      @ required_path_reasons w po
      @ required_hash_reasons w po
      @ stale_obligation_reasons history current
      @ reconciliation_reasons po criteria history (tk_revision tk) (tk_epoch tk)
      @ (if verification_required po require
         then verification_reasons w po history current (tk_revision tk) else [])
      @ unresolved_reasons current)"

definition evaluate ::
  "gate_world \<Rightarrow> task_policy \<Rightarrow> tracker_view \<Rightarrow> evidence option \<Rightarrow> evidence list \<Rightarrow> bool \<Rightarrow> bool \<Rightarrow> criterion list \<Rightarrow>
     completion_decision" where
  "evaluate w po tk verification verification_history mutation_attempted require criteria =
     (if \<not> is_code_task po tk verification verification_history mutation_attempted require
      then \<lparr>cd_allowed = True, cd_reasons = []\<rparr>
      else
        (let history = evidence_history verification_history verification;
             ok = filter ev_success (filter (is_current (tk_revision tk) (tk_epoch tk)) history);
             reasons = add_mismatches ok history (base_reasons w po tk history require criteria);
             reasons = reasons @ (if po_require_diff_check po \<and> tk_changed_paths tk \<noteq> [] \<and> tk_git_available tk
                then diff_check_reasons w (tk_changed_paths tk) else [])
         in \<lparr>cd_allowed = (reasons = []), cd_reasons = fromkeys reasons\<rparr>))"

subsection \<open>What an allowed completion guarantees\<close>

lemma mismatch_step_Nil [simp]: "mismatch_step new old [] = []"
  by (simp add: mismatch_step_def)

lemma mismatch_fold_Nil [simp]: "fold (mismatch_step new) history [] = []"
  by (induction history) auto

lemma add_mismatches_Nil [simp]: "add_mismatches ok history [] = []"
  by (induction ok) (auto simp: add_mismatches_def)

lemma mismatch_step_mono: "set rs \<subseteq> set (mismatch_step new old rs)"
  by (auto simp: mismatch_step_def)

lemma mismatch_fold_mono: "set rs \<subseteq> set (fold (mismatch_step new) history rs)"
proof (induction history arbitrary: rs)
  case (Cons h hs)
  show ?case using mismatch_step_mono [of rs new h] Cons.IH [of "mismatch_step new h rs"] by simp
qed simp

lemma add_mismatches_mono: "set rs \<subseteq> set (add_mismatches ok history rs)"
proof (induction ok arbitrary: rs)
  case (Cons e es)
  have "set (fold (mismatch_step e) history rs) \<subseteq> set (add_mismatches es history (fold (mismatch_step e) history rs))"
    by (rule Cons.IH)
  then show ?case using mismatch_fold_mono [of rs e history] by (auto simp: add_mismatches_def)
qed (simp add: add_mismatches_def)

lemma add_mismatches_eq_Nil: "add_mismatches ok history rs = [] \<longleftrightarrow> rs = []"
  using add_mismatches_mono [of rs ok history] by auto

lemma evaluate_allowed_iff:
  "cd_allowed (evaluate w po tk v h m req cs) \<longleftrightarrow>
     \<not> is_code_task po tk v h m req \<or>
     (base_reasons w po tk (evidence_history h v) req cs = [] \<and>
      (po_require_diff_check po \<and> tk_changed_paths tk \<noteq> [] \<and> tk_git_available tk \<longrightarrow>
         diff_check_reasons w (tk_changed_paths tk) = []))"
  by (auto simp: evaluate_def Let_def add_mismatches_eq_Nil)

lemma evaluate_consistent:
  "cd_allowed (evaluate w po tk v h m req cs) \<longleftrightarrow> cd_reasons (evaluate w po tk v h m req cs) = []"
  by (simp add: evaluate_def Let_def)

lemmas base_reason_parts = base_reasons_def Let_def path_violations_def filter_empty_conv

lemma path_violations_Nil:
  "path_violations po paths = [] \<longleftrightarrow> (\<forall>p\<in>set paths. \<not> matches_any p (po_forbidden_paths po)
     \<and> (po_allowed_paths po \<noteq> [] \<longrightarrow> matches_any p (po_allowed_paths po)))"
  by (auto simp: path_violations_def Let_def filter_empty_conv)

lemma unresolved_reasons_Nil: "unresolved_reasons current = [] \<longleftrightarrow> unresolved_verification_failures current = []"
  by (simp add: unresolved_reasons_def Let_def)

lemma required_path_reasons_Nil:
  "required_path_reasons w po = [] \<longleftrightarrow> (\<forall>p\<in>set (po_required_paths po). gw_inside w p \<and> gw_exists w p)"
  unfolding required_path_reasons_def concat_map_eq_Nil by (rule ball_cong) simp_all

lemma required_hash_reasons_Nil:
  "required_hash_reasons w po = [] \<longleftrightarrow>
     (\<forall>(p, expected)\<in>set (po_required_hashes po). gw_inside w p \<and> gw_is_file w p \<and> gw_sha256 w p = expected)"
  unfolding required_hash_reasons_def concat_map_eq_Nil by (rule ball_cong) (simp_all add: case_prod_beta)

lemma reconciliation_Nil:
  "reconciliation_reasons po cs history r p = [] \<Longrightarrow> po_require_reconciliation po \<Longrightarrow>
     cs \<noteq> [] \<and> (\<forall>c\<in>set cs. \<exists>e\<in>set history. proves r p (crit c ''id'') e)"
proof -
  have *: "List.map_filter f xs = [] \<longleftrightarrow> (\<forall>x\<in>set xs. f x = None)" for f :: "criterion \<Rightarrow> str option" and xs
    by (induction xs) (auto simp: List.map_filter_simps split: option.splits)
  show "reconciliation_reasons po cs history r p = [] \<Longrightarrow> po_require_reconciliation po \<Longrightarrow> ?thesis"
    by (auto simp: reconciliation_reasons_def * requirement_reason_None split: if_splits)
qed

lemma verification_reasons_Nil:
  "verification_reasons w po history current r = [] \<Longrightarrow>
     (\<exists>e\<in>set current. ev_success e \<and> known_quality e)
     \<and> (po_require_task_verification po \<or> po_require_positive po \<longrightarrow>
          (\<exists>e\<in>set current. ev_success e \<and> verification_quality (ev_command e) = QBehavior))
     \<and> (\<forall>pattern\<in>set (po_required_commands po). \<exists>e\<in>set current. ev_success e \<and> known_quality e
          \<and> fnmatch (py_strip (ev_command e)) pattern)"
proof -
  let ?ok = "filter ev_success current"
  assume a: "verification_reasons w po history current r = []"
  then have st: "strength_reasons po ?ok = []" and rc: "required_command_reasons po ?ok = []"
    and pos: "po_require_positive po \<longrightarrow> list_ex (\<lambda>e. is_positive_verification_command (ev_command e)) ?ok"
    by (simp_all add: verification_reasons_def Let_def split: if_splits)
  from st have "\<not> list_all (\<lambda>e. \<not> known_quality e) ?ok"
    and task: "po_require_task_verification po \<longrightarrow> list_ex (\<lambda>e. is_task_verification_command (ev_command e)) ?ok"
    by (simp_all add: strength_reasons_def split: if_splits)
  then have "\<exists>e\<in>set current. ev_success e \<and> known_quality e"
    by (auto simp: list_all_iff)
  moreover from rc have "\<forall>pattern\<in>set (po_required_commands po). \<exists>e\<in>set current. ev_success e \<and> known_quality e
          \<and> fnmatch (py_strip (ev_command e)) pattern"
    unfolding required_command_reasons_def concat_map_eq_Nil by (fastforce simp: list_ex_iff split: if_splits)
  ultimately show ?thesis
    using pos task by (auto simp: list_ex_iff is_task_verification_command_def is_positive_verification_command_def)
qed

lemma current_filter_iff: "e \<in> set (filter (is_current r p) history) \<longleftrightarrow> e \<in> set history \<and> is_current r p e"
  by simp

end
