(* ===== verification/Perm_Policy.thy ===== *)
theory Perm_Policy
  imports Py_Stdlib Json
begin

text \<open>
  \<open>forge/permissions/policy.py\<close>: requests, rules, modes, approvals and the audit trail. The
  approval handler is an argument (the user), and so are SHA-256 and the question whether a
  target lies in an authorised write root (the file system). The project rules file is a value
  of \<open>rule_file\<close>: absent, unreadable, or the JSON document it parses to. A path matches a rule
  as on POSIX, where \<open>fnmatch\<close> does not fold case.
\<close>

datatype perm_mode = PlanMode | SupervisedMode | AutoMode
datatype perm_action = Allow | Ask | Deny
datatype perm_scope = UserScope | ProjectScope | SessionScope
datatype perm_choice = AllowOnce | AllowSession | AllowProject | DenyChoice
datatype perm_risk = LowRisk | MediumRisk | HighRisk | CriticalRisk

record perm_request =
  pq_tool :: str
  pq_capability :: str
  pq_risk :: perm_risk
  pq_targets :: "str list"
  pq_reason :: str
  pq_preview :: str
  pq_hard_deny :: bool
  pq_arguments_hash :: str

text \<open>
  Nothing checks that the capability and the target of a stored rule are strings, so they are JSON
  values; \<open>fnmatch\<close> raises a \<open>TypeError\<close> on a pattern that is none, when a rule is used.
\<close>

record perm_rule =
  ru_action :: perm_action
  ru_capability :: json
  ru_target :: json
  ru_scope :: perm_scope

definition rule_target :: "perm_request \<Rightarrow> str" where
  "rule_target rq = (if length (pq_targets rq) = 1 then hd (pq_targets rq) else ''*'')"

definition signature :: "perm_request \<Rightarrow> str" where
  "signature rq = pq_capability rq @ '':'' @ (if length (pq_targets rq) = 1 then hd (pq_targets rq) else ''*'')"

definition fnmatch_json :: "str \<Rightarrow> json \<Rightarrow> bool" where
  "fnmatch_json t v = (case v of JStr p \<Rightarrow> fnmatch t p | _ \<Rightarrow> False)"

definition no_pattern :: "json \<Rightarrow> bool" where
  "no_pattern v = (case v of JStr p \<Rightarrow> False | _ \<Rightarrow> True)"

text \<open>\<open>PermissionRule.matches\<close>: whether it raises, and its result where it does not.\<close>

definition rule_raises :: "perm_rule \<Rightarrow> perm_request \<Rightarrow> bool" where
  "rule_raises ru rq \<longleftrightarrow> no_pattern (ru_capability ru)
     \<or> fnmatch_json (pq_capability rq) (ru_capability ru) \<and> no_pattern (ru_target ru)"

definition rule_matches :: "perm_rule \<Rightarrow> perm_request \<Rightarrow> bool" where
  "rule_matches ru rq =
     (fnmatch_json (pq_capability rq) (ru_capability ru) \<and>
      (let targets = (if pq_targets rq = [] then [[]] else pq_targets rq) in
       if ru_action ru = Allow then list_all (\<lambda>t. fnmatch_json t (ru_target ru)) targets
       else list_ex (\<lambda>t. fnmatch_json t (ru_target ru)) targets))"

text \<open>Only asked of rules that match, whose patterns are strings.\<close>

definition fixed_length :: "char set \<Rightarrow> json \<Rightarrow> nat" where
  "fixed_length wild v = (case v of JStr p \<Rightarrow> length (filter (\<lambda>c. c \<notin> wild) p) | _ \<Rightarrow> 0)"

definition specificity :: "perm_rule \<Rightarrow> nat \<times> nat" where
  "specificity ru = (fixed_length {CHR ''*'', CHR ''?''} (ru_target ru), fixed_length {CHR ''*''} (ru_capability ru))"

record approval_response =
  ap_choice :: perm_choice
  ap_reason :: str

record perm_decision =
  de_action :: perm_action
  de_request :: perm_request
  de_reason :: str
  de_source :: str

subsection \<open>The manager and its audit trail\<close>

datatype audit =
    ModeChanged perm_mode
  | Requested perm_request str
  | Decided perm_action str str perm_request

datatype rule_file = NoFile | Unreadable | NotUtf8 | Parsed json

record perm_state =
  pm_mode :: perm_mode
  pm_execution_mode :: "str option"
  pm_load_stored :: bool
  pm_user_rules :: "perm_rule list"
  pm_project_rules :: "perm_rule list"
  pm_session_rules :: "perm_rule list"
  pm_project_file :: rule_file
  pm_journal :: "audit list option"

definition mode_name :: "perm_mode \<Rightarrow> str" where
  "mode_name m = (case m of PlanMode \<Rightarrow> ''plan'' | SupervisedMode \<Rightarrow> ''supervised'' | AutoMode \<Rightarrow> ''auto'')"

definition scope_name :: "perm_scope \<Rightarrow> str" where
  "scope_name s = (case s of UserScope \<Rightarrow> ''user'' | ProjectScope \<Rightarrow> ''project'' | SessionScope \<Rightarrow> ''session'')"

definition action_name :: "perm_action \<Rightarrow> str" where
  "action_name a = (case a of Allow \<Rightarrow> ''allow'' | Ask \<Rightarrow> ''ask'' | Deny \<Rightarrow> ''deny'')"

definition action_of_name :: "str \<Rightarrow> perm_action option" where
  "action_of_name s = (if s = ''allow'' then Some Allow else if s = ''ask'' then Some Ask
     else if s = ''deny'' then Some Deny else None)"

definition perm_audit :: "audit \<Rightarrow> perm_state \<Rightarrow> perm_state" where
  "perm_audit ev pm = (case pm_journal pm of None \<Rightarrow> pm | Some j \<Rightarrow> pm\<lparr>pm_journal := Some (j @ [ev])\<rparr>)"

text \<open>The preview of an external write is redacted before it reaches the journal.\<close>

definition request_payload :: "(str \<Rightarrow> str) \<Rightarrow> perm_request \<Rightarrow> perm_request" where
  "request_payload sha rq =
     (if pq_capability rq = ''mcp.write'' \<and> pq_preview rq \<noteq> []
      then rq\<lparr>pq_preview := ''[redacted external write preview; sha256=''
          @ (if pq_arguments_hash rq \<noteq> [] then pq_arguments_hash rq else sha (pq_preview rq))
          @ ''; characters='' @ nat_str (length (pq_preview rq)) @ '']''\<rparr>
      else rq)"

definition perm_decide ::
  "(str \<Rightarrow> str) \<Rightarrow> perm_action \<Rightarrow> perm_request \<Rightarrow> str \<Rightarrow> str \<Rightarrow> perm_state \<Rightarrow> perm_state \<times> (py_exn + perm_decision)" where
  "perm_decide sha action rq reason source pm =
     (perm_audit (Decided action reason source (request_payload sha rq)) pm,
      Inr \<lparr>de_action = action, de_request = rq, de_reason = reason, de_source = source\<rparr>)"

definition bind_session :: "audit list option \<Rightarrow> bool \<Rightarrow> perm_state \<Rightarrow> perm_state" where
  "bind_session journal reset pm =
     (let pm = pm\<lparr>pm_journal := journal\<rparr> in if reset then pm\<lparr>pm_session_rules := []\<rparr> else pm)"

definition set_mode :: "str \<Rightarrow> perm_state \<Rightarrow> perm_state \<times> (py_exn + perm_mode)" where
  "set_mode name pm =
     (case find_opt (\<lambda>m. mode_name m = name) [PlanMode, SupervisedMode, AutoMode] of
        None \<Rightarrow> (pm, Inl (ValueError ''Permission mode must be plan, supervised, or auto.''))
      | Some m \<Rightarrow> (perm_audit (ModeChanged m) (pm\<lparr>pm_mode := m\<rparr>), Inr m))"

definition describe :: "perm_state \<Rightarrow> str" where
  "describe pm = ''Mode: '' @ mode_name (pm_mode pm)
     @ [NL] @ ''User rules: '' @ nat_str (length (pm_user_rules pm))
     @ [NL] @ ''Project rules: '' @ nat_str (length (pm_project_rules pm))
     @ [NL] @ ''Session rules: '' @ nat_str (length (pm_session_rules pm))"

subsection \<open>Stored rules\<close>

text \<open>
  One entry of a rules document: \<open>None\<close> where the loader skips it, because it is no object, has no
  action, or has one \<open>PermissionRule\<close> refuses.
\<close>

definition load_entry :: "perm_scope \<Rightarrow> json \<Rightarrow> perm_rule option" where
  "load_entry scope value =
     (case value of
        JObj d \<Rightarrow>
          (case dict_get d ''action'' of
             Some (JStr a) \<Rightarrow>
               (case action_of_name a of
                  None \<Rightarrow> None
                | Some action \<Rightarrow> Some \<lparr>ru_action = action, ru_capability = dict_get_or d ''capability'' (JStr ''*''),
                    ru_target = dict_get_or d ''target'' (JStr ''*''), ru_scope = scope\<rparr>)
           | _ \<Rightarrow> None)
      | _ \<Rightarrow> None)"

definition load_entries :: "perm_scope \<Rightarrow> json list \<Rightarrow> perm_rule list" where
  "load_entries scope entries = List.map_filter (load_entry scope) entries"

definition load_rules :: "perm_scope \<Rightarrow> rule_file \<Rightarrow> py_exn + perm_rule list" where
  "load_rules scope file =
     (case file of
        NoFile \<Rightarrow> Inr []
      | Unreadable \<Rightarrow> Inr []
      | NotUtf8 \<Rightarrow> Inl (ValueError ''invalid start byte'')
      | Parsed (JObj raw) \<Rightarrow>
          (case iter_of (dict_get_or raw ''rules'' (JList [])) of
             None \<Rightarrow> Inl (TypeError ''object is not iterable'')
           | Some entries \<Rightarrow> Inr (load_entries scope entries))
      | Parsed _ \<Rightarrow> Inr [])"

definition known_fields :: "perm_rule \<Rightarrow> jdict" where
  "known_fields ru = [(''action'', JStr (action_name (ru_action ru))), (''capability'', ru_capability ru),
     (''target'', ru_target ru)]"

definition same_entry :: "perm_rule \<Rightarrow> json \<Rightarrow> bool" where
  "same_entry ru value = (case value of
      JObj d \<Rightarrow> list_all (\<lambda>kv. dict_get_or d (fst kv) (JStr ''*'') = snd kv) (known_fields ru)
    | _ \<Rightarrow> False)"

definition overlay :: "jdict \<Rightarrow> jdict \<Rightarrow> jdict" where
  "overlay original known = fold (\<lambda>kv d. dict_set d (fst kv) (snd kv)) known original"

text \<open>The first stored entry a rule comes from, and the entries without it.\<close>

fun take_entry :: "perm_rule \<Rightarrow> json list \<Rightarrow> jdict \<times> json list" where
  "take_entry ru [] = ([], [])"
| "take_entry ru (v # vs) =
     (case v of
        JObj d \<Rightarrow> (if same_entry ru v then (d, vs)
                    else (let (original, rest) = take_entry ru vs in (original, v # rest)))
      | _ \<Rightarrow> (let (original, rest) = take_entry ru vs in (original, v # rest)))"

fun serialize_rules :: "perm_rule list \<Rightarrow> json list \<Rightarrow> json list \<times> json list" where
  "serialize_rules [] previous = ([], previous)"
| "serialize_rules (ru # rus) previous =
     (let (original, previous) = take_entry ru previous;
          (serialized, rest) = serialize_rules rus previous
      in (JObj (overlay original (known_fields ru)) # serialized, rest))"

definition opaque_entry :: "json \<Rightarrow> bool" where
  "opaque_entry v = (case v of
      JObj d \<Rightarrow> jget d ''action'' \<notin> {JStr ''allow'', JStr ''ask'', JStr ''deny''}
    | _ \<Rightarrow> True)"

definition unreadable_message :: str where
  "unreadable_message = ''Permission configuration is unreadable; original file was preserved.''"

definition save_rules :: "perm_rule list \<Rightarrow> rule_file \<Rightarrow> py_exn + rule_file" where
  "save_rules rules file =
     rbind (case file of
         NoFile \<Rightarrow> Inr []
       | Parsed (JObj d) \<Rightarrow>
           (if json_list_opt (dict_get_or d ''rules'' (JList [])) = None then Inl (ValueError unreadable_message) else Inr d)
       | _ \<Rightarrow> Inl (ValueError unreadable_message))
       (\<lambda>payload.
         let previous = (case json_list_opt (dict_get_or payload ''rules'' (JList [])) of Some vs \<Rightarrow> vs | None \<Rightarrow> []);
             (serialized, rest) = serialize_rules rules previous;
             payload = (if dict_get payload ''version'' = None then dict_set payload ''version'' (JInt 1) else payload)
         in Inr (Parsed (JObj (dict_set payload ''rules'' (JList (serialized @ filter opaque_entry rest))))))"

subsection \<open>Approvals\<close>

definition effective_choice :: "perm_request \<Rightarrow> perm_choice \<Rightarrow> perm_choice" where
  "effective_choice rq choice =
     (let choice = (if pq_capability rq = ''mcp.write'' \<and> choice \<in> {AllowSession, AllowProject} then AllowOnce else choice)
      in if pq_capability rq = ''file.delete''
            \<and> (choice = AllowProject \<or> choice = AllowSession \<and> length (pq_targets rq) \<noteq> 1)
         then AllowOnce else choice)"

definition granted_rule :: "perm_scope \<Rightarrow> perm_request \<Rightarrow> perm_rule" where
  "granted_rule scope rq = \<lparr>ru_action = Allow, ru_capability = JStr (pq_capability rq), ru_target = JStr (rule_target rq),
     ru_scope = scope\<rparr>"

definition request_approval ::
  "(str \<Rightarrow> str) \<Rightarrow> (perm_request \<Rightarrow> approval_response) option \<Rightarrow> perm_request \<Rightarrow> str \<Rightarrow> perm_state \<Rightarrow>
     perm_state \<times> (py_exn + perm_decision)" where
  "request_approval sha handler rq source pm =
     (let pm = perm_audit (Requested (request_payload sha rq) source) pm in
      case handler of
        None \<Rightarrow> perm_decide sha Deny rq ''Approval is required but no interactive approval handler is available.''
                  ''approval_unavailable'' pm
      | Some ask \<Rightarrow>
          (let response = ask rq;
               choice = effective_choice rq (ap_choice response);
               approved = (\<lambda>pm. perm_decide sha Allow rq
                  (if ap_reason response \<noteq> [] then ap_reason response else ''Approved by user.'') ''user'' pm)
           in case choice of
                AllowOnce \<Rightarrow> approved pm
              | AllowSession \<Rightarrow> approved (pm\<lparr>pm_session_rules := pm_session_rules pm @ [granted_rule SessionScope rq]\<rparr>)
              | AllowProject \<Rightarrow>
                  (if \<not> pm_load_stored pm
                   then perm_decide sha Deny rq ''Persistent project grants are disabled for this profile.'' ''profile'' pm
                   else
                     (let pm = pm\<lparr>pm_project_rules := pm_project_rules pm @ [granted_rule ProjectScope rq]\<rparr> in
                      case save_rules (pm_project_rules pm) (pm_project_file pm) of
                        Inl e \<Rightarrow> (pm, Inl e)
                      | Inr file \<Rightarrow> approved (pm\<lparr>pm_project_file := file\<rparr>)))
              | DenyChoice \<Rightarrow> perm_decide sha Deny rq
                  (if ap_reason response \<noteq> [] then ap_reason response else ''Denied by user.'') ''user'' pm))"

subsection \<open>Authorisation\<close>

definition read_capability :: "str \<Rightarrow> bool" where
  "read_capability c \<longleftrightarrow> c \<in> {''file.read'', ''repository.read'', ''mcp.read''}"

definition mode_default :: "perm_mode \<Rightarrow> perm_request \<Rightarrow> perm_action" where
  "mode_default mode rq =
     (case mode of
        PlanMode \<Rightarrow> (if read_capability (pq_capability rq) then Allow else Deny)
      | SupervisedMode \<Rightarrow> (if read_capability (pq_capability rq) then Allow else Ask)
      | AutoMode \<Rightarrow> (if pq_risk rq = LowRisk then Allow else Ask))"

definition scope_rank :: "perm_scope \<Rightarrow> nat" where
  "scope_rank s = (case s of UserScope \<Rightarrow> 0 | ProjectScope \<Rightarrow> 1 | SessionScope \<Rightarrow> 2)"

definition rule_less :: "perm_rule \<Rightarrow> perm_rule \<Rightarrow> bool" where
  "rule_less a b \<longleftrightarrow>
     (let (fa, ca) = specificity a; (fb, cb) = specificity b in
      fa < fb \<or> fa = fb \<and> (ca < cb \<or> ca = cb \<and> scope_rank (ru_scope a) < scope_rank (ru_scope b)))"

text \<open>\<open>max\<close> keeps the first of the greatest elements.\<close>

definition max_rule :: "perm_rule list \<Rightarrow> perm_rule" where
  "max_rule rs = foldl (\<lambda>b r. if rule_less b r then r else b) (hd rs) (tl rs)"

definition all_rules :: "perm_state \<Rightarrow> perm_rule list" where
  "all_rules pm = pm_user_rules pm @ pm_project_rules pm @ pm_session_rules pm"

definition matching_rules :: "perm_state \<Rightarrow> perm_request \<Rightarrow> perm_rule list" where
  "matching_rules pm rq =
     filter (\<lambda>ru. rule_matches ru rq) (all_rules pm)"

definition authorized_write :: "(str \<Rightarrow> bool) \<Rightarrow> perm_request \<Rightarrow> bool" where
  "authorized_write in_roots rq \<longleftrightarrow> pq_capability rq = ''file.write'' \<and> pq_risk rq = LowRisk \<and> pq_targets rq \<noteq> []
     \<and> list_all in_roots (pq_targets rq)"

definition authorize ::
  "(str \<Rightarrow> str) \<Rightarrow> (perm_request \<Rightarrow> approval_response) option \<Rightarrow> (str \<Rightarrow> bool) \<Rightarrow> perm_request \<Rightarrow> perm_state \<Rightarrow>
     perm_state \<times> (py_exn + perm_decision)" where
  "authorize sha handler in_roots rq pm =
     (if pq_hard_deny rq then perm_decide sha Deny rq (pq_reason rq) ''hard_deny'' pm
      else if \<not> read_capability (pq_capability rq) \<and> (pm_execution_mode pm = Some ''read-only'' \<or> pm_mode pm = PlanMode)
      then perm_decide sha Deny rq ''Read-only policy forbids this operation.'' ''read_only'' pm
      else if list_ex (\<lambda>ru. rule_raises ru rq) (all_rules pm) then (pm, Inl (TypeError ''expected str''))
      else
        (let matching = matching_rules pm rq in
         if list_ex (\<lambda>ru. ru_action ru = Deny) matching
         then perm_decide sha Deny rq ''A matching deny rule applies.'' ''rule'' pm
         else if matching \<noteq> [] \<and> pq_capability rq \<noteq> ''mcp.write''
         then (let ru = max_rule matching in
               if ru_action ru = Allow
               then perm_decide sha Allow rq ''Allowed by stored rule.'' (scope_name (ru_scope ru)) pm
               else request_approval sha handler rq (scope_name (ru_scope ru)) pm)
         else if pq_capability rq = ''mcp.write'' then request_approval sha handler rq ''external_write'' pm
         else (case (if authorized_write in_roots rq then Allow else mode_default (pm_mode pm) rq) of
             Allow \<Rightarrow> perm_decide sha Allow rq ''Allowed by permission mode.'' (mode_name (pm_mode pm)) pm
           | Deny \<Rightarrow> perm_decide sha Deny rq ''Denied by permission mode.'' (mode_name (pm_mode pm)) pm
           | Ask \<Rightarrow> request_approval sha handler rq (mode_name (pm_mode pm)) pm)))"

subsection \<open>What the decisions rest on\<close>

definition allowed :: "perm_state \<times> (py_exn + perm_decision) \<Rightarrow> bool" where
  "allowed out \<longleftrightarrow> (case snd out of Inr d \<Rightarrow> de_action d = Allow | Inl e \<Rightarrow> False)"

lemma perm_audit_simps [simp]:
  "pm_mode (perm_audit ev pm) = pm_mode pm"
  "pm_load_stored (perm_audit ev pm) = pm_load_stored pm"
  "pm_user_rules (perm_audit ev pm) = pm_user_rules pm"
  "pm_project_rules (perm_audit ev pm) = pm_project_rules pm"
  "pm_session_rules (perm_audit ev pm) = pm_session_rules pm"
  "pm_project_file (perm_audit ev pm) = pm_project_file pm"
  "pm_journal (perm_audit ev pm) = map_option (\<lambda>j. j @ [ev]) (pm_journal pm)"
  by (simp_all add: perm_audit_def split: option.split)

lemma perm_decide_simps [simp]:
  "fst (perm_decide sha a rq r src pm) = perm_audit (Decided a r src (request_payload sha rq)) pm"
  "snd (perm_decide sha a rq r src pm) = Inr \<lparr>de_action = a, de_request = rq, de_reason = r, de_source = src\<rparr>"
  by (simp_all add: perm_decide_def)

lemma allowed_decide [simp]: "allowed (perm_decide sha a rq r src pm) \<longleftrightarrow> a = Allow"
  by (simp add: allowed_def)

definition user_approved :: "(perm_request \<Rightarrow> approval_response) option \<Rightarrow> perm_request \<Rightarrow> bool" where
  "user_approved handler rq \<longleftrightarrow> (\<exists>ask. handler = Some ask \<and> ap_choice (ask rq) \<noteq> DenyChoice)"

lemma effective_choice_deny [simp]: "effective_choice rq c = DenyChoice \<longleftrightarrow> c = DenyChoice"
  by (cases c) (auto simp: effective_choice_def Let_def)

lemma approval_allowed: "allowed (request_approval sha handler rq src pm) \<Longrightarrow> user_approved handler rq"
proof (cases handler)
  case None
  then show "allowed (request_approval sha handler rq src pm) \<Longrightarrow> ?thesis"
    by (simp add: request_approval_def)
next
  case (Some ask)
  have "effective_choice rq DenyChoice = DenyChoice" by simp
  with Some show "allowed (request_approval sha handler rq src pm) \<Longrightarrow> ?thesis"
    by (cases "ap_choice (ask rq) = DenyChoice") (simp_all add: request_approval_def user_approved_def Let_def)
qed

text \<open>A rule of greatest precedence among the matching ones decides.\<close>

lemma max_rule_fold:
  "foldl (\<lambda>b r. if rule_less b r then r else b) x rs \<in> set (x # rs)"
proof (induction rs arbitrary: x)
  case (Cons y rs)
  then show ?case using Cons.IH [of x] Cons.IH [of y] by auto
qed simp

lemma max_rule_mem: "rs \<noteq> [] \<Longrightarrow> max_rule rs \<in> set rs"
  unfolding max_rule_def using max_rule_fold [of "hd rs" "tl rs"] by simp

lemma rule_less_trans: "rule_less a b \<Longrightarrow> rule_less b c \<Longrightarrow> rule_less a c"
  by (auto simp: rule_less_def Let_def split: prod.splits)

lemma rule_less_le_trans: "\<not> rule_less b a \<Longrightarrow> rule_less b c \<Longrightarrow> rule_less a c"
  by (auto simp: rule_less_def Let_def split: prod.splits)

lemma rule_less_irrefl [simp]: "\<not> rule_less a a"
  by (auto simp: rule_less_def Let_def)

lemma max_rule_fold_greatest:
  "\<forall>r\<in>set (x # rs). \<not> rule_less (foldl (\<lambda>b r. if rule_less b r then r else b) x rs) r"
proof (induction rs arbitrary: x)
  case Nil
  then show ?case by simp
next
  case (Cons y rs)
  let ?z = "if rule_less x y then y else x"
  from Cons.IH [of ?z] have IH: "\<forall>r\<in>set (?z # rs). \<not> rule_less (foldl (\<lambda>b r. if rule_less b r then r else b) ?z rs) r" .
  define m where "m = foldl (\<lambda>b r. if rule_less b r then r else b) ?z rs"
  from IH have z: "\<not> rule_less m ?z" and rest: "\<forall>r\<in>set rs. \<not> rule_less m r"
    by (simp_all add: m_def)
  have "\<not> rule_less m x \<and> \<not> rule_less m y"
    using z rule_less_trans [of m x y] rule_less_le_trans [of m x y] by (cases "rule_less x y") auto
  with rest show ?case by (simp add: m_def)
qed

lemma max_rule_greatest: "r \<in> set rs \<Longrightarrow> \<not> rule_less (max_rule rs) r"
  using max_rule_fold_greatest [of "hd rs" "tl rs"] by (cases rs) (auto simp: max_rule_def)

lemma matching_rules_set: "set (matching_rules pm rq) = {ru \<in> set (all_rules pm). rule_matches ru rq}"
  by (auto simp: matching_rules_def)

text \<open>Rules change only when an approval grants one.\<close>

definition same_rules :: "perm_state \<Rightarrow> perm_state \<Rightarrow> bool" where
  "same_rules a b \<longleftrightarrow> pm_user_rules a = pm_user_rules b \<and> pm_project_rules a = pm_project_rules b
     \<and> pm_session_rules a = pm_session_rules b"

lemma same_rules_decide [simp]: "same_rules (fst (perm_decide sha a rq r src pm)) pm"
  by (simp add: same_rules_def)

definition grants :: "perm_request \<Rightarrow> perm_state \<Rightarrow> perm_state \<Rightarrow> bool" where
  "grants rq pm pm' \<longleftrightarrow>
     (pm_user_rules pm' = pm_user_rules pm \<and> pm_project_rules pm' = pm_project_rules pm
      \<and> pm_session_rules pm' = pm_session_rules pm @ [granted_rule SessionScope rq]
      \<and> pq_capability rq \<noteq> ''mcp.write'' \<and> (pq_capability rq = ''file.delete'' \<longrightarrow> length (pq_targets rq) = 1))
   \<or> (pm_user_rules pm' = pm_user_rules pm \<and> pm_session_rules pm' = pm_session_rules pm
      \<and> pm_project_rules pm' = pm_project_rules pm @ [granted_rule ProjectScope rq]
      \<and> pq_capability rq \<notin> {''mcp.write'', ''file.delete''} \<and> pm_load_stored pm)"

lemma effective_choice_session:
  "effective_choice rq c = AllowSession \<Longrightarrow>
     pq_capability rq \<noteq> ''mcp.write'' \<and> (pq_capability rq = ''file.delete'' \<longrightarrow> length (pq_targets rq) = 1)"
  by (auto simp: effective_choice_def Let_def split: if_splits)

lemma effective_choice_project:
  "effective_choice rq c = AllowProject \<Longrightarrow> pq_capability rq \<notin> {''mcp.write'', ''file.delete''}"
  by (auto simp: effective_choice_def Let_def split: if_splits)

lemma approval_rules:
  "same_rules (fst (request_approval sha handler rq src pm)) pm
   \<or> grants rq pm (fst (request_approval sha handler rq src pm)) \<and> user_approved handler rq"
proof (cases handler)
  case None
  then show ?thesis by (simp add: request_approval_def Let_def same_rules_def)
next
  case (Some ask)
  let ?c = "effective_choice rq (ap_choice (ask rq))"
  have approved: "?c \<noteq> DenyChoice \<Longrightarrow> user_approved handler rq"
    by (simp add: Some user_approved_def)
  show ?thesis
  proof (cases ?c)
    case AllowSession
    with Some approved effective_choice_session [OF AllowSession] show ?thesis
      by (simp add: request_approval_def grants_def Let_def)
  next
    case AllowProject
    with Some approved effective_choice_project [OF AllowProject] show ?thesis
      by (auto simp: request_approval_def Let_def grants_def same_rules_def split: sum.split)
  qed (use Some in \<open>simp_all add: request_approval_def same_rules_def Let_def del: effective_choice_deny\<close>)
qed

lemma authorize_cases:
  "(\<exists>a r src. authorize sha handler roots rq pm = perm_decide sha a rq r src pm)
   \<or> (\<exists>src. authorize sha handler roots rq pm = request_approval sha handler rq src pm)
   \<or> (\<exists>e. authorize sha handler roots rq pm = (pm, Inl e))"
  by (cases "if authorized_write roots rq then Allow else mode_default (pm_mode pm) rq")
    (auto simp: authorize_def Let_def)

lemma authorize_rules:
  "same_rules (fst (authorize sha handler roots rq pm)) pm
   \<or> grants rq pm (fst (authorize sha handler roots rq pm)) \<and> user_approved handler rq"
  using authorize_cases [of sha handler roots rq pm]
proof (elim disjE exE)
  fix a r src
  assume "authorize sha handler roots rq pm = perm_decide sha a rq r src pm"
  then show ?thesis by (simp only: same_rules_decide simp_thms)
next
  fix src
  assume "authorize sha handler roots rq pm = request_approval sha handler rq src pm"
  then show ?thesis using approval_rules by simp
next
  fix e
  assume "authorize sha handler roots rq pm = (pm, Inl e)"
  then show ?thesis by (simp add: same_rules_def)
qed

text \<open>Why a request is allowed.\<close>

lemma authorize_allowed_cases:
  assumes "allowed (authorize sha handler roots rq pm)"
  shows "\<not> pq_hard_deny rq"
    and "read_capability (pq_capability rq) \<or> pm_execution_mode pm \<noteq> Some ''read-only'' \<and> pm_mode pm \<noteq> PlanMode"
    and "\<forall>ru\<in>set (matching_rules pm rq). ru_action ru \<noteq> Deny"
    and "user_approved handler rq
       \<or> pq_capability rq \<noteq> ''mcp.write'' \<and> matching_rules pm rq \<noteq> [] \<and> ru_action (max_rule (matching_rules pm rq)) = Allow
       \<or> pq_capability rq \<noteq> ''mcp.write'' \<and> matching_rules pm rq = [] \<and> (authorized_write roots rq \<or> mode_default (pm_mode pm) rq = Allow)"
proof -
  show hard: "\<not> pq_hard_deny rq"
    using assms by (auto simp: authorize_def)
  show read: "read_capability (pq_capability rq) \<or> pm_execution_mode pm \<noteq> Some ''read-only'' \<and> pm_mode pm \<noteq> PlanMode"
    using assms hard by (auto simp: authorize_def split: if_splits)
  have raises: "\<not> list_ex (\<lambda>ru. rule_raises ru rq) (all_rules pm)"
    using assms hard read by (auto simp: authorize_def allowed_def split: if_splits)
  have deny: "\<not> list_ex (\<lambda>ru. ru_action ru = Deny) (matching_rules pm rq)"
    using assms hard read raises by (auto simp: authorize_def Let_def split: if_splits)
  then show "\<forall>ru\<in>set (matching_rules pm rq). ru_action ru \<noteq> Deny"
    by (simp add: list_ex_iff)
  show "user_approved handler rq
       \<or> pq_capability rq \<noteq> ''mcp.write'' \<and> matching_rules pm rq \<noteq> [] \<and> ru_action (max_rule (matching_rules pm rq)) = Allow
       \<or> pq_capability rq \<noteq> ''mcp.write'' \<and> matching_rules pm rq = [] \<and> (authorized_write roots rq \<or> mode_default (pm_mode pm) rq = Allow)"
    using assms hard read raises deny approval_allowed
    by (simp add: authorize_def Let_def split: if_splits perm_action.splits)
qed

lemma authorize_refused:
  assumes "pq_hard_deny rq"
  shows "\<exists>d. snd (authorize sha handler roots rq pm) = Inr d \<and> de_action d = Deny
     \<and> same_rules (fst (authorize sha handler roots rq pm)) pm"
  using assms by (auto simp: authorize_def same_rules_def)

subsection \<open>The audit trail\<close>

definition audited :: "(str \<Rightarrow> str) \<Rightarrow> perm_request \<Rightarrow> audit list option \<Rightarrow> perm_state \<times> (py_exn + perm_decision) \<Rightarrow> bool" where
  "audited sha rq journal out \<longleftrightarrow> (case snd out of Inl e \<Rightarrow> True | Inr d \<Rightarrow>
     de_request d = rq \<and> (\<exists>srcs. pm_journal (fst out) = map_option (\<lambda>j. j @ map (Requested (request_payload sha rq)) srcs
        @ [Decided (de_action d) (de_reason d) (de_source d) (request_payload sha rq)]) journal))"

lemma audited_decide:
  "pm_journal pm = map_option (\<lambda>j. j @ map (Requested (request_payload sha rq)) srcs) journal \<Longrightarrow>
     audited sha rq journal (perm_decide sha a rq r src pm)"
  by (auto simp: audited_def option.map_comp comp_def intro: exI [of _ srcs])

lemma audited_approval: "audited sha rq (pm_journal pm) (request_approval sha handler rq src pm)"
proof -
  have one: "pm_journal q = map_option (\<lambda>j. j @ [Requested (request_payload sha rq) src]) (pm_journal pm) \<Longrightarrow>
      audited sha rq (pm_journal pm) (perm_decide sha a rq r s q)" for a r s q
    by (rule audited_decide [where srcs = "[src]"]) simp
  have err: "audited sha rq (pm_journal pm) (q, Inl e)" for q e
    by (simp add: audited_def)
  show ?thesis
  proof (cases handler)
    case None
    then show ?thesis by (simp add: request_approval_def Let_def one)
  next
    case (Some ask)
    show ?thesis
    proof (cases "effective_choice rq (ap_choice (ask rq))")
      case AllowProject
      with Some show ?thesis
        by (auto simp: request_approval_def Let_def intro!: one err split: sum.split)
    qed (use Some in \<open>simp_all add: request_approval_def Let_def one del: effective_choice_deny\<close>)
  qed
qed

lemma authorize_audited: "audited sha rq (pm_journal pm) (authorize sha handler roots rq pm)"
  using authorize_cases [of sha handler roots rq pm]
proof (elim disjE exE)
  fix a r src
  assume "authorize sha handler roots rq pm = perm_decide sha a rq r src pm"
  then show ?thesis using audited_decide [where srcs = "[]" and pm = pm and journal = "pm_journal pm"]
    by (simp add: option.map_ident)
next
  fix src
  assume "authorize sha handler roots rq pm = request_approval sha handler rq src pm"
  then show ?thesis using audited_approval by simp
next
  fix e
  assume "authorize sha handler roots rq pm = (pm, Inl e)"
  then show ?thesis by (simp add: audited_def)
qed

subsection \<open>The rules file\<close>

lemma action_of_action_name [simp]: "action_of_name (action_name a) = Some a"
  by (cases a) (simp_all add: action_of_name_def action_name_def)

lemma load_entry_known:
  "load_entry scope (JObj (overlay original (known_fields ru))) = Some (ru\<lparr>ru_scope := scope\<rparr>)"
  by (simp add: load_entry_def overlay_def known_fields_def dict_get_set dict_get_or_def)

lemma load_entry_opaque: "opaque_entry v \<Longrightarrow> load_entry scope v = None"
  by (auto simp: load_entry_def opaque_entry_def jget_def dict_get_or_def action_of_name_def
      split: json.splits option.splits)

lemma load_entries_opaque: "\<forall>v\<in>set vs. opaque_entry v \<Longrightarrow> load_entries scope vs = []"
  by (induction vs) (simp_all add: load_entries_def load_entry_opaque)

lemma load_serialized:
  "\<forall>v\<in>set vs. opaque_entry v \<Longrightarrow>
     load_entries scope (fst (serialize_rules rules previous) @ vs) = map (ru_scope_update (\<lambda>_. scope)) rules"
proof (induction rules arbitrary: previous)
  case Nil
  then show ?case by (simp add: load_entries_opaque)
next
  case (Cons ru rus)
  obtain o1 p1 where "take_entry ru previous = (o1, p1)" by (cases "take_entry ru previous")
  with Cons show ?case
    by (simp add: load_entries_def load_entry_known split: prod.split) (metis fst_conv)
qed

lemma same_entry_not_opaque: "same_entry ru v \<Longrightarrow> \<not> opaque_entry v"
  by (cases v; cases "ru_action ru")
    (auto simp: same_entry_def opaque_entry_def known_fields_def jget_def dict_get_or_def action_name_def split: option.splits)

lemma take_entry_opaque: "filter opaque_entry (snd (take_entry ru vs)) = filter opaque_entry vs"
  by (induction vs) (auto split: json.split prod.split simp: same_entry_not_opaque)

lemma serialize_rules_opaque: "filter opaque_entry (snd (serialize_rules rules previous)) = filter opaque_entry previous"
proof (induction rules arbitrary: previous)
  case (Cons ru rus)
  obtain o1 p1 where take: "take_entry ru previous = (o1, p1)" by (cases "take_entry ru previous")
  with take_entry_opaque [of ru previous] have "filter opaque_entry p1 = filter opaque_entry previous" by simp
  with Cons.IH [of p1] take show ?case by (simp split: prod.split) (metis snd_conv)
qed simp

definition stored_entries :: "rule_file \<Rightarrow> json list" where
  "stored_entries file = (case file of
      Parsed (JObj d) \<Rightarrow> (case json_list_opt (dict_get_or d ''rules'' (JList [])) of Some vs \<Rightarrow> vs | None \<Rightarrow> [])
    | _ \<Rightarrow> [])"

lemma save_rules_doc:
  assumes "save_rules rules file = Inr file'"
  shows "stored_entries file' = fst (serialize_rules rules (stored_entries file)) @ filter opaque_entry (stored_entries file)
    \<and> (\<exists>d. file' = Parsed (JObj d) \<and> dict_get d ''rules'' = Some (JList (stored_entries file')))"
proof -
  have "\<exists>p. file' = Parsed (JObj (dict_set p ''rules''
      (JList (fst (serialize_rules rules (stored_entries file)) @ filter opaque_entry (snd (serialize_rules rules (stored_entries file)))))))"
    using assms
    by (auto simp: save_rules_def stored_entries_def Let_def dict_get_or_def simp del: dict_set.simps
        split: rule_file.splits json.splits if_splits prod.splits option.splits)
  then show ?thesis
    by (auto simp: serialize_rules_opaque stored_entries_def dict_get_or_def dict_get_set)
qed

lemma save_load_rules:
  assumes "save_rules rules file = Inr file'"
  shows "load_rules scope file' = Inr (map (ru_scope_update (\<lambda>_. scope)) rules)"
proof -
  obtain d where d: "file' = Parsed (JObj d)" "dict_get d ''rules'' = Some (JList (stored_entries file'))"
    and entries: "stored_entries file' = fst (serialize_rules rules (stored_entries file)) @ filter opaque_entry (stored_entries file)"
    using save_rules_doc [OF assms] by blast
  have "load_entries scope (stored_entries file') = map (ru_scope_update (\<lambda>_. scope)) rules"
    unfolding entries by (rule load_serialized) simp
  with d show ?thesis by (simp add: load_rules_def dict_get_or_def iter_of_def)
qed

end
