(* ===== verification/Py_Paths.thy ===== *)
theory Py_Paths
  imports Py_Text
begin

text \<open>
  The POSIX path arithmetic of the sources: \<open>PurePosixPath.parts\<close> and \<open>.name\<close>, and
  \<open>posixpath.normpath\<close>. Nothing here looks at a file system.
\<close>

definition path_root :: "str \<Rightarrow> str" where
  "path_root s = (if startswith s ''//'' \<and> \<not> startswith s ''///'' then ''//''
     else if startswith s ''/'' then ''/'' else [])"

definition path_segments :: "str \<Rightarrow> str list" where
  "path_segments s = filter (\<lambda>p. p \<noteq> [] \<and> p \<noteq> ''.'') (split_char (CHR 0x2F) s)"

definition path_parts :: "str \<Rightarrow> str list" where
  "path_parts s = (if path_root s = [] then [] else [path_root s]) @ path_segments s"

definition path_name :: "str \<Rightarrow> str" where
  "path_name s = (if path_segments s = [] then [] else last (path_segments s))"

text \<open>\<open>PurePosixPath(s).as_posix()\<close>, and \<open>.suffix\<close> of the last component.\<close>

definition path_posix :: "str \<Rightarrow> str" where
  "path_posix s = (let r = path_root s @ py_join ''/'' (path_segments s) in if r = [] then ''.'' else r)"

definition path_suffix :: "str \<Rightarrow> str" where
  "path_suffix s =
     (let name = path_name s;
          tail = takeWhile (\<lambda>c. c \<noteq> CHR ''.'') (rev name);
          n = length name - length tail
      in if CHR ''.'' \<in> set name \<and> 1 < n \<and> tail \<noteq> [] then CHR ''.'' # rev tail else [])"

text \<open>\<open>normpath\<close> keeps the components on a stack, the last one first.\<close>

definition norm_step :: "bool \<Rightarrow> str \<Rightarrow> str list \<Rightarrow> str list" where
  "norm_step rooted part stack =
     (if part = [] \<or> part = ''.'' then stack
      else if part \<noteq> ''..'' \<or> (\<not> rooted \<and> stack = []) \<or> (stack \<noteq> [] \<and> hd stack = ''..'') then part # stack
      else tl stack)"

definition normpath :: "str \<Rightarrow> str" where
  "normpath s =
     (let root = path_root s;
          r = root @ py_join ''/'' (rev (fold (norm_step (root \<noteq> [])) (split_char (CHR 0x2F) s) []))
      in if r = [] then ''.'' else r)"

lemma split_char_acc_no_sep: "sep \<notin> set s \<Longrightarrow> split_char_acc sep acc s = [rev acc @ s]"
  by (induction s arbitrary: acc) auto

lemma split_char_no_sep: "sep \<notin> set s \<Longrightarrow> split_char sep s = [s]"
  by (simp add: split_char_def split_char_acc_no_sep)

lemma split_char_acc_append:
  "sep \<notin> set s \<Longrightarrow> split_char_acc sep acc (s @ sep # t) = (rev acc @ s) # split_char sep t"
  by (induction s arbitrary: acc) (auto simp: split_char_def)

lemma split_char_append: "sep \<notin> set s \<Longrightarrow> split_char sep (s @ sep # t) = s # split_char sep t"
  by (simp add: split_char_def split_char_acc_append)

text \<open>Splitting what was joined gives the parts back.\<close>

lemma split_char_join:
  "xs \<noteq> [] \<Longrightarrow> \<forall>x\<in>set xs. sep \<notin> set x \<Longrightarrow> split_char sep (py_join [sep] xs) = xs"
  by (induction "[sep]" xs rule: py_join.induct) (simp_all add: split_char_no_sep split_char_append)

lemma split_char_nonempty [simp]: "split_char sep s \<noteq> []"
proof -
  have "split_char_acc sep acc s \<noteq> []" for acc
    by (induction s arbitrary: acc) auto
  then show ?thesis by (simp add: split_char_def)
qed

lemma split_char_acc_no_sep_parts:
  "x \<in> set (split_char_acc sep acc s) \<Longrightarrow> sep \<notin> set acc \<Longrightarrow> sep \<notin> set x"
proof (induction s arbitrary: acc)
  case (Cons c s)
  from Cons.prems show ?case
    using Cons.IH [of "[]"] Cons.IH [of "c # acc"] by (cases "c = sep") auto
qed auto

lemma split_char_parts: "x \<in> set (split_char sep s) \<Longrightarrow> sep \<notin> set x"
  by (auto simp: split_char_def dest: split_char_acc_no_sep_parts)

lemma join_split_char: "py_join [sep] (split_char sep s) = s"
proof -
  have "py_join [sep] (split_char_acc sep acc s) = rev acc @ s" for acc
  proof (induction s arbitrary: acc)
    case (Cons c s)
    have "split_char_acc sep [] s \<noteq> []" using split_char_nonempty [of sep s] by (simp add: split_char_def)
    then obtain y ys where "split_char_acc sep [] s = y # ys" by (cases "split_char_acc sep [] s") auto
    then show ?case using Cons by (metis append_Cons append_Nil append_assoc py_join.simps(3) rev.simps split_char_acc.simps(2))
  qed simp
  then show ?thesis by (simp add: split_char_def)
qed

lemma path_parts_component:
  "p \<noteq> [] \<Longrightarrow> p \<noteq> ''.'' \<Longrightarrow> CHR 0x2F \<notin> set p \<Longrightarrow> p \<in> set (split_char (CHR 0x2F) s) \<Longrightarrow> p \<in> set (path_parts s)"
  by (simp add: path_parts_def path_segments_def)

text \<open>\<open>path.parent\<close> of a normal path with a directory part.\<close>

definition path_parent :: "str \<Rightarrow> str" where
  "path_parent p = rev (drop 1 (dropWhile (\<lambda>c. c \<noteq> CHR ''/'') (rev p)))"

end
