(* ===== verification/Perm_Risk.thy ===== *)
theory Perm_Risk
  imports Perm_Policy Py_Paths Py_Regex Runtime_State Verification
begin

text \<open>
  \<open>forge/permissions/risk.py\<close>: from a tool call and the effect its tool declares to the request
  the permission manager decides. \<open>frepr\<close> is \<open>repr\<close> of a float. The patterns are those of the
  file; the two line-anchored ones without quantifiers over lines are read line by line.
\<close>

subsection \<open>Patterns\<close>

definition NETWORK_PATTERN :: rx where
  "NETWORK_PATTERN = seqs [WordB,
     alts [ilit ''curl'', ilit ''wget'', ilit ''Invoke-WebRequest'', ilit ''iwr'', ilit ''ssh'', ilit ''scp'',
       seqs [ilit ''git'', plus sp, alts [ilit ''clone'', ilit ''fetch'', ilit ''pull'', ilit ''push'']]],
     WordB]"

definition INSTALL_PATTERN :: rx where
  "INSTALL_PATTERN = seqs [WordB,
     alts [ilit ''pip'', ilit ''pip3'', ilit ''uv'', ilit ''npm'', ilit ''pnpm'', ilit ''yarn'', ilit ''cargo'', ilit ''gem'',
       ilit ''apt'', ilit ''apt-get'', ilit ''brew'', ilit ''winget'', ilit ''choco''],
     plus sp, alts [ilit ''install'', ilit ''add'', ilit ''sync'', ilit ''update''], WordB]"

definition DELETE_PATTERN :: rx where
  "DELETE_PATTERN = alts [
     seqs [WordB, alts [ilit ''rm'', ilit ''rmdir'', ilit ''del'', ilit ''erase'', ilit ''Remove-Item'',
       seqs [ilit ''git'', plus sp, ilit ''clean'']], WordB],
     seqs [WordB, ilit ''os.'', alts [ilit ''remove'', ilit ''unlink'', ilit ''rmdir''], Star sp, chr (CHR ''('')],
     seqs [WordB, ilit ''shutil.rmtree'', Star sp, chr (CHR ''('')],
     seqs [WordB, opt (ilit ''fs.''), alts [ilit ''unlink'', ilit ''rm'', ilit ''rmdir''], opt (ilit ''Sync''), Star sp, chr (CHR ''('')],
     seqs [ilit ''.unlink'', Star sp, chr (CHR ''('')],
     seqs [ilit ''.rmdir'', Star sp, chr (CHR ''('')]]"

definition PRIVILEGE_PATTERN :: rx where
  "PRIVILEGE_PATTERN = seqs [WordB,
     alts [ilit ''sudo'', ilit ''su'', ilit ''runas'',
       seqs [ilit ''Start-Process'', plus sp, Star (none_of [NL]), ilit ''-Verb'', plus sp, ilit ''RunAs'']],
     WordB]"

definition DESTRUCTIVE_PATTERN :: rx where
  "DESTRUCTIVE_PATTERN = seqs [WordB, ilit ''git'', plus sp,
     alts [ilit ''checkout'', ilit ''restore'', ilit ''reset'', ilit ''clean''], WordB]"

definition RM_PATTERN :: rx where
  "RM_PATTERN = seqs [WordB, ilit ''rm'', WordB]"

definition SENSITIVE_NAMES :: "str list" where
  "SENSITIVE_NAMES = [''.env'', ''id_rsa'', ''id_ed25519'', ''credentials'', ''credentials.json'', ''known_hosts'']"

text \<open>\<open>PATCH_PATH_PATTERN.findall\<close>: every line that names a file.\<close>

definition after_prefix :: "str \<Rightarrow> str \<Rightarrow> str option" where
  "after_prefix p s = (if startswith s p \<and> drop (length p) s \<noteq> [] then Some (drop (length p) s) else None)"

definition patch_path :: "str \<Rightarrow> str option" where
  "patch_path l = find_opt (\<lambda>_. True) (List.map_filter (\<lambda>p. after_prefix p l)
     [''*** Update File: '', ''*** Add File: '', ''*** Delete File: ''])"

definition patch_paths :: "str \<Rightarrow> str list" where
  "patch_paths patch = List.map_filter patch_path (split_char NL patch)"

definition patch_deletes_content :: "json \<Rightarrow> bool" where
  "patch_deletes_content value = (case value of
      JStr s \<Rightarrow>
        list_ex (\<lambda>l. startswith l ''*** Delete File:'') (split_char NL s)
        \<or> rx_search (seqs [LineStart, lit ''+++'', plus sp, lit ''/dev/null'', alts [sp, TextEnd]]) s
        \<or> rx_search (seqs [LineStart, lit ''deleted file mode'', plus sp]) s
    | _ \<Rightarrow> False)"

subsection \<open>Targets\<close>

definition call_targets :: "jdict \<Rightarrow> str list" where
  "call_targets arguments = fromkeys (
     concat (map (\<lambda>k. case jget arguments k of JStr s \<Rightarrow> (if s \<noteq> [] then [slashes s] else []) | _ \<Rightarrow> []) [''path'', ''cwd''])
     @ (case jget arguments ''patch'' of JStr p \<Rightarrow> map (\<lambda>m. slashes (py_strip m)) (patch_paths p) | _ \<Rightarrow> []))"

definition secret_name :: "str \<Rightarrow> bool" where
  "secret_name name \<longleftrightarrow> name \<in> set SENSITIVE_NAMES \<or> startswith name ''.env.'' \<and> name \<noteq> ''.env.example''"

definition target_reason :: "str \<Rightarrow> str" where
  "target_reason value =
     (let folded = map py_casefold (path_parts value) in
      if ''.forge'' \<in> set folded then ''ForgeCode control-plane paths are protected.''
      else if list_ex secret_name folded then ''Credential and secret files are protected.'' else [])"

definition unsafe_target_reason :: "str list \<Rightarrow> str" where
  "unsafe_target_reason targets = (case find_opt (\<lambda>r. r \<noteq> []) (map target_reason targets) of None \<Rightarrow> [] | Some r \<Rightarrow> r)"

subsection \<open>Shell commands\<close>

definition is_separator :: "str \<Rightarrow> bool" where
  "is_separator token \<longleftrightarrow> token \<noteq> [] \<and> list_all (\<lambda>c. c \<in> {CHR '';'', CHR ''&'', CHR ''|'', NL}) token"

fun statements :: "str list \<Rightarrow> str list list" where
  "statements [] = [[]]"
| "statements (t # ts) =
     (if is_separator t then [] # statements ts
      else (case statements ts of [] \<Rightarrow> [[t]] | w # ws \<Rightarrow> (t # w) # ws))"

fun lone_pipe :: "char option \<Rightarrow> str \<Rightarrow> bool" where
  "lone_pipe prev [] = False"
| "lone_pipe prev (c # s) =
     (c = CHR ''|'' \<and> prev \<noteq> Some (CHR ''|'') \<and> \<not> startswith s ''|'' \<or> lone_pipe (Some c) s)"

text \<open>A statement that names a privileged program and is neither a query nor plain output.\<close>

definition privileged_statement :: "str list \<Rightarrow> bool" where
  "privileged_statement words =
     (let text = py_join '' '' words in
      rx_search PRIVILEGE_PATTERN text
      \<and> (list_ex (\<lambda>c. c \<in> {CHR ''$'', CHR 0x60, CHR ''<'', CHR ''>'', BSL}) text
         \<or> \<not> (3 \<le> length words \<and> take 2 words \<in> {[''command'', ''-v''], [''command'', ''-V'']}
               \<or> words \<noteq> [] \<and> hd words \<in> {''echo'', ''printf''})))"

definition contains_privilege_command :: "str \<Rightarrow> bool" where
  "contains_privilege_command command =
     (if \<not> rx_search PRIVILEGE_PATTERN command then False
      else if lone_pipe None command \<or> list_ex (\<lambda>c. c = CHR ''$'' \<or> c = CHR 0x60) command then True
      else (case shell_tokens False command of
          None \<Rightarrow> True
        | Some tokens \<Rightarrow> list_ex privileged_statement (statements tokens)))"

definition DELETE_SHELLS :: "str list" where
  "DELETE_SHELLS = [''sh'', ''bash'', ''dash'', ''zsh'', ''cmd'', ''cmd.exe'', ''powershell'', ''pwsh'']"

fun nested_words :: "str list \<Rightarrow> str list option" where
  "nested_words [] = None"
| "nested_words (w # ws) =
     (if py_casefold w \<in> set COMMAND_FLAGS \<and> ws \<noteq> [] then Some ws else nested_words ws)"

definition nested_command :: "str list \<Rightarrow> str option" where
  "nested_command tokens = (case tokens of [] \<Rightarrow> None
     | t # ts \<Rightarrow> (if py_casefold (path_name t) \<in> set DELETE_SHELLS
          then map_option (py_join '' '') (nested_words ts) else None))"

definition is_broad :: "str \<Rightarrow> bool" where
  "is_broad value \<longleftrightarrow> normpath value \<in> {''/'', ''.'', ''..''}
     \<or> list_ex (\<lambda>c. c \<in> {CHR ''*'', CHR ''?'', CHR ''$'', CHR ''%'', CHR ''~''}) value"

definition rm_arguments :: "str list \<Rightarrow> str list \<times> bool" where
  "rm_arguments args =
     (let current = map slashes (filter (\<lambda>v. \<not> startswith v ''-'') args);
          recursive = list_ex (\<lambda>v. startswith v ''-'' \<and> CHR ''r'' \<in> set (py_casefold v)) args
      in (current, recursive \<and> (current = [] \<or> list_ex is_broad current)))"

function rm_scan :: "str list \<Rightarrow> str list \<times> bool" where
  "rm_scan [] = ([], False)"
| "rm_scan (t # ts) =
     (if py_casefold (path_name t) \<noteq> ''rm'' then rm_scan ts
      else (let (current, broad) = rm_arguments (takeWhile (\<lambda>v. \<not> is_separator v) ts);
                (targets, broad') = rm_scan (dropWhile (\<lambda>v. \<not> is_separator v) ts)
            in (current @ targets, broad \<or> broad')))"
  by pat_completeness auto
termination
  by (relation "measure length") (auto simp: le_imp_less_Suc length_dropWhile_le)

lemma casefold_invisible: "visible w = 0 \<Longrightarrow> py_casefold w = w"
  by (induction w) (auto simp: py_casefold_def lower_char_def less_eq_char_def split: if_splits)

lemma casefold_flag_visible: "py_casefold w \<in> set COMMAND_FLAGS \<Longrightarrow> 0 < visible w"
  by (rule ccontr) (use casefold_invisible [of w] in \<open>auto simp: COMMAND_FLAGS_def\<close>)

lemma nested_words_visible: "nested_words ws = Some vs \<Longrightarrow> visible (concat vs) < visible (concat ws)"
  by (induction ws) (auto split: if_splits dest: casefold_flag_visible)

lemma nested_command_visible:
  assumes "shell_tokens True command = Some tokens" "nested_command tokens = Some arg"
  shows "visible arg < visible command"
proof -
  have "visible (concat tokens) \<le> visible command"
    using lex_visible [OF assms(1) [unfolded shell_tokens_def]] by (simp add: pending_def)
  moreover have "visible arg < visible (concat tokens)"
    using assms(2) nested_words_visible
    by (fastforce simp: nested_command_def visible_join split: list.splits if_splits)
  ultimately show ?thesis by simp
qed

text \<open>The targets of \<open>rm\<close> in a command and in the command a shell is given, and whether one is broad.\<close>

function delete_scan :: "str \<Rightarrow> str list \<times> bool" where
  "delete_scan command =
     (case shell_tokens True command of
        None \<Rightarrow> ([], rx_search RM_PATTERN command)
      | Some tokens \<Rightarrow>
          (let (outer, broad) = rm_scan tokens in
           case nested_command tokens of
             None \<Rightarrow> (fromkeys outer, broad)
           | Some arg \<Rightarrow> (let (inner, broad') = delete_scan arg in (fromkeys (inner @ outer), broad' \<or> broad))))"
  by pat_completeness auto
termination
  by (relation "measure visible") (auto dest: nested_command_visible)

declare delete_scan.simps [simp del]

subsection \<open>Classification\<close>

definition effect_capability :: "str option \<Rightarrow> str" where
  "effect_capability effect =
     (if effect = Some ''workspace_write'' then ''file.write''
      else if effect = Some ''process'' then ''process.exec'' else ''file.read'')"

definition call_preview :: "(pyfloat \<Rightarrow> str) \<Rightarrow> tool_call \<Rightarrow> str" where
  "call_preview frepr call = take 500 (json_repr frepr (JObj (filter (\<lambda>kv. fst kv \<notin>
     {''content'', ''patch'', ''stdin'', ''new_text'', ''old_text''}) (tc_arguments call))))"

definition request_of :: "tool_call \<Rightarrow> str \<Rightarrow> perm_risk \<Rightarrow> str list \<Rightarrow> str \<Rightarrow> str \<Rightarrow> bool \<Rightarrow> perm_request" where
  "request_of call capability risk targets reason preview hard =
     \<lparr>pq_tool = tc_name call, pq_capability = capability, pq_risk = risk, pq_targets = targets, pq_reason = reason,
      pq_preview = preview, pq_hard_deny = hard, pq_arguments_hash = []\<rparr>"

definition classify_process :: "(pyfloat \<Rightarrow> str) \<Rightarrow> tool_call \<Rightarrow> str list \<Rightarrow> perm_request" where
  "classify_process frepr call targets =
     (let command = str_of (json_repr frepr) (dict_get_or (tc_arguments call) ''command'' (JStr []));
          stdin = str_of (json_repr frepr) (dict_get_or (tc_arguments call) ''stdin'' (JStr []));
          input = command @ [NL] @ stdin;
          (deleted, broad) = delete_scan command;
          targets = fromkeys (targets @ deleted);
          preview = take 500 input;
          denial = unsafe_target_reason targets;
          request = (\<lambda>capability risk reason hard. request_of call capability risk targets reason preview hard)
      in if denial \<noteq> [] then request ''file.delete'' CriticalRisk denial True
         else if contains_privilege_command command \<or> rx_search PRIVILEGE_PATTERN stdin
         then request ''process.privileged'' CriticalRisk ''Privilege escalation commands are forbidden.'' True
         else if rx_search DESTRUCTIVE_PATTERN input
         then request ''file.delete'' CriticalRisk ''The command can discard repository or filesystem state.'' True
         else if broad
         then request ''file.delete'' CriticalRisk ''The command contains a broad or unresolved recursive deletion target.'' True
         else if rx_search DELETE_PATTERN input then request ''file.delete'' HighRisk ''The command deletes files.'' False
         else if rx_search INSTALL_PATTERN input
         then request ''dependency.install'' HighRisk ''The command installs or updates dependencies.'' False
         else if rx_search NETWORK_PATTERN input
         then request ''network.access'' HighRisk ''The command accesses a network or remote repository.'' False
         else request ''process.exec'' LowRisk ''Local repository command.'' False)"

definition classify_tool_call :: "(pyfloat \<Rightarrow> str) \<Rightarrow> tool_call \<Rightarrow> str option \<Rightarrow> perm_request" where
  "classify_tool_call frepr call effect =
     (let targets = call_targets (tc_arguments call);
          denial = unsafe_target_reason targets;
          preview = call_preview frepr call
      in if denial \<noteq> [] then request_of call (effect_capability effect) CriticalRisk targets denial [] True
         else if effect = Some ''process'' then classify_process frepr call targets
         else if effect = Some ''workspace_write'' then
           (if tc_name call = ''remove_directory''
               \<or> tc_name call = ''apply_patch'' \<and> patch_deletes_content (jget (tc_arguments call) ''patch'')
            then request_of call ''file.delete'' HighRisk targets
              ''This call immediately deletes the listed files and does not create replacements. Only approve if that exact deletion is intended.''
              preview False
            else request_of call ''file.write'' LowRisk targets ''The tool can modify repository files.'' preview False)
         else request_of call (if targets \<noteq> [] then ''file.read'' else ''repository.read'') LowRisk targets
           ''Read-only repository operation.'' preview False)"

subsection \<open>What is never allowed\<close>

definition protected_name :: "str \<Rightarrow> bool" where
  "protected_name p \<longleftrightarrow> py_casefold p = ''.forge'' \<or> secret_name (py_casefold p)"

lemma target_reason_protected: "p \<in> set (path_parts t) \<Longrightarrow> protected_name p \<Longrightarrow> target_reason t \<noteq> []"
  by (auto simp: target_reason_def Let_def protected_name_def list_ex_iff intro: rev_image_eqI)

lemma unsafe_target_reason_protected:
  assumes "t \<in> set ts" "p \<in> set (path_parts t)" "protected_name p"
  shows "unsafe_target_reason ts \<noteq> []"
proof -
  have "find_opt (\<lambda>r. r \<noteq> []) (map target_reason ts) \<noteq> None"
    using assms target_reason_protected by (auto simp: find_opt_None)
  then show ?thesis
    by (auto simp: unsafe_target_reason_def dest: find_opt_Some)
qed

lemma request_of_hard [simp]: "pq_hard_deny (request_of call c k ts r pv h) = h"
  by (simp add: request_of_def)

text \<open>A call whose arguments name a control-plane or secret file is denied, whatever the rules say.\<close>

lemma protected_hard_deny:
  assumes "t \<in> set (call_targets (tc_arguments call))" "p \<in> set (path_parts t)" "protected_name p"
  shows "pq_hard_deny (classify_tool_call frepr call effect)"
  using unsafe_target_reason_protected [OF assms] by (simp add: classify_tool_call_def Let_def)

text \<open>A command that starts with \<open>sudo\<close>.\<close>

lemma privilege_sudo: "ends PRIVILEGE_PATTERN (None, ''sudo'' @ s) \<noteq> []" if "s = [] \<or> \<not> py_isword (hd s)"
proof -
  have "ends (ilit ''sudo'') (None, ''sudo'' @ s) = [(Some (CHR ''o''), s)]"
    by (simp add: ilit_def ichr_def)
  moreover have "word_after (Some (CHR ''o''), s) = False"
    using that by (cases s) (auto simp: word_after_def)
  moreover have "word_before (Some (CHR ''o''), s)"
    by (simp add: word_before_def) code_simp
  moreover have "word_after (None, ''sudo'' @ s)" "\<not> word_before (None, ''sudo'' @ s)"
    by (simp add: word_after_def, code_simp, simp add: word_before_def)
  ultimately show ?thesis
    by (simp add: PRIVILEGE_PATTERN_def)
qed

lemma search_privilege_sudo: "s = [] \<or> \<not> py_isword (hd s) \<Longrightarrow> rx_search PRIVILEGE_PATTERN (''sudo'' @ s)"
  using privilege_sudo [of s] by (simp add: rx_search_def)

lemma shell_tokens_sudo: "shell_tokens posix (''sudo '' @ s) = map_option ((#) ''sudo'') (shell_tokens posix s)"
  by (simp add: shell_tokens_def shell_lexer_def is_quote_def add_token_def)

lemma statements_Cons: "\<not> is_separator t \<Longrightarrow> \<exists>ws rest. statements (t # ts) = (t # ws) # rest"
  by (simp split: list.split)

lemma sudo_privileged: "contains_privilege_command (''sudo '' @ s)"
proof -
  have space: "\<not> py_isword (CHR '' '')" by code_simp
  then have "rx_search PRIVILEGE_PATTERN (''sudo '' @ s)"
    using search_privilege_sudo [of "'' '' @ s"] by simp
  moreover have "list_ex privileged_statement (statements (''sudo'' # ts))" for ts
  proof -
    obtain ws rest where st: "statements (''sudo'' # ts) = (''sudo'' # ws) # rest"
      using statements_Cons [of "''sudo''" ts] by (auto simp: is_separator_def)
    have "rx_search PRIVILEGE_PATTERN (py_join '' '' (''sudo'' # ws))"
      using search_privilege_sudo [of "[]"] search_privilege_sudo [of "'' '' @ py_join '' '' ws"] space
      by (cases ws) simp_all
    then have "privileged_statement (''sudo'' # ws)" by (simp add: privileged_statement_def Let_def)
    then show ?thesis by (simp only: st list.pred_inject list_ex_iff) simp
  qed
  ultimately show ?thesis
    by (cases "shell_tokens False s") (auto simp: contains_privilege_command_def shell_tokens_sudo simp del: append.simps)
qed

lemma sudo_hard_deny:
  assumes "dict_get (tc_arguments call) ''command'' = Some (JStr (''sudo '' @ s))"
  shows "pq_hard_deny (classify_tool_call frepr call (Some ''process''))"
proof -
  have "str_of (json_repr frepr) (dict_get_or (tc_arguments call) ''command'' (JStr [])) = ''sudo '' @ s"
    using assms by (simp add: str_of_def dict_get_or_def)
  then show ?thesis
    using sudo_privileged [of s]
    by (simp add: classify_tool_call_def classify_process_def Let_def split: prod.split del: append.simps)
qed

section \<open>Properties of the permission system\<close>

text \<open>
  C10: A request is allowed only with a justification. It is not hard-denied, no stored rule that
  matches denies it, it is a read where the mode or profile is read-only, and either the user did
  not refuse it when asked, or (external writes apart) an allow rule of greatest precedence covers
  every target, or no rule matches and the mode or an authorised write root allows it.
\<close>

theorem allowed_request_justified:
  assumes "allowed (authorize sha handler roots rq pm)"
  shows "\<not> pq_hard_deny rq
     \<and> (read_capability (pq_capability rq) \<or> pm_execution_mode pm \<noteq> Some ''read-only'' \<and> pm_mode pm \<noteq> PlanMode)
     \<and> (\<forall>ru\<in>set (all_rules pm). \<not> (rule_matches ru rq \<and> ru_action ru = Deny))
     \<and> (user_approved handler rq
        \<or> pq_capability rq \<noteq> ''mcp.write'' \<and>
          ((\<exists>ru\<in>set (all_rules pm). rule_matches ru rq \<and> ru_action ru = Allow
              \<and> (\<exists>p. ru_target ru = JStr p \<and> list_all (\<lambda>t. fnmatch t p) (pq_targets rq))
              \<and> (\<forall>r\<in>set (all_rules pm). \<not> (rule_matches r rq \<and> rule_less ru r)))
           \<or> (\<forall>ru\<in>set (all_rules pm). \<not> rule_matches ru rq) \<and> (authorized_write roots rq \<or> mode_default (pm_mode pm) rq = Allow)))"
proof -
  let ?best = "max_rule (matching_rules pm rq)"
  have best: "matching_rules pm rq \<noteq> [] \<Longrightarrow> ?best \<in> set (all_rules pm) \<and> rule_matches ?best rq"
    using max_rule_mem [of "matching_rules pm rq"] by (simp add: matching_rules_set)
  have greatest: "\<forall>r\<in>set (all_rules pm). \<not> (rule_matches r rq \<and> rule_less ?best r)"
    using max_rule_greatest [of _ "matching_rules pm rq"] by (auto simp: matching_rules_set)
  have covers: "rule_matches ?best rq \<Longrightarrow> ru_action ?best = Allow \<Longrightarrow> \<exists>p. ru_target ?best = JStr p \<and> list_all (\<lambda>t. fnmatch t p) (pq_targets rq)"
    by (cases "ru_target ?best"; cases "pq_targets rq") (auto simp: rule_matches_def fnmatch_json_def Let_def split: if_splits)
  have none: "matching_rules pm rq = [] \<Longrightarrow> \<forall>ru\<in>set (all_rules pm). \<not> rule_matches ru rq"
    using matching_rules_set [of pm rq] by auto
  show ?thesis
    using authorize_allowed_cases [OF assms] best greatest covers none by (simp add: matching_rules_set) blast
qed

definition sample_manager :: perm_state where
  "sample_manager = \<lparr>pm_mode = AutoMode, pm_execution_mode = None, pm_load_stored = True, pm_user_rules = [],
     pm_project_rules = [], pm_session_rules = [], pm_project_file = NoFile, pm_journal = Some []\<rparr>"

definition sample_shell :: "str \<Rightarrow> tool_call" where
  "sample_shell command = \<lparr>tc_index = 0, tc_id = ''a'', tc_name = ''shell'', tc_arguments = [(''command'', JStr command)]\<rparr>"

definition sample_request :: "str \<Rightarrow> perm_request" where
  "sample_request command = classify_tool_call (\<lambda>_. []) (sample_shell command) (Some ''process'')"

lemma sample_test_allowed: "allowed (authorize (\<lambda>_. []) None (\<lambda>_. False) (sample_request ''pytest -q'') sample_manager)"
  by code_simp

theorem allowed_request_justified_witness: "\<not> pq_hard_deny (sample_request ''pytest -q'')"
  using allowed_request_justified [OF sample_test_allowed] by blast

text \<open>
  A command line that starts with \<open>sudo\<close> is refused whatever follows it, and whatever the
  mode, the rules and the user say.
\<close>

theorem sudo_command_refused:
  assumes "dict_get (tc_arguments call) ''command'' = Some (JStr (''sudo '' @ s))"
  shows "\<exists>d. snd (authorize sha handler roots (classify_tool_call frepr call (Some ''process'')) pm) = Inr d \<and> de_action d = Deny"
  using authorize_refused [OF sudo_hard_deny [OF assms, of frepr]] by blast

theorem sudo_command_refused_witness:
  "\<exists>d. snd (authorize (\<lambda>_. []) (Some (\<lambda>_. \<lparr>ap_choice = AllowOnce, ap_reason = []\<rparr>)) (\<lambda>_. False)
     (classify_tool_call (\<lambda>_. []) (sample_shell ''sudo ls'') (Some ''process'')) sample_manager) = Inr d \<and> de_action d = Deny"
  by (rule sudo_command_refused [where s = "''ls''"]) (simp add: sample_shell_def dict_get_def)

text \<open>
  C11: Deciding a request changes the stored rules only when the user approved it, and then by one
  allow rule for exactly its capability, at the end of the session's or the project's rules. An
  external write never leaves a rule; a deletion leaves one in the session only, and only for a
  single target; a profile without stored rules never gains a project rule.
\<close>

theorem grants_are_narrow:
  "let pm' = fst (authorize sha handler roots rq pm) in
     same_rules pm' pm \<or> grants rq pm pm' \<and> user_approved handler rq"
  unfolding Let_def by (rule authorize_rules)

text \<open>
  A remembered deletion of a target without glob characters covers that target only: the rule
  it leaves matches a later request exactly when that request deletes this target and nothing else.
\<close>

theorem delete_grant_exact:
  assumes "pq_capability rq = ''file.delete''" and "pq_targets rq = [t]" and "plain_pattern t"
  shows "rule_matches (granted_rule SessionScope rq) rq' \<longleftrightarrow>
     pq_capability rq' = ''file.delete'' \<and> (\<forall>t'\<in>set (if pq_targets rq' = [] then [[]] else pq_targets rq'). t' = t)"
proof -
  have "plain_pattern ''file.delete''" by code_simp
  then show ?thesis
    using assms by (simp add: rule_matches_def fnmatch_json_def granted_rule_def rule_target_def fnmatch_plain Let_def list_all_iff)
qed

theorem delete_grant_exact_witness:
  "\<not> rule_matches (granted_rule SessionScope (sample_request ''rm build.log'')) (sample_request ''rm notes.txt'')"
proof -
  have "pq_capability (sample_request ''rm build.log'') = ''file.delete''"
    "pq_targets (sample_request ''rm build.log'') = [''build.log'']" "plain_pattern ''build.log''"
    "pq_targets (sample_request ''rm notes.txt'') = [''notes.txt'']"
    by code_simp+
  then show ?thesis by (simp add: delete_grant_exact)
qed

text \<open>
  Without that hypothesis it fails: the approved target is stored as a glob pattern, so a session
  grant for \<open>rm *\<close> (one target, not recursive) covers every later deletion.
\<close>

lemma delete_grant_broadens:
  "rule_matches (granted_rule SessionScope (sample_request ''rm *'')) (sample_request ''rm notes.txt'')
   \<and> effective_choice (sample_request ''rm *'') AllowSession = AllowSession"
  by code_simp

text \<open>\<open>posixpath.normpath\<close> keeps two leading slashes, so this root deletion is not hard-denied.\<close>

lemma double_slash_not_broad:
  "pq_hard_deny (sample_request ''rm -rf /'') \<and> \<not> pq_hard_deny (sample_request ''rm -rf //'')"
  by code_simp

text \<open>
  C12: Saving the project's rules and loading the file gives the same rules in the same order, and
  the entries of the document the loader does not understand stay in it.
\<close>

theorem saved_rules_reload:
  assumes "save_rules rules file = Inr file'" and "\<forall>ru\<in>set rules. ru_scope ru = ProjectScope"
  shows "load_rules ProjectScope file' = Inr rules
     \<and> (\<forall>v\<in>set (stored_entries file). opaque_entry v \<longrightarrow> v \<in> set (stored_entries file'))"
proof -
  have "map (ru_scope_update (\<lambda>_. ProjectScope)) rules = rules"
    using assms(2) by (induction rules) simp_all
  moreover have "stored_entries file' = fst (serialize_rules rules (stored_entries file)) @ filter opaque_entry (stored_entries file)"
    using save_rules_doc [OF assms(1)] by blast
  ultimately show ?thesis using save_load_rules [OF assms(1)] by simp
qed

definition sample_file :: rule_file where
  "sample_file = Parsed (JObj [(''rules'', JList [JStr ''note'', JObj [(''action'', JStr ''deny''), (''x'', JInt 1)]])])"

definition sample_rules :: "perm_rule list" where
  "sample_rules = [\<lparr>ru_action = Allow, ru_capability = JStr ''file.write'', ru_target = JStr ''src/*'', ru_scope = ProjectScope\<rparr>]"

theorem saved_rules_reload_witness:
  "\<exists>file'. save_rules sample_rules sample_file = Inr file' \<and> load_rules ProjectScope file' = Inr sample_rules"
proof -
  have "\<not> (\<exists>e. save_rules sample_rules sample_file = Inl e)" by (simp add: sample_rules_def sample_file_def save_rules_def
    dict_get_or_def dict_get_def Let_def split: prod.split)
  then obtain file' where saved: "save_rules sample_rules sample_file = Inr file'"
    by (cases "save_rules sample_rules sample_file") auto
  have "\<forall>ru\<in>set sample_rules. ru_scope ru = ProjectScope" by (simp add: sample_rules_def)
  from saved_rules_reload [OF saved this] saved show ?thesis by blast
qed

text \<open>
  C13: Every decision \<open>authorize\<close> returns is the last record of the journal, after at most
  approval requests, with the same outcome and the request it is about; the preview of an external
  write appears in no record of it.
\<close>

theorem decisions_are_audited:
  assumes "snd (authorize sha handler roots rq pm) = Inr d"
  shows "\<exists>srcs rq'. pm_journal (fst (authorize sha handler roots rq pm)) =
       map_option (\<lambda>j. j @ map (Requested rq') srcs @ [Decided (de_action d) (de_reason d) (de_source d) rq']) (pm_journal pm)
     \<and> pq_capability rq' = pq_capability rq \<and> pq_targets rq' = pq_targets rq
     \<and> (pq_capability rq = ''mcp.write'' \<and> pq_preview rq \<noteq> [] \<longrightarrow>
          pq_preview rq' = ''[redacted external write preview; sha256=''
            @ (if pq_arguments_hash rq \<noteq> [] then pq_arguments_hash rq else sha (pq_preview rq))
            @ ''; characters='' @ nat_str (length (pq_preview rq)) @ '']'')"
proof -
  have "audited sha rq (pm_journal pm) (authorize sha handler roots rq pm)" by (rule authorize_audited)
  then obtain srcs where "pm_journal (fst (authorize sha handler roots rq pm)) =
       map_option (\<lambda>j. j @ map (Requested (request_payload sha rq)) srcs
         @ [Decided (de_action d) (de_reason d) (de_source d) (request_payload sha rq)]) (pm_journal pm)"
    using assms by (auto simp: audited_def)
  then show ?thesis
    by (intro exI [of _ srcs] exI [of _ "request_payload sha rq"] conjI) (simp_all add: request_payload_def)
qed

theorem decisions_are_audited_witness:
  "\<exists>srcs rq' a r s. pm_journal (fst (authorize (\<lambda>_. []) None (\<lambda>_. False) (sample_request ''rm x'') sample_manager)) =
     Some (map (Requested rq') srcs @ [Decided a r s rq'])"
proof -
  have "case snd (authorize (\<lambda>_. []) None (\<lambda>_. False) (sample_request ''rm x'') sample_manager) of Inr d \<Rightarrow> True | Inl e \<Rightarrow> False"
    by code_simp
  then obtain d where d: "snd (authorize (\<lambda>_. []) None (\<lambda>_. False) (sample_request ''rm x'') sample_manager) = Inr d"
    by (cases "snd (authorize (\<lambda>_. []) None (\<lambda>_. False) (sample_request ''rm x'') sample_manager)") simp_all
  show ?thesis using decisions_are_audited [OF d] by (auto simp: sample_manager_def)
qed

end
