(* ===== verification/Task_State.thy ===== *)
theory Task_State
  imports Json Py_Paths
begin

text \<open>
  \<open>forge/tasks/state.py\<close> and \<open>forge/tasks/store.py\<close>: the active task, its JSON form and the task
  directory. \<open>sha\<close> is the hexadecimal SHA-256 of a text and \<open>pr\<close> is \<open>str\<close> on JSON values that are
  no strings. A file is the JSON document it holds (the encoder and decoder of the standard
  library are each other's inverse); the directory maps file names to documents.
\<close>

record task_step =
  sp_id :: str
  sp_title :: str
  sp_status :: str
  sp_evidence :: "str list"

record active_task =
  at_id :: str
  at_goal :: str
  at_status :: str
  at_requires_change :: bool
  at_planned :: bool
  at_current :: "str option"
  at_steps :: "task_step list"
  at_constraints :: "str list"
  at_scope_hints :: "str list"
  at_scope_source :: str
  at_workspace_paths :: "str list"
  at_blocked :: "str list"
  at_criteria :: "jdict list"
  at_directives :: "str list"
  at_history :: "jdict list"

definition current_step :: "active_task \<Rightarrow> task_step option" where
  "current_step t = find_opt (\<lambda>s. Some (sp_id s) = at_current t) (at_steps t)"

subsection \<open>Anchored criteria\<close>

definition str_field :: "(json \<Rightarrow> str) \<Rightarrow> jdict \<Rightarrow> str \<Rightarrow> str" where
  "str_field pr d k = str_of pr (dict_get_or d k (JStr []))"

definition criterion_id :: "(str \<Rightarrow> str) \<Rightarrow> str \<Rightarrow> str \<Rightarrow> str \<Rightarrow> str" where
  "criterion_id sha task_id quote clause =
     ''req-'' @ take 20 (sha (json_dumps (\<lambda>_. []) (JList [JStr task_id, JStr (py_strip quote), JStr clause])))"

definition anchored_criterion :: "(str \<Rightarrow> str) \<Rightarrow> (json \<Rightarrow> str) \<Rightarrow> jdict \<Rightarrow> str \<Rightarrow> jdict" where
  "anchored_criterion sha pr c task_id =
     (let quote = str_field pr c ''source_quote''; clause = str_field pr c ''clause_id'' in
      [(''source_quote'', JStr quote),
       (''condition'', JStr (str_field pr c ''condition'')),
       (''check'', JStr (str_field pr c ''check'')),
       (''clause_id'', JStr clause),
       (''id'', if json_truthy (jget c ''id'') then jget c ''id'' else JStr (criterion_id sha task_id quote clause)),
       (''origin'', dict_get_or c ''origin'' (JStr ''model_proposal'')),
       (''source_ref'', JStr (''task:'' @ task_id @ '':quote:'' @ sha quote)),
       (''revision'', dict_get_or c ''revision'' (JStr ''1''))])"

text \<open>What anchoring produces is fixed by anchoring again.\<close>

definition is_anchored :: "(str \<Rightarrow> str) \<Rightarrow> str \<Rightarrow> jdict \<Rightarrow> bool" where
  "is_anchored sha task_id c \<longleftrightarrow> (\<exists>quote cond chk clause ident origin rv.
     c = [(''source_quote'', JStr quote), (''condition'', JStr cond), (''check'', JStr chk), (''clause_id'', JStr clause),
       (''id'', ident), (''origin'', origin), (''source_ref'', JStr (''task:'' @ task_id @ '':quote:'' @ sha quote)),
       (''revision'', rv)] \<and> json_truthy ident)"

lemma anchored_is_anchored: "is_anchored sha tid (anchored_criterion sha pr c tid)"
  by (auto simp: is_anchored_def anchored_criterion_def Let_def criterion_id_def)

lemma anchored_criterion_fixed: "is_anchored sha tid c \<Longrightarrow> anchored_criterion sha pr c tid = c"
  by (auto simp: is_anchored_def anchored_criterion_def Let_def str_field_def dict_get_or_def dict_get_def str_of_def jget_def)

subsection \<open>The JSON form\<close>

definition strs_json :: "str list \<Rightarrow> json" where
  "strs_json xs = JList (map JStr xs)"

definition step_as_dict :: "task_step \<Rightarrow> json" where
  "step_as_dict s = JObj [(''id'', JStr (sp_id s)), (''title'', JStr (sp_title s)), (''status'', JStr (sp_status s)),
     (''evidence'', strs_json (sp_evidence s))]"

definition task_as_dict :: "active_task \<Rightarrow> json" where
  "task_as_dict t = JObj
     [(''id'', JStr (at_id t)), (''goal'', JStr (at_goal t)), (''status'', JStr (at_status t)),
      (''requires_change'', JBool (at_requires_change t)), (''planned'', JBool (at_planned t)),
      (''current_step_id'', case at_current t of None \<Rightarrow> JNull | Some c \<Rightarrow> JStr c),
      (''steps'', JList (map step_as_dict (at_steps t))),
      (''constraints'', strs_json (at_constraints t)), (''scope_hints'', strs_json (at_scope_hints t)),
      (''scope_source'', JStr (at_scope_source t)), (''workspace_paths'', strs_json (at_workspace_paths t)),
      (''blocked_reasons'', strs_json (at_blocked t)), (''acceptance_criteria'', JList (map JObj (at_criteria t))),
      (''user_directives'', strs_json (at_directives t)), (''acceptance_history'', JList (map JObj (at_history t)))]"

definition need :: "jdict \<Rightarrow> str \<Rightarrow> py_exn + json" where
  "need d k = (case dict_get d k of None \<Rightarrow> Inl (KeyError k) | Some v \<Rightarrow> Inr v)"

definition items_of :: "jdict \<Rightarrow> str \<Rightarrow> py_exn + json list" where
  "items_of d k = (case iter_of (dict_get_or d k (JList [])) of
      None \<Rightarrow> Inl (TypeError ''object is not iterable'') | Some vs \<Rightarrow> Inr vs)"

definition str_items :: "(json \<Rightarrow> str) \<Rightarrow> jdict \<Rightarrow> str \<Rightarrow> py_exn + str list" where
  "str_items pr d k = rbind (items_of d k) (\<lambda>vs. Inr (map (str_of pr) vs))"

fun rmap :: "('a \<Rightarrow> 'e + 'b) \<Rightarrow> 'a list \<Rightarrow> 'e + 'b list" where
  "rmap f [] = Inr []"
| "rmap f (x # xs) = rbind (f x) (\<lambda>y. rbind (rmap f xs) (\<lambda>ys. Inr (y # ys)))"

definition step_from_dict :: "(json \<Rightarrow> str) \<Rightarrow> jdict \<Rightarrow> py_exn + task_step" where
  "step_from_dict pr d =
     rbind (need d ''id'') (\<lambda>i. rbind (need d ''title'') (\<lambda>title. rbind (str_items pr d ''evidence'') (\<lambda>ev.
       Inr \<lparr>sp_id = str_of pr i, sp_title = str_of pr title,
            sp_status = str_of pr (dict_get_or d ''status'' (JStr ''pending'')), sp_evidence = ev\<rparr>)))"

text \<open>\<open>dict(item)\<close>; a non-empty list of pairs, which \<open>dict\<close> also accepts, is no history entry.\<close>

definition dict_of :: "json \<Rightarrow> py_exn + jdict" where
  "dict_of v = (case v of JObj d \<Rightarrow> Inr d | JList [] \<Rightarrow> Inr [] | JStr [] \<Rightarrow> Inr []
     | _ \<Rightarrow> Inl (TypeError ''cannot convert to dict''))"

definition task_from_dict :: "(str \<Rightarrow> str) \<Rightarrow> (json \<Rightarrow> str) \<Rightarrow> jdict \<Rightarrow> py_exn + active_task" where
  "task_from_dict sha pr d =
     rbind (need d ''id'') (\<lambda>i. rbind (need d ''goal'') (\<lambda>goal.
     rbind (items_of d ''steps'') (\<lambda>raw_steps.
     rbind (rmap (step_from_dict pr) (List.map_filter json_obj_opt raw_steps)) (\<lambda>steps.
     rbind (str_items pr d ''constraints'') (\<lambda>constraints. rbind (str_items pr d ''scope_hints'') (\<lambda>hints.
     rbind (str_items pr d ''workspace_paths'') (\<lambda>paths. rbind (str_items pr d ''blocked_reasons'') (\<lambda>blocked.
     rbind (items_of d ''acceptance_criteria'') (\<lambda>criteria. rbind (str_items pr d ''user_directives'') (\<lambda>directives.
     rbind (items_of d ''acceptance_history'') (\<lambda>raw_history. rbind (rmap dict_of raw_history) (\<lambda>history.
     Inr \<lparr>at_id = str_of pr i, at_goal = str_of pr goal,
          at_status = str_of pr (dict_get_or d ''status'' (JStr ''in_progress'')),
          at_requires_change = json_truthy (dict_get_or d ''requires_change'' (JBool False)),
          at_planned = json_truthy (dict_get_or d ''planned'' (JBool False)),
          at_current = (case jget d ''current_step_id'' of JNull \<Rightarrow> None | v \<Rightarrow> Some (str_of pr v)),
          at_steps = steps, at_constraints = constraints, at_scope_hints = hints,
          at_scope_source = str_of pr (dict_get_or d ''scope_source''
             (JStr (if json_truthy (jget d ''scope_hints'') then ''explicit'' else ''repository''))),
          at_workspace_paths = paths, at_blocked = blocked,
          at_criteria = map (\<lambda>c. anchored_criterion sha pr c (str_of pr i)) (List.map_filter json_obj_opt criteria),
          at_directives = directives, at_history = history\<rparr>))))))))))))"

definition task_ok :: "(str \<Rightarrow> str) \<Rightarrow> active_task \<Rightarrow> bool" where
  "task_ok sha t \<longleftrightarrow> (\<forall>c\<in>set (at_criteria t). is_anchored sha (at_id t) c)"

lemma iter_strs [simp]: "iter_of (strs_json xs) = Some (map JStr xs)"
  by (simp add: iter_of_def strs_json_def)

lemma str_of_strs [simp]: "map (str_of pr) (map JStr xs) = xs"
  by (induction xs) (simp_all add: str_of_def)

lemma map_filter_objs [simp]: "List.map_filter json_obj_opt (map JObj ds) = ds"
  by (induction ds) (simp_all add: List.map_filter_simps)

lemma str_items_strs: "dict_get d k = Some (strs_json xs) \<Longrightarrow> str_items pr d k = Inr xs"
  by (simp add: str_items_def items_of_def dict_get_or_def comp_def str_of_def)

lemma step_roundtrip:
  "\<exists>d. step_as_dict s = JObj d \<and> step_from_dict pr d = Inr s"
  by (simp add: step_as_dict_def step_from_dict_def need_def dict_get_Cons dict_get_or_def str_of_def
      str_items_strs [where xs = "sp_evidence s"])

lemma steps_roundtrip:
  "rmap (step_from_dict pr) (List.map_filter json_obj_opt (map step_as_dict ss)) = Inr ss"
proof (induction ss)
  case (Cons s ss)
  obtain d where "step_as_dict s = JObj d" "step_from_dict pr d = Inr s" using step_roundtrip by blast
  with Cons show ?case by (simp add: List.map_filter_simps)
qed (simp add: List.map_filter_simps)

lemma dicts_roundtrip: "rmap dict_of (map JObj ds) = Inr ds"
  by (induction ds) (simp_all add: dict_of_def)

lemma task_roundtrip:
  assumes "task_ok sha t"
  shows "\<exists>d. task_as_dict t = JObj d \<and> task_from_dict sha pr d = Inr t"
proof -
  have crit: "map (\<lambda>c. anchored_criterion sha pr c (at_id t)) (at_criteria t) = at_criteria t"
    using assms by (simp add: task_ok_def anchored_criterion_fixed map_idI)
  obtain d where d: "task_as_dict t = JObj d" by (simp add: task_as_dict_def)
  have lists: "items_of d ''steps'' = Inr (map step_as_dict (at_steps t))"
    "items_of d ''acceptance_criteria'' = Inr (map JObj (at_criteria t))"
    "items_of d ''acceptance_history'' = Inr (map JObj (at_history t))"
    using d by (auto simp: task_as_dict_def items_of_def dict_get_or_def dict_get_Cons iter_of_def)
  have strs: "str_items pr d ''constraints'' = Inr (at_constraints t)" "str_items pr d ''scope_hints'' = Inr (at_scope_hints t)"
    "str_items pr d ''workspace_paths'' = Inr (at_workspace_paths t)" "str_items pr d ''blocked_reasons'' = Inr (at_blocked t)"
    "str_items pr d ''user_directives'' = Inr (at_directives t)"
    using d by (auto intro!: str_items_strs simp: task_as_dict_def dict_get_Cons)
  have rest: "need d ''id'' = Inr (JStr (at_id t))" "need d ''goal'' = Inr (JStr (at_goal t))"
    "dict_get d ''status'' = Some (JStr (at_status t))" "dict_get d ''requires_change'' = Some (JBool (at_requires_change t))"
    "dict_get d ''planned'' = Some (JBool (at_planned t))"
    "jget d ''current_step_id'' = (case at_current t of None \<Rightarrow> JNull | Some c \<Rightarrow> JStr c)"
    "dict_get d ''scope_source'' = Some (JStr (at_scope_source t))"
    using d by (auto simp: task_as_dict_def need_def dict_get_Cons jget_def dict_get_or_def)
  have current: "(case jget d ''current_step_id'' of JNull \<Rightarrow> None | v \<Rightarrow> Some (str_of pr v)) = at_current t"
    by (simp add: rest(6) str_of_def split: option.split)
  show ?thesis
    using d by (simp add: task_from_dict_def lists strs rest(1-5,7) current steps_roundtrip dicts_roundtrip crit
        dict_get_or_def str_of_def)
qed

section \<open>The task directory\<close>

text \<open>
  The contract a task store keeps with its client: a saved task is the one loaded under its id,
  other ids are untouched, and nothing is saved that is no plan. \<open>good\<close> is what the stored form
  preserves.
\<close>

locale task_storage =
  fixes save :: "active_task \<Rightarrow> 'f \<Rightarrow> py_exn + 'f"
    and load :: "str \<Rightarrow> 'f \<Rightarrow> py_exn + active_task"
    and good :: "active_task \<Rightarrow> bool"
    and valid_id :: "str \<Rightarrow> bool"
  assumes save_planned: "save t f = Inr f' \<Longrightarrow> at_planned t"
    and save_succeeds: "at_planned t \<Longrightarrow> \<exists>f'. save t f = Inr f'"
    and load_saved: "save t f = Inr f' \<Longrightarrow> good t \<Longrightarrow> valid_id (at_id t) \<Longrightarrow> load (at_id t) f' = Inr t"
    and load_other: "save t f = Inr f' \<Longrightarrow> i \<noteq> at_id t \<Longrightarrow> load i f' = load i f"
    and load_valid: "load i f = Inr t \<Longrightarrow> valid_id i"
begin

definition all_stored :: "(active_task \<Rightarrow> bool) \<Rightarrow> 'f \<Rightarrow> bool" where
  "all_stored P f \<longleftrightarrow> (\<forall>i t. load i f = Inr t \<longrightarrow> P t)"

text \<open>Saving a good task that has the property keeps it of everything stored.\<close>

lemma all_stored_save:
  assumes "save t f = Inr f'" "good t" "P t" "all_stored P f"
  shows "all_stored P f'"
  unfolding all_stored_def
proof (intro allI impI)
  fix i u
  assume u: "load i f' = Inr u"
  show "P u"
  proof (cases "i = at_id t")
    case True
    then have "load (at_id t) f' = Inr t" using assms load_valid [OF u] load_saved by blast
    with True u assms(3) show ?thesis by simp
  next
    case False
    then show ?thesis using assms u load_other by (auto simp: all_stored_def)
  qed
qed

lemma all_stored_load: "all_stored P f \<Longrightarrow> load i f = Inr t \<Longrightarrow> P t"
  by (auto simp: all_stored_def)

end

type_synonym task_dir = "(str, json) dict"

definition task_file :: "str \<Rightarrow> str" where
  "task_file i = i @ ''.json''"

definition current_file :: str where
  "current_file = ''current.json''"

definition store_save :: "active_task \<Rightarrow> task_dir \<Rightarrow> py_exn + task_dir" where
  "store_save t dir =
     (if \<not> at_planned t then Inl (ValueError ''Only planned tasks are persisted.'')
      else Inr (dict_set (dict_set dir (task_file (at_id t)) (task_as_dict t)) current_file (task_as_dict t)))"

text \<open>\<open>task-[0-9a-f]{12}\<close>\<close>

definition valid_task_id :: "str \<Rightarrow> bool" where
  "valid_task_id i \<longleftrightarrow> startswith i ''task-'' \<and> length i = 17
     \<and> list_all (\<lambda>c. py_isdigit c \<or> c \<in> {CHR ''a'', CHR ''b'', CHR ''c'', CHR ''d'', CHR ''e'', CHR ''f''}) (drop 5 i)"

definition store_read :: "(str \<Rightarrow> str) \<Rightarrow> (json \<Rightarrow> str) \<Rightarrow> str \<Rightarrow> task_dir \<Rightarrow> py_exn + active_task" where
  "store_read sha pr name dir =
     (case dict_get dir name of
        None \<Rightarrow> Inl (OSError ''No such file or directory'')
      | Some (JObj d) \<Rightarrow> task_from_dict sha pr d
      | Some _ \<Rightarrow> Inl (ValueError (''Invalid task file: '' @ name)))"

definition store_load :: "(str \<Rightarrow> str) \<Rightarrow> (json \<Rightarrow> str) \<Rightarrow> str \<Rightarrow> task_dir \<Rightarrow> py_exn + active_task" where
  "store_load sha pr i dir =
     (if \<not> valid_task_id i then Inl (ValueError (''Invalid task ID: '' @ i))
      else store_read sha pr (task_file i) dir)"

definition store_load_current :: "(str \<Rightarrow> str) \<Rightarrow> (json \<Rightarrow> str) \<Rightarrow> task_dir \<Rightarrow> py_exn + active_task option" where
  "store_load_current sha pr dir =
     (if dict_get dir current_file = None then Inr None else rbind (store_read sha pr current_file dir) (\<lambda>t. Inr (Some t)))"

text \<open>\<open>task-*.json\<close> in the order of the file names; unreadable files are skipped.\<close>

definition store_list :: "(str \<Rightarrow> str) \<Rightarrow> (json \<Rightarrow> str) \<Rightarrow> task_dir \<Rightarrow> active_task list" where
  "store_list sha pr dir = List.map_filter
     (\<lambda>name. case store_read sha pr name dir of Inr t \<Rightarrow> Some t | Inl _ \<Rightarrow> None)
     (sort (filter (\<lambda>n. startswith n ''task-'' \<and> endswith n ''.json'') (map fst dir)))"

lemma task_file_not_current: "valid_task_id i \<Longrightarrow> task_file i \<noteq> current_file"
  by (cases i) (auto simp: task_file_def current_file_def valid_task_id_def)

lemma task_file_inject [simp]: "task_file i = task_file j \<longleftrightarrow> i = j"
  by (simp add: task_file_def)

interpretation task_files: task_storage store_save "store_load sha pr" "task_ok sha" valid_task_id
  for sha :: "str \<Rightarrow> str" and pr :: "json \<Rightarrow> str"
proof
  fix t :: active_task and f f' :: task_dir and i :: str
  show "store_save t f = Inr f' \<Longrightarrow> at_planned t"
    by (simp add: store_save_def split: if_splits)
  show "at_planned t \<Longrightarrow> \<exists>f'. store_save t f = Inr f'"
    by (simp add: store_save_def)
  show "store_load sha pr i f = Inr t \<Longrightarrow> valid_task_id i"
    by (simp add: store_load_def split: if_splits)
  show "store_save t f = Inr f' \<Longrightarrow> i \<noteq> at_id t \<Longrightarrow> store_load sha pr i f' = store_load sha pr i f"
    by (auto simp: store_save_def store_load_def store_read_def dict_get_set task_file_not_current split: if_splits)
  assume "store_save t f = Inr f'" "task_ok sha t" "valid_task_id (at_id t)"
  moreover obtain d where "task_as_dict t = JObj d" "task_from_dict sha pr d = Inr t"
    using task_roundtrip [OF \<open>task_ok sha t\<close>] by blast
  ultimately show "store_load sha pr (at_id t) f' = Inr t"
    by (auto simp: store_save_def store_load_def store_read_def dict_get_set task_file_not_current split: if_splits)
qed

lemma load_current_saved:
  assumes "store_save t f = Inr f'" and "task_ok sha t"
  shows "store_load_current sha pr f' = Inr (Some t)"
proof -
  obtain d where d: "task_as_dict t = JObj d" "task_from_dict sha pr d = Inr t"
    using task_roundtrip [OF assms(2)] by blast
  have "dict_get f' current_file = Some (task_as_dict t)"
    using assms(1) by (auto simp: store_save_def dict_get_set split: if_splits)
  with d show ?thesis by (simp add: store_load_current_def store_read_def)
qed

end
