(* ===== verification/Task_Manager.thy ===== *)
theory Task_Manager
  imports Task_State Py_Regex
begin

text \<open>
  \<open>forge/tasks/manager.py\<close>: the anchored goal of a session and its optional plan. The manager's
  state is the active task, the latest directive and the task directory; an operation gives the
  next state and either an exception or the task it returns. Fresh identifiers (\<open>uuid4().hex\<close>)
  are arguments. Texts are Latin-1, so the Chinese alternatives of the scope patterns never match
  and are left out.
\<close>

record task_manager =
  tm_active :: "active_task option"
  tm_directive :: str
  tm_dir :: task_dir

type_synonym task_result = "task_manager \<times> (py_exn + active_task option)"

section \<open>Texts, paths and patterns\<close>

text \<open>The text that matches the words of a quote, separated by any white space, at a position.\<close>

fun match_words :: "str list \<Rightarrow> str \<Rightarrow> str option" where
  "match_words [] s = Some []"
| "match_words [w] s = (if startswith s w then Some w else None)"
| "match_words (w # x # ws) s =
     (if startswith s w then
        (let r = drop (length w) s; gap = takeWhile py_isspace r in
         if gap = [] then None
         else map_option (\<lambda>m. w @ gap @ m) (match_words (x # ws) (drop (length gap) r)))
      else None)"

fun search_words :: "str list \<Rightarrow> str \<Rightarrow> str option" where
  "search_words ws [] = match_words ws []"
| "search_words ws (c # s) = (case match_words ws (c # s) of Some m \<Rightarrow> Some m | None \<Rightarrow> search_words ws s)"

definition quote_error :: str where
  "quote_error = ''Acceptance source_quote must quote the original user goal or directive exactly (whitespace may differ)''"

definition anchored_source_quote :: "str \<Rightarrow> str list \<Rightarrow> py_exn + str" where
  "anchored_source_quote quote sources =
     (let words = split_ws quote in
      if words = [] then Inl (ValueError quote_error)
      else (case find_opt (\<lambda>_. True) (List.map_filter (search_words words) sources) of
          Some m \<Rightarrow> Inr m
        | None \<Rightarrow> Inl (ValueError quote_error)))"

definition normalize_task_path :: "str \<Rightarrow> str" where
  "normalize_task_path p = path_posix (slashes (py_strip p))"

definition strip_slash :: "str \<Rightarrow> str" where
  "strip_slash s = rstrip_chars [CHR ''/''] (lstrip_chars [CHR ''/''] s)"

definition name_char :: "char \<Rightarrow> bool" where
  "name_char c \<longleftrightarrow> py_isalpha_ascii c \<or> py_isdigit c \<or> c = CHR ''_'' \<or> c = CHR ''-''"

definition SEGMENT :: rx where
  "SEGMENT = Seq (Cls name_char) (opt (Seq (Star (Cls (\<lambda>c. name_char c \<or> c = CHR ''.''))) (Cls name_char)))"

definition REPOSITORY_PATH :: rx where
  "REPOSITORY_PATH = Seq SEGMENT (Star (Seq (any_of [CHR ''/'', BSL]) SEGMENT))"

definition ARTICLE :: rx where
  "ARTICLE = opt (Seq (ilit ''the'') (plus sp))"

definition FOLDER :: rx where
  "FOLDER = Seq (plus sp) (alts [ilit ''directory'', ilit ''folder''])"

definition file_scope :: "str \<Rightarrow> str option" where
  "file_scope goal =
     (case rx_capture (seqs [WordB, ilit ''only'', plus sp, alts [ilit ''inside'', ilit ''in'', ilit ''within''], plus sp, ARTICLE])
        REPOSITORY_PATH WordB goal of
        None \<Rightarrow> None
      | Some g \<Rightarrow> (let path = strip_slash (normalize_task_path g) in
          if path \<noteq> [] \<and> path_suffix path \<noteq> [] then Some path else None))"

definition directory_patterns :: "(rx \<times> rx) list" where
  "directory_patterns =
     [(seqs [WordB, alts [ilit ''inside'', ilit ''under'', ilit ''within''], plus sp, ARTICLE,
         Star (Seq (alts [ilit ''currently'', ilit ''current'', ilit ''clean'', ilit ''existing'', ilit ''new'', ilit ''empty''])
           (plus sp))], Seq FOLDER WordB),
      (seqs [WordB, ilit ''in'', plus sp, ARTICLE], Seq FOLDER WordB),
      (seqs [WordB, alts [ilit ''inside'', ilit ''under'', ilit ''within''], plus sp, ARTICLE], opt FOLDER)]"

definition directory_scope :: "str \<Rightarrow> rx \<times> rx \<Rightarrow> str option" where
  "directory_scope goal ab =
     (case rx_capture (fst ab) REPOSITORY_PATH (snd ab) goal of
        None \<Rightarrow> None
      | Some g \<Rightarrow> (let path = strip_slash (normalize_task_path g) in
          if path \<noteq> [] \<and> path \<notin> {''.'', ''..''} then Some (path @ ''/**'') else None))"

definition infer_goal_scope :: "str \<Rightarrow> str list" where
  "infer_goal_scope goal =
     (case file_scope goal of
        Some path \<Rightarrow> [path]
      | None \<Rightarrow> take 1 (List.map_filter (directory_scope goal) directory_patterns))"

definition normalize_step_id :: "str \<Rightarrow> str" where
  "normalize_step_id step_id =
     (let cleaned = py_strip step_id;
          tail = drop 4 cleaned;
          digits = (if tail \<noteq> [] \<and> hd tail \<in> {CHR ''-'', CHR ''_'', CHR '' ''} then tl tail else tail)
      in if cleaned \<noteq> [] \<and> list_all py_isdigit cleaned then ''step-'' @ nat_str (parse_nat cleaned)
         else if py_lower (take 4 cleaned) = ''step'' \<and> digits \<noteq> [] \<and> list_all py_isdigit digits
         then ''step-'' @ nat_str (parse_nat digits)
         else cleaned)"

definition under :: "str \<Rightarrow> str \<Rightarrow> bool" where
  "under candidate base \<longleftrightarrow> candidate = base \<or> startswith candidate (base @ ''/'')"

definition task_path_matches :: "str \<Rightarrow> str \<Rightarrow> bool" where
  "task_path_matches path pattern =
     (let candidate = normalize_task_path path; pat = slashes (py_strip pattern) in
      if pat \<in> {[], ''.'', ''./''} then True
      else if endswith pat ''/**'' then under candidate (rstrip_chars [CHR ''/''] (take (length pat - 3) pat))
      else if \<not> list_ex (\<lambda>c. c \<in> {CHR ''*'', CHR ''?'', CHR ''[''}) pat
      then under candidate (rstrip_chars [CHR ''/''] pat)
      else fnmatch candidate pat)"

definition clean_strings :: "str list \<Rightarrow> str \<Rightarrow> nat \<Rightarrow> py_exn + str list" where
  "clean_strings values name maximum =
     (if length values > maximum
      then Inl (ValueError (name @ '' may contain at most '' @ nat_str maximum @ '' items.''))
      else (let cleaned = map py_strip values in
        if list_ex (\<lambda>v. v = []) cleaned then Inl (ValueError (name @ '' must not contain empty items.''))
        else if list_ex (\<lambda>v. length v > 1000) cleaned
        then Inl (ValueError (name @ '' items are limited to 1000 characters.''))
        else Inr (fromkeys cleaned)))"

definition bounded :: "str \<Rightarrow> nat \<Rightarrow> str" where
  "bounded value maximum =
     (if length value \<le> maximum then value else take maximum value @ [NL] @ ''[Task goal truncated for model context.]'')"

section \<open>Operations\<close>

definition tm_fail :: "str \<Rightarrow> task_manager \<Rightarrow> task_result" where
  "tm_fail message tm = (tm, Inl (ValueError message))"

definition tm_save :: "active_task \<Rightarrow> task_manager \<Rightarrow> task_result" where
  "tm_save t tm =
     (case store_save t (tm_dir tm) of
        Inl e \<Rightarrow> (tm\<lparr>tm_active := Some t\<rparr>, Inl e)
      | Inr dir \<Rightarrow> (tm\<lparr>tm_active := Some t, tm_dir := dir\<rparr>, Inr (Some t)))"

definition tm_commit :: "active_task \<Rightarrow> task_manager \<Rightarrow> task_result" where
  "tm_commit t tm = (if at_planned t then tm_save t tm else (tm\<lparr>tm_active := Some t\<rparr>, Inr (Some t)))"

definition new_task :: "str \<Rightarrow> str \<Rightarrow> bool \<Rightarrow> str \<Rightarrow> active_task" where
  "new_task uuid goal requires_change scope_source =
     \<lparr>at_id = ''task-'' @ take 12 uuid, at_goal = goal, at_status = ''in_progress'', at_requires_change = requires_change,
      at_planned = False, at_current = None, at_steps = [], at_constraints = [], at_scope_hints = infer_goal_scope goal,
      at_scope_source = scope_source, at_workspace_paths = [], at_blocked = [], at_criteria = [], at_directives = [],
      at_history = []\<rparr>"

definition task_start :: "str \<Rightarrow> str \<Rightarrow> bool \<Rightarrow> str option \<Rightarrow> task_manager \<Rightarrow> task_result" where
  "task_start uuid goal requires_change scope_source tm =
     (let clean = py_strip goal in
      if clean = [] then tm_fail ''Task goal must not be empty.'' tm
      else (let t = new_task uuid clean requires_change (case scope_source of Some s \<Rightarrow> s | None \<Rightarrow> ''repository'') in
        (tm\<lparr>tm_active := Some t, tm_directive := []\<rparr>, Inr (Some t))))"

definition begin_turn :: "str \<Rightarrow> str \<Rightarrow> bool \<Rightarrow> task_manager \<Rightarrow> task_result" where
  "begin_turn uuid goal requires_change tm = task_start uuid goal requires_change None tm"

definition continue_active :: "str \<Rightarrow> bool \<Rightarrow> task_manager \<Rightarrow> task_result" where
  "continue_active directive requires_change tm =
     (case tm_active tm of
        None \<Rightarrow> tm_fail ''No active task.'' tm
      | Some t \<Rightarrow> tm_commit (t\<lparr>at_status := ''in_progress'', at_requires_change := at_requires_change t \<or> requires_change,
            at_blocked := [], at_directives := fromkeys (at_directives t @ [py_strip directive])\<rparr>)
          (tm\<lparr>tm_directive := py_strip directive\<rparr>))"

definition task_restore :: "active_task option \<Rightarrow> task_manager \<Rightarrow> task_manager" where
  "task_restore t tm = tm\<lparr>tm_active := t, tm_directive := []\<rparr>"

definition require_workspace_change :: "task_manager \<Rightarrow> task_result" where
  "require_workspace_change tm =
     (case tm_active tm of
        None \<Rightarrow> (tm, Inr None)
      | Some t \<Rightarrow> (if at_requires_change t then (tm, Inr (Some t)) else tm_commit (t\<lparr>at_requires_change := True\<rparr>) tm))"

subsection \<open>Acceptance criteria\<close>

type_synonym source_id = "str \<times> json"

definition source_key :: "(json \<Rightarrow> str) \<Rightarrow> jdict \<Rightarrow> source_id" where
  "source_key pr c = (py_strip (str_field pr c ''source_quote''), dict_get_or c ''clause_id'' (JStr []))"

definition quoted_criterion :: "(json \<Rightarrow> str) \<Rightarrow> active_task \<Rightarrow> jdict \<Rightarrow> py_exn + jdict" where
  "quoted_criterion pr t c =
     rbind (anchored_source_quote (str_field pr c ''source_quote'') (at_goal t # at_directives t))
       (\<lambda>quote. Inr (dict_set c ''source_quote'' (JStr quote)))"

definition merge_step :: "(str \<Rightarrow> str) \<Rightarrow> (json \<Rightarrow> str) \<Rightarrow> str \<Rightarrow> jdict \<Rightarrow> (json, jdict) dict \<times> source_id list
     \<Rightarrow> (json, jdict) dict \<times> source_id list" where
  "merge_step sha pr task_id c st =
     (if source_key pr c \<in> set (snd st) then st
      else (let item = anchored_criterion sha pr c task_id in
        (dict_set (fst st) (jget item ''id'') item, source_key pr c # snd st)))"

definition by_id :: "jdict list \<Rightarrow> (json, jdict) dict" where
  "by_id cs = fold (\<lambda>c d. dict_set d (jget c ''id'') c) cs []"

definition merge_acceptance :: "(str \<Rightarrow> str) \<Rightarrow> (json \<Rightarrow> str) \<Rightarrow> active_task \<Rightarrow> jdict list \<Rightarrow> py_exn + jdict list" where
  "merge_acceptance sha pr t criteria =
     rbind (rmap (quoted_criterion pr t) criteria) (\<lambda>criteria.
       let anchored = by_id (at_criteria t);
           merged = fst (fold (merge_step sha pr (at_id t)) criteria (anchored, map (source_key pr) (dict_values anchored)))
       in if length merged > 64
          then Inl (ValueError ''At most 64 distinct acceptance interpretations may be retained per task.'')
          else Inr (dict_values merged))"

definition register_acceptance :: "(str \<Rightarrow> str) \<Rightarrow> (json \<Rightarrow> str) \<Rightarrow> jdict list \<Rightarrow> task_manager \<Rightarrow> task_result" where
  "register_acceptance sha pr criteria tm =
     (case tm_active tm of
        None \<Rightarrow> tm_fail ''No active task.'' tm
      | Some t \<Rightarrow> (case merge_acceptance sha pr t criteria of
            Inl e \<Rightarrow> (tm, Inl e)
          | Inr retained \<Rightarrow> tm_commit (t\<lparr>at_criteria := retained\<rparr>) tm))"

definition revised_criterion :: "(str \<Rightarrow> str) \<Rightarrow> (json \<Rightarrow> str) \<Rightarrow> str \<Rightarrow> active_task \<Rightarrow> jdict \<Rightarrow> jdict \<Rightarrow> py_exn + jdict" where
  "revised_criterion sha pr uuid t old replacement =
     rbind (quoted_criterion pr t replacement) (\<lambda>replacement.
       case int_of (dict_get_or old ''revision'' (JStr ''1'')) of
         None \<Rightarrow> Inl (ValueError ''invalid literal for int()'')
       | Some n \<Rightarrow> Inr (dict_set (dict_set (anchored_criterion sha pr replacement (at_id t))
             ''id'' (JStr (''req-'' @ take 20 uuid))) ''revision'' (JStr (int_str (n + 1)))))"

definition revise_acceptance ::
  "(str \<Rightarrow> str) \<Rightarrow> (json \<Rightarrow> str) \<Rightarrow> str \<Rightarrow> str \<Rightarrow> jdict option \<Rightarrow> str \<Rightarrow> task_manager \<Rightarrow> task_result" where
  "revise_acceptance sha pr uuid requirement_id replacement reason tm =
     (case tm_active tm of
        None \<Rightarrow> tm_fail ''No active task.'' tm
      | Some t \<Rightarrow>
          (case find_opt (\<lambda>c. jget c ''id'' = JStr requirement_id) (at_criteria t) of
             None \<Rightarrow> tm_fail ''Unknown active requirement ID'' tm
           | Some old \<Rightarrow>
               if jget old ''origin'' \<noteq> JStr ''model_proposal'' then tm_fail ''Caller requirements cannot be revised by the model'' tm
               else if py_strip reason = [] then tm_fail ''A revision reason is required'' tm
               else
                 (case (case replacement of None \<Rightarrow> Inr []
                      | Some r \<Rightarrow> rbind (revised_criterion sha pr uuid t old r) (\<lambda>c. Inr [c])) of
                    Inl e \<Rightarrow> (tm, Inl e)
                  | Inr new \<Rightarrow> tm_commit (t\<lparr>
                        at_criteria := filter (\<lambda>c. jget c ''id'' \<noteq> JStr requirement_id) (at_criteria t) @ new,
                        at_history := at_history t @ [dict_set (dict_set old ''status''
                            (JStr (if replacement = None then ''retracted'' else ''superseded'')))
                            ''revision_reason'' (JStr (py_strip reason))]\<rparr>) tm)))"

subsection \<open>The plan\<close>

definition plan_steps :: "str list \<Rightarrow> task_step list" where
  "plan_steps titles = map (\<lambda>(i, title). \<lparr>sp_id = ''step-'' @ nat_str i, sp_title = title,
     sp_status = (if i = 1 then ''in_progress'' else ''pending''), sp_evidence = []\<rparr>) (enumerate 1 titles)"

definition planned_task ::
  "(str \<Rightarrow> str) \<Rightarrow> (json \<Rightarrow> str) \<Rightarrow> str list \<Rightarrow> str list \<Rightarrow> str list \<Rightarrow> bool \<Rightarrow> jdict list \<Rightarrow> active_task \<Rightarrow>
     py_exn + active_task" where
  "planned_task sha pr steps constraints scope_hints replace_existing criteria t =
     rbind (merge_acceptance sha pr t criteria) (\<lambda>anchored.
     guard (at_planned t \<and> \<not> replace_existing)
       (ValueError ''The current task already has a plan. Update its steps instead.'')
     (rbind (clean_strings steps ''steps'' 20) (\<lambda>titles.
      guard (length titles < 2) (ValueError ''A task plan requires at least two steps.'')
      (let keep = at_scope_source t = ''explicit'' \<and> at_scope_hints t \<noteq> [] \<or> scope_hints = [] in
       rbind (if keep then Inr (at_scope_hints t) else clean_strings scope_hints ''scope_hints'' 50) (\<lambda>hints.
       rbind (clean_strings constraints ''constraints'' 50) (\<lambda>constraints.
       Inr (t\<lparr>at_status := ''in_progress'', at_planned := True, at_current := Some (sp_id (hd (plan_steps titles))),
          at_steps := plan_steps titles, at_constraints := constraints, at_scope_hints := hints,
          at_scope_source := (if keep then at_scope_source t else ''planned''), at_blocked := [],
          at_criteria := anchored\<rparr>)))))))"

definition task_plan ::
  "(str \<Rightarrow> str) \<Rightarrow> (json \<Rightarrow> str) \<Rightarrow> str list \<Rightarrow> str list \<Rightarrow> str list \<Rightarrow> bool \<Rightarrow> jdict list \<Rightarrow> task_manager \<Rightarrow> task_result" where
  "task_plan sha pr steps constraints scope_hints replace_existing criteria tm =
     (case tm_active tm of
        None \<Rightarrow> tm_fail ''No active task.'' tm
      | Some t \<Rightarrow>
          (case planned_task sha pr steps constraints scope_hints replace_existing criteria t of
             Inl e \<Rightarrow> (tm, Inl e)
           | Inr t' \<Rightarrow> tm_save t' tm))"

definition step_names :: "str list" where
  "step_names = [''pending'', ''in_progress'', ''completed'', ''blocked'']"

text \<open>The checks of an update, in the order of the code.\<close>

definition step_guard :: "active_task \<Rightarrow> task_step \<Rightarrow> str \<Rightarrow> str \<Rightarrow> str list \<Rightarrow> py_exn + unit" where
  "step_guard t target step_id status additions =
     (let current = (case at_current t of Some c \<Rightarrow> (if c = [] then ''none'' else c) | None \<Rightarrow> ''none'');
          is_current = (at_current t = Some (sp_id target))
      in
      guard (status = ''in_progress'' \<and> \<not> is_current)
        (ValueError (''Plan steps must advance in order. Only the current step can be active. Current step: '' @ current
           @ ''. Requested step: '' @ step_id @ ''.''))
      (guard (status = ''in_progress'' \<and> sp_status target = ''in_progress'')
        (ValueError (step_id @ '' is already in progress. Do not use task_update for commentary or preparation notes; perform the concrete repository action, then complete the step with evidence.''))
      (guard (status = ''in_progress'' \<and> additions \<noteq> [])
        (ValueError ''in_progress does not accept evidence. Evidence records completed execution, not intended future work.'')
      (guard (status = ''completed'' \<and> (\<not> is_current \<or> sp_status target \<noteq> ''in_progress''))
        (ValueError (''Only the current in-progress step can be completed. Current step: '' @ current
           @ ''. Requested step: '' @ step_id @ ''.''))
      (guard (status = ''completed'' \<and> additions = [] \<and> sp_evidence target = [])
        (ValueError ''Completing a task step requires non-empty execution evidence from the work actually performed.'')
      (Inr ()))))))"

definition demote :: "str \<Rightarrow> str \<Rightarrow> task_step \<Rightarrow> task_step" where
  "demote status step_id s =
     (if status = ''in_progress'' \<and> sp_status s = ''in_progress'' \<and> sp_id s \<noteq> step_id then s\<lparr>sp_status := ''pending''\<rparr> else s)"

definition mark :: "str \<Rightarrow> str \<Rightarrow> str list \<Rightarrow> task_step \<Rightarrow> task_step" where
  "mark status step_id additions s =
     (if sp_id s = step_id then s\<lparr>sp_status := status, sp_evidence := fromkeys (sp_evidence s @ additions)\<rparr> else s)"

definition set_status :: "str \<Rightarrow> str \<Rightarrow> task_step \<Rightarrow> task_step" where
  "set_status step_id status s = (if sp_id s = step_id then s\<lparr>sp_status := status\<rparr> else s)"

definition updated_plan :: "active_task \<Rightarrow> str \<Rightarrow> str \<Rightarrow> str list \<Rightarrow> active_task" where
  "updated_plan t step_id status additions =
     (let steps = map (mark status step_id additions) (map (demote status step_id) (at_steps t)) in
      if status = ''in_progress'' then t\<lparr>at_current := Some step_id, at_steps := steps\<rparr>
      else if at_current t = Some step_id \<and> status = ''completed'' then
        (case find_opt (\<lambda>s. sp_status s = ''pending'') steps of
           Some s \<Rightarrow> t\<lparr>at_current := Some (sp_id s), at_steps := map (set_status (sp_id s) ''in_progress'') steps\<rparr>
         | None \<Rightarrow> t\<lparr>at_current := None, at_steps := steps\<rparr>)
      else t\<lparr>at_steps := steps\<rparr>)"

definition update_step :: "str \<Rightarrow> str \<Rightarrow> str list \<Rightarrow> task_manager \<Rightarrow> task_result" where
  "update_step raw_id status evidence tm =
     (case tm_active tm of
        None \<Rightarrow> tm_fail ''No active task.'' tm
      | Some t \<Rightarrow>
          if \<not> at_planned t then tm_fail ''The current task does not have a plan.'' tm
          else (let step_id = normalize_step_id raw_id in
            if status \<notin> set step_names then tm_fail (''Unsupported step status: '' @ status) tm
            else (case find_opt (\<lambda>s. sp_id s = step_id) (at_steps t) of
                None \<Rightarrow> tm_fail (''Task step not found: '' @ step_id @ ''. Valid step IDs: ''
                    @ py_join '', '' (map sp_id (at_steps t)) @ ''.'') tm
              | Some target \<Rightarrow>
                  (case rbind (clean_strings evidence ''evidence'' 50) (\<lambda>additions.
                     rbind (step_guard t target step_id status additions) (\<lambda>_. Inr additions)) of
                     Inl e \<Rightarrow> (tm, Inl e)
                   | Inr additions \<Rightarrow> tm_save (updated_plan t step_id status additions) tm))))"

subsection \<open>Scope and outcome\<close>

definition declared_scope :: "active_task \<Rightarrow> str list" where
  "declared_scope t = (if at_scope_hints t \<noteq> [] then at_scope_hints t else infer_goal_scope (at_goal t))"

definition owned_paths :: "str list \<Rightarrow> str list \<Rightarrow> str list" where
  "owned_paths declared paths =
     filter (\<lambda>p. declared = [] \<or> list_ex (task_path_matches p) declared)
       (map normalize_task_path (filter (\<lambda>p. p \<noteq> [] \<and> \<not> startswith p ''@tool:'') paths))"

definition observe_mutation_paths :: "str list \<Rightarrow> task_manager \<Rightarrow> task_result" where
  "observe_mutation_paths paths tm =
     (case tm_active tm of
        None \<Rightarrow> (tm, Inr None)
      | Some t \<Rightarrow> (let declared = declared_scope t in
          tm_commit (t\<lparr>at_scope_hints := declared,
            at_workspace_paths := fromkeys (at_workspace_paths t @ owned_paths declared paths)\<rparr>) tm))"

definition outside_scope :: "str list \<Rightarrow> task_manager \<Rightarrow> str list" where
  "outside_scope paths tm =
     (case tm_active tm of
        None \<Rightarrow> []
      | Some t \<Rightarrow>
          if at_scope_source t = ''unresolved'' then paths
          else if at_scope_source t \<noteq> ''explicit'' then []
          else if at_scope_hints t = [] then []
          else filter (\<lambda>p. \<not> list_ex (task_path_matches p) (at_scope_hints t)) paths)"

definition task_complete :: "task_manager \<Rightarrow> task_result" where
  "task_complete tm =
     (case tm_active tm of
        None \<Rightarrow> (tm, Inr None)
      | Some t \<Rightarrow> tm_commit (t\<lparr>at_status := ''completed'', at_current := None, at_blocked := []\<rparr>) tm)"

text \<open>\<open>block\<close>, \<open>partial\<close>, \<open>stuck\<close> and \<open>fail\<close> differ in the status they record.\<close>

definition task_end :: "str \<Rightarrow> str list \<Rightarrow> task_manager \<Rightarrow> task_result" where
  "task_end status reasons tm =
     (case tm_active tm of
        None \<Rightarrow> (tm, Inr None)
      | Some t \<Rightarrow> tm_commit (t\<lparr>at_status := status, at_blocked := fromkeys reasons\<rparr>) tm)"

definition task_block :: "str list \<Rightarrow> task_manager \<Rightarrow> task_result" where
  "task_block = task_end ''blocked''"

definition task_partial :: "str list \<Rightarrow> task_manager \<Rightarrow> task_result" where
  "task_partial = task_end ''partial''"

definition task_stuck :: "str list \<Rightarrow> task_manager \<Rightarrow> task_result" where
  "task_stuck = task_end ''stuck''"

definition task_fail :: "str list \<Rightarrow> task_manager \<Rightarrow> task_result" where
  "task_fail = task_end ''failed''"

definition task_resume :: "(str \<Rightarrow> str) \<Rightarrow> (json \<Rightarrow> str) \<Rightarrow> str \<Rightarrow> task_manager \<Rightarrow> task_result" where
  "task_resume sha pr task_id tm =
     (case store_load sha pr task_id (tm_dir tm) of
        Inl e \<Rightarrow> (tm, Inl e)
      | Inr t \<Rightarrow> tm_save (t\<lparr>at_status := ''in_progress'', at_blocked := []\<rparr>) tm)"

subsection \<open>Texts for the model\<close>

definition dashed :: "str list \<Rightarrow> str list" where
  "dashed items = map (\<lambda>i. ''- '' @ i) items"

definition bool_text :: "bool \<Rightarrow> str" where
  "bool_text b = (if b then ''true'' else ''false'')"

definition criterion_lines :: "(json \<Rightarrow> str) \<Rightarrow> jdict \<Rightarrow> str list" where
  "criterion_lines pr c =
     [''- '' @ str_of pr (dict_get_or c ''id'' (JStr ''legacy'')) @ '': User wording: '' @ str_field pr c ''source_quote'',
      ''  Observable condition: '' @ str_field pr c ''condition'',
      ''  Independent check: '' @ str_field pr c ''check'']"

definition system_suffix :: "(json \<Rightarrow> str) \<Rightarrow> task_manager \<Rightarrow> str" where
  "system_suffix pr tm =
     (case tm_active tm of
        None \<Rightarrow> []
      | Some t \<Rightarrow>
          (let completed = map sp_title (filter (\<lambda>s. sp_status s = ''completed'') (at_steps t)) in
           py_join [NL] (
             [''[Current ForgeCode Task]'', [], ''Goal:'', bounded (at_goal t) 20000, [],
              ''Status: '' @ at_status t, ''Requires workspace change: '' @ bool_text (at_requires_change t)]
             @ (case current_step t of None \<Rightarrow> [] | Some s \<Rightarrow> [[], ''Current step:'', sp_title s])
             @ (if completed = [] then [] else [[], ''Completed steps:''] @ dashed completed)
             @ (if at_constraints t = [] then [] else [[], ''Constraints:''] @ dashed (at_constraints t))
             @ (if at_scope_hints t \<noteq> [] then
                  [[], ''Focus paths:''] @ dashed (at_scope_hints t)
                  @ [if at_scope_source t = ''explicit''
                     then ''All workspace writes must remain inside these paths unless the user explicitly changes the scope.''
                     else ''These paths are inferred focus hints, not a hard write boundary; modify other relevant paths when required.'']
                else if at_scope_source t = ''unresolved'' then
                  [[], ''Write scope: unresolved.'',
                   ''Do not request workspace writes until the target path is resolved from the user or prior task context.'']
                else [])
             @ (if at_criteria t = [] then []
                else [[], ''Acceptance map (model interpretation, not permission or proof):'']
                  @ concat (map (criterion_lines pr) (at_criteria t)))
             @ (if tm_directive tm \<noteq> [] \<and> tm_directive tm \<noteq> at_goal t
                then [[], ''Latest user directive:'', bounded (tm_directive tm) 4000] else [])
             @ [[], ''This is persisted task context, not an instruction to resume execution. Follow the latest user prompt. Continue implementation only when that prompt explicitly requests it.''])))"

definition task_describe :: "task_manager \<Rightarrow> str" where
  "task_describe tm =
     (case tm_active tm of
        None \<Rightarrow> ''No active task.''
      | Some t \<Rightarrow>
          ''id: '' @ at_id t @ [NL] @ ''status: '' @ at_status t @ [NL] @ ''goal: '' @ at_goal t @ [NL]
          @ ''planned: '' @ bool_text (at_planned t) @ [NL]
          @ ''current step: '' @ (case current_step t of Some s \<Rightarrow> sp_title s | None \<Rightarrow> ''none'') @ [NL]
          @ ''progress: '' @ nat_str (length (filter (\<lambda>s. sp_status s = ''completed'') (at_steps t)))
          @ ''/'' @ nat_str (length (at_steps t)))"

definition task_history :: "(str \<Rightarrow> str) \<Rightarrow> (json \<Rightarrow> str) \<Rightarrow> task_manager \<Rightarrow> str" where
  "task_history sha pr tm =
     (let tasks = store_list sha pr (tm_dir tm) in
      if tasks = [] then ''No persisted tasks.''
      else py_join [NL] (map (\<lambda>t. ''- '' @ at_id t @ '' ['' @ at_status t @ '']: '' @ at_goal t) tasks))"

section \<open>Quotes\<close>

text \<open>A quote is anchored exactly when its words occur in order in a source, up to white space.\<close>

definition word :: "str \<Rightarrow> bool" where
  "word w \<longleftrightarrow> w \<noteq> [] \<and> (\<forall>c\<in>set w. \<not> py_isspace c)"

lemma split_ws_acc_word:
  "\<forall>c\<in>set w. \<not> py_isspace c \<Longrightarrow> split_ws_acc acc (w @ s) = split_ws_acc (rev w @ acc) s"
  by (induction w arbitrary: acc) auto

lemma split_ws_acc_gap: "\<forall>c\<in>set g. py_isspace c \<Longrightarrow> split_ws_acc [] (g @ s) = split_ws_acc [] s"
  by (induction g) auto

lemma split_ws_word: "word w \<Longrightarrow> split_ws w = [w]"
  using split_ws_acc_word [of w "[]" "[]"] by (simp add: split_ws_def word_def)

lemma split_ws_Cons:
  assumes "word w" "g \<noteq> []" "\<forall>c\<in>set g. py_isspace c"
  shows "split_ws (w @ g @ s) = w # split_ws s"
proof -
  obtain c g' where g: "g = c # g'" using assms(2) by (cases g) auto
  have "split_ws (w @ g @ s) = split_ws_acc (rev w) (c # g' @ s)"
    using split_ws_acc_word [of w "[]" "g @ s"] assms(1) by (simp add: split_ws_def word_def g)
  also have "\<dots> = w # split_ws_acc [] (g' @ s)"
    using assms(1,3) by (simp add: g word_def)
  also have "\<dots> = w # split_ws s"
    using split_ws_acc_gap [of g' s] assms(3) by (simp add: g split_ws_def)
  finally show ?thesis .
qed

lemma split_ws_acc_words: "\<forall>c\<in>set acc. \<not> py_isspace c \<Longrightarrow> \<forall>w\<in>set (split_ws_acc acc s). word w"
proof (induction acc s rule: split_ws_acc.induct)
  case (1 acc)
  then show ?case by (simp add: word_def)
next
  case (2 acc c s)
  show ?case
  proof (cases "py_isspace c")
    case True
    with 2 show ?thesis by (cases "acc = []") (simp_all add: word_def)
  next
    case False
    with 2 show ?thesis by simp
  qed
qed

lemma split_ws_words: "w \<in> set (split_ws s) \<Longrightarrow> word w"
  using split_ws_acc_words [of "[]" s] by (simp add: split_ws_def)

lemma takeWhile_space: "\<forall>c\<in>set (takeWhile py_isspace s). py_isspace c"
  by (auto dest: set_takeWhileD)

lemma match_words_sound:
  "match_words ws s = Some m \<Longrightarrow> \<forall>w\<in>set ws. word w \<Longrightarrow> (\<exists>rest. s = m @ rest) \<and> split_ws m = ws"
proof (induction ws s arbitrary: m rule: match_words.induct)
  case (1 s)
  then show ?case by (simp add: split_ws_def)
next
  case (2 w s)
  then show ?case by (auto simp: split_ws_word startswith_iff_prefix prefix_def split: if_splits)
next
  case (3 w x ws s)
  define r where "r = drop (length w) s"
  define g where "g = takeWhile py_isspace r"
  from "3.prems" have w: "startswith s w" and g: "g \<noteq> []"
    by (auto simp: Let_def r_def g_def split: if_splits)
  from "3.prems" w g obtain m' where m': "match_words (x # ws) (drop (length g) r) = Some m'" and m: "m = w @ g @ m'"
    by (auto simp: Let_def r_def g_def)
  have "(\<exists>rest. drop (length g) r = m' @ rest) \<and> split_ws m' = x # ws"
    using "3.IH" [OF w r_def g_def, of m'] g m' "3.prems"(2) by simp
  moreover have "s = w @ r" using w by (auto simp: r_def startswith_iff_prefix prefix_def)
  moreover have "r = g @ drop (length g) r"
    unfolding g_def by (metis dropWhile_eq_drop takeWhile_dropWhile_id)
  moreover have "split_ws m = w # split_ws m'"
    unfolding m using g "3.prems"(2) takeWhile_space by (intro split_ws_Cons) (auto simp: g_def)
  ultimately show ?case using m by auto
qed

text \<open>The first word of a text, and what separates it from the rest.\<close>

lemma split_ws_first:
  assumes "split_ws m = w # ws" and "m = [] \<or> \<not> py_isspace (hd m)"
  obtains r where "m = w @ r" "r = [] \<or> py_isspace (hd r)" "split_ws r = ws"
proof -
  define v where "v = takeWhile (\<lambda>c. \<not> py_isspace c) m"
  define r where "r = dropWhile (\<lambda>c. \<not> py_isspace c) m"
  have m: "m = v @ r" by (simp add: v_def r_def)
  have r: "r = [] \<or> py_isspace (hd r)"
    unfolding r_def by (metis (mono_tags, lifting) hd_dropWhile)
  have "m \<noteq> []" using assms(1) by (auto simp: split_ws_def)
  with assms(2) have v: "word v" by (cases m) (auto simp: v_def word_def dest: set_takeWhileD)
  have "split_ws m = v # split_ws r"
  proof (cases r)
    case Nil
    then show ?thesis using m v by (simp add: split_ws_word) (simp add: split_ws_def)
  next
    case (Cons c r')
    with r have "py_isspace c" by simp
    then have "split_ws m = v # split_ws r'"
      using split_ws_Cons [OF v, of "[c]" r'] m Cons by simp
    with \<open>py_isspace c\<close> Cons show ?thesis by (simp add: split_ws_def)
  qed
  with assms(1) m r that show ?thesis by auto
qed

lemma match_words_complete:
  "split_ws m = ws \<Longrightarrow> ws \<noteq> [] \<Longrightarrow> \<not> py_isspace (hd m) \<Longrightarrow> match_words ws (m @ b) \<noteq> None"
proof (induction ws arbitrary: m rule: induct_list012)
  case 1
  then show ?case by simp
next
  case (2 w)
  then obtain r where "m = w @ r" using split_ws_first [of m w "[]"] by blast
  then show ?case by (simp add: startswith_iff_prefix)
next
  case (3 w x ws)
  then obtain r where m: "m = w @ r" and r: "r = [] \<or> py_isspace (hd r)" and ws: "split_ws r = x # ws"
    using split_ws_first [of m w "x # ws"] by blast
  define g where "g = takeWhile py_isspace r"
  define r' where "r' = dropWhile py_isspace r"
  have r_eq: "r = g @ r'" by (simp add: g_def r'_def)
  have "r \<noteq> []" using ws by (auto simp: split_ws_def)
  with r have g: "g \<noteq> []" by (cases r) (auto simp: g_def)
  have spaces: "\<forall>c\<in>set g. py_isspace c" unfolding g_def by (rule takeWhile_space)
  have words: "split_ws r' = x # ws"
    using ws split_ws_acc_gap [OF spaces, of r'] by (simp add: split_ws_def r_eq)
  then have r': "r' \<noteq> []" by (auto simp: split_ws_def)
  then have hd: "\<not> py_isspace (hd r')" unfolding r'_def by (metis hd_dropWhile)
  have "takeWhile py_isspace (r @ b) = g"
    using r' hd spaces by (cases r') (simp_all add: r_eq takeWhile_append)
  then have "match_words (w # x # ws) (m @ b) = map_option (\<lambda>t. w @ g @ t) (match_words (x # ws) (r' @ b))"
    using g by (simp add: m Let_def startswith_iff_prefix) (simp add: r_eq)
  moreover have "match_words (x # ws) (r' @ b) \<noteq> None"
    using "3.IH"(2) [of r'] words hd by simp
  ultimately show ?case by simp
qed

lemma search_words_sound: "search_words ws s = Some m \<Longrightarrow> \<exists>a t. s = a @ t \<and> match_words ws t = Some m"
proof (induction ws s rule: search_words.induct)
  case (2 ws c s)
  show ?case
  proof (cases "match_words ws (c # s)")
    case None
    with 2 obtain a t where "s = a @ t" "match_words ws t = Some m" by auto
    then show ?thesis by (metis append_Cons)
  next
    case (Some x)
    with 2 show ?thesis by (metis append_Nil option.inject option.simps(5) search_words.simps(2))
  qed
qed auto

lemma search_words_complete: "match_words ws t \<noteq> None \<Longrightarrow> search_words ws (a @ t) \<noteq> None"
proof (induction a)
  case Nil
  then show ?case by (cases t) auto
qed (auto split: option.split)

definition spans :: "str \<Rightarrow> str list \<Rightarrow> str \<Rightarrow> bool" where
  "spans quote sources m \<longleftrightarrow> split_ws m = split_ws quote \<and> (\<exists>src\<in>set sources. \<exists>a b. src = a @ m @ b)"

lemma anchored_quote_sound:
  assumes "anchored_source_quote quote sources = Inr m"
  shows "spans quote sources m \<and> split_ws quote \<noteq> []"
proof -
  have words: "split_ws quote \<noteq> []"
    using assms by (auto simp: anchored_source_quote_def Let_def split: if_splits)
  have "find_opt (\<lambda>_. True) (List.map_filter (search_words (split_ws quote)) sources) = Some m"
    using assms by (auto simp: anchored_source_quote_def Let_def split: if_splits option.splits)
  then obtain src where src: "src \<in> set sources" "search_words (split_ws quote) src = Some m"
    by (auto dest!: find_opt_Some simp: List.map_filter_def)
  obtain a t where t: "src = a @ t" "match_words (split_ws quote) t = Some m"
    using search_words_sound [OF src(2)] by blast
  have "\<forall>w\<in>set (split_ws quote). word w" by (simp add: split_ws_words)
  from match_words_sound [OF t(2) this] t(1) src(1) words show ?thesis
    by (auto simp: spans_def)
qed

lemma anchored_quote_complete:
  assumes "spans quote sources m" and "split_ws quote \<noteq> []"
  shows "\<exists>m'. anchored_source_quote quote sources = Inr m'"
proof -
  obtain src a b where src: "src \<in> set sources" "src = a @ m @ b" and m: "split_ws m = split_ws quote"
    using assms(1) by (auto simp: spans_def)
  define g where "g = takeWhile py_isspace m"
  define n where "n = dropWhile py_isspace m"
  have m_eq: "m = g @ n" by (simp add: g_def n_def)
  have spaces: "\<forall>c\<in>set g. py_isspace c" unfolding g_def by (rule takeWhile_space)
  have words: "split_ws n = split_ws quote"
    using m split_ws_acc_gap [OF spaces, of n] by (simp add: split_ws_def m_eq)
  with assms(2) have "n \<noteq> []" by (auto simp: split_ws_def)
  then have "\<not> py_isspace (hd n)" unfolding n_def by (metis hd_dropWhile)
  from match_words_complete [OF words assms(2) this] search_words_complete
  have "search_words (split_ws quote) ((a @ g) @ n @ b) \<noteq> None" by blast
  with src have "\<exists>src\<in>set sources. search_words (split_ws quote) src \<noteq> None"
    by (auto simp: m_eq)
  then have "List.map_filter (search_words (split_ws quote)) sources \<noteq> []"
    by (auto simp: List.map_filter_def filter_empty_conv)
  then show ?thesis
    using assms(2) by (cases "List.map_filter (search_words (split_ws quote)) sources")
      (simp_all add: anchored_source_quote_def)
qed

section \<open>Invariants\<close>

text \<open>
  Of a plan: identifiers are distinct, a completed step has evidence, and at most one step (\<open>c\<close>)
  is in progress, which is the current one while there is a current one.
\<close>

definition plan_ok :: "active_task \<Rightarrow> bool" where
  "plan_ok t \<longleftrightarrow> distinct (map sp_id (at_steps t))
     \<and> (\<forall>s\<in>set (at_steps t). sp_status s = ''completed'' \<longrightarrow> sp_evidence s \<noteq> [])
     \<and> (\<exists>c. (\<forall>s\<in>set (at_steps t). sp_status s = ''in_progress'' \<longrightarrow> sp_id s = c)
           \<and> (at_current t = None \<or> at_current t = Some c))"

lemma plan_okI [inv_intros]:
  assumes "distinct (map sp_id (at_steps t))"
    and "\<And>s. s \<in> set (at_steps t) \<Longrightarrow> sp_status s = ''completed'' \<Longrightarrow> sp_evidence s \<noteq> []"
    and "\<And>s. s \<in> set (at_steps t) \<Longrightarrow> sp_status s = ''in_progress'' \<Longrightarrow> sp_id s = c"
    and "at_current t = None \<or> at_current t = Some c"
  shows "plan_ok t"
  unfolding plan_ok_def using assms by blast

lemma plan_ok_update:
  assumes "distinct (map sp_id ss)" "\<And>s. s \<in> set ss \<Longrightarrow> sp_status s = ''completed'' \<Longrightarrow> sp_evidence s \<noteq> []"
    and "\<And>s. s \<in> set ss \<Longrightarrow> sp_status s = ''in_progress'' \<Longrightarrow> sp_id s = c"
  shows "cur = None \<or> cur = Some c \<Longrightarrow> plan_ok (t\<lparr>at_current := cur, at_steps := ss\<rparr>)"
    and "at_current t = None \<or> at_current t = Some c \<Longrightarrow> plan_ok (t\<lparr>at_steps := ss\<rparr>)"
  using assms by (auto intro!: plan_okI [where c = c])

lemma plan_ok_cong:
  "plan_ok t \<Longrightarrow> at_steps t' = at_steps t \<Longrightarrow> at_current t' = at_current t \<or> at_current t' = None \<Longrightarrow> plan_ok t'"
  unfolding plan_ok_def by metis

lemma step_ids_simps [simp]:
  "sp_id (demote st i s) = sp_id s" "sp_id (mark st i ev s) = sp_id s" "sp_id (set_status i st s) = sp_id s"
  "sp_evidence (demote st i s) = sp_evidence s" "sp_evidence (set_status i st s) = sp_evidence s"
  by (simp_all add: demote_def mark_def set_status_def)

lemma map_sp_id [simp]:
  "map sp_id (map (demote st i) ss) = map sp_id ss" "map sp_id (map (mark st i ev) ss) = map sp_id ss"
  "map sp_id (map (set_status i st) ss) = map sp_id ss"
  by simp_all

lemma in_progress_demoted:
  assumes "plan_ok t" "s \<in> set (at_steps t)" "at_current t = Some i"
  shows "sp_status s = ''in_progress'' \<Longrightarrow> sp_id s = i"
  using assms unfolding plan_ok_def by force

lemma mark_status:
  "sp_status (mark st i ev s) = (if sp_id s = i then st else sp_status s)"
  "sp_evidence (mark st i ev s) = (if sp_id s = i then fromkeys (sp_evidence s @ ev) else sp_evidence s)"
  by (simp_all add: mark_def)

lemma demote_status: "sp_status (demote st i s) =
    (if st = ''in_progress'' \<and> sp_status s = ''in_progress'' \<and> sp_id s \<noteq> i then ''pending'' else sp_status s)"
  by (simp add: demote_def)

lemma set_status_status: "sp_status (set_status i st s) = (if sp_id s = i then st else sp_status s)"
  by (simp add: set_status_def)

text \<open>The guard of an update is what the plan invariant needs.\<close>

lemma step_guard_ok:
  assumes "step_guard t target i status ev = Inr ()"
  shows "(status = ''in_progress'' \<longrightarrow> at_current t = Some (sp_id target))
    \<and> (status = ''completed'' \<longrightarrow> at_current t = Some (sp_id target) \<and> sp_status target = ''in_progress''
          \<and> (ev \<noteq> [] \<or> sp_evidence target \<noteq> []))"
  using assms by (auto simp: step_guard_def Let_def)

lemma updated_plan_ok:
  assumes plan: "plan_ok t" and target: "target \<in> set (at_steps t)" "sp_id target = i"
    and guard: "step_guard t target i status ev = Inr ()"
  shows "plan_ok (updated_plan t i status ev)"
proof -
  let ?steps = "map (mark status i ev) (map (demote status i) (at_steps t))"
  have ids: "distinct (map sp_id ?steps)"
    using plan by (simp only: map_sp_id plan_ok_def)
  have unique: "s = target" if "s \<in> set (at_steps t)" "sp_id s = i" for s
    using plan that target by (auto simp: plan_ok_def distinct_map inj_on_def)
  have evidence: "sp_evidence s \<noteq> []" if "s \<in> set ?steps" "sp_status s = ''completed''" for s
  proof -
    from that(1) have "\<exists>u. u \<in> set (at_steps t) \<and> s = mark status i ev (demote status i u)" by auto
    then obtain u where u: "u \<in> set (at_steps t)" "s = mark status i ev (demote status i u)" by blast
    show ?thesis
    proof (cases "sp_id u = i")
      case True
      then have "u = target" "status = ''completed''" using unique u that(2) by (simp_all add: mark_status)
      with True u step_guard_ok [OF guard] show ?thesis by (auto simp: mark_status)
    next
      case False
      with u that(2) have "sp_status u = ''completed''"
        by (simp add: mark_status demote_status split: if_split_asm)
      with False u plan show ?thesis by (simp add: mark_status plan_ok_def)
    qed
  qed
  consider "status = ''in_progress''" | "status = ''completed''" | "status \<noteq> ''in_progress''" "status \<noteq> ''completed''" by blast
  then show ?thesis
  proof cases
    case 1
    have "sp_id s = i" if "s \<in> set ?steps" "sp_status s = ''in_progress''" for s
      using that 1 by (auto simp: mark_status demote_status split: if_splits)
    moreover have steps: "updated_plan t i status ev = t\<lparr>at_current := Some i, at_steps := ?steps\<rparr>"
      using 1 by (simp only: updated_plan_def Let_def) simp
    ultimately show ?thesis
      unfolding steps using ids evidence by (intro plan_ok_update(1) [where c = i]) blast+
  next
    case 2
    with guard target have current: "at_current t = Some i" by (auto dest: step_guard_ok)
    have none: "sp_status s \<noteq> ''in_progress''" if "s \<in> set ?steps" for s
      using that 2 in_progress_demoted [OF plan _ current]
      by (auto simp: mark_status demote_status split: if_splits)
    show ?thesis
    proof (cases "find_opt (\<lambda>s. sp_status s = ''pending'') ?steps")
      case None
      then have steps: "updated_plan t i status ev = t\<lparr>at_current := None, at_steps := ?steps\<rparr>"
        using 2 current by (simp only: updated_plan_def Let_def) simp
      show ?thesis
        unfolding steps using ids evidence none by (intro plan_ok_update(1) [where c = i]) blast+
    next
      case (Some nxt)
      have steps: "updated_plan t i status ev = t\<lparr>at_current := Some (sp_id nxt), at_steps := map (set_status (sp_id nxt) ''in_progress'') ?steps\<rparr>"
        using Some 2 current by (simp only: updated_plan_def Let_def) simp
      show ?thesis
        unfolding steps
      proof (rule plan_ok_update(1) [where c = "sp_id nxt"])
        show "distinct (map sp_id (map (set_status (sp_id nxt) ''in_progress'') ?steps))"
          using ids by (simp only: map_sp_id)
      next
        fix s
        assume "s \<in> set (map (set_status (sp_id nxt) ''in_progress'') ?steps)"
        then obtain u where u: "u \<in> set ?steps" "s = set_status (sp_id nxt) ''in_progress'' u" by auto
        show "sp_status s = ''completed'' \<Longrightarrow> sp_evidence s \<noteq> []"
          using evidence [OF u(1)] by (simp add: u(2) set_status_status split: if_split_asm)
        show "sp_status s = ''in_progress'' \<Longrightarrow> sp_id s = sp_id nxt"
          using none [OF u(1)] by (simp add: u(2) set_status_status split: if_split_asm)
      qed simp
    qed
  next
    case 3
    obtain c where c: "at_current t = None \<or> at_current t = Some c" "\<And>s. s \<in> set (at_steps t) \<Longrightarrow> sp_status s = ''in_progress'' \<Longrightarrow> sp_id s = c"
      using plan unfolding plan_ok_def by metis
    have "sp_id s = c" if "s \<in> set ?steps" "sp_status s = ''in_progress''" for s
      using that 3 c(2) by (auto simp: mark_status demote_status split: if_splits)
    moreover have steps: "updated_plan t i status ev = t\<lparr>at_steps := ?steps\<rparr>"
      using 3 by (simp only: updated_plan_def Let_def) simp
    ultimately show ?thesis
      unfolding steps using ids evidence c(1) by (intro plan_ok_update(2) [where c = c]) blast+
  qed
qed

lemma plan_steps_ok:
  assumes "titles \<noteq> []"
  shows "plan_ok (t\<lparr>at_current := Some (sp_id (hd (plan_steps titles))), at_steps := plan_steps titles\<rparr>)"
proof (rule plan_ok_update(1) [where c = "''step-1''"])
  have ids: "map sp_id (plan_steps titles) = map (\<lambda>i. ''step-'' @ nat_str i) [1..<1 + length titles]"
    by (rule nth_equalityI) (simp_all add: plan_steps_def nth_enumerate_eq del: upt_Suc append.simps)
  show "distinct (map sp_id (plan_steps titles))"
    unfolding ids by (simp add: distinct_map inj_on_def nat_str_inject)
  have one: "nat_str 1 = ''1''" by code_simp
  show "s \<in> set (plan_steps titles) \<Longrightarrow> sp_status s = ''completed'' \<Longrightarrow> sp_evidence s \<noteq> []" for s
    by (auto simp: plan_steps_def split: if_splits)
  show "s \<in> set (plan_steps titles) \<Longrightarrow> sp_status s = ''in_progress'' \<Longrightarrow> sp_id s = ''step-1''" for s
    using one by (auto simp: plan_steps_def split: if_splits)
  have "sp_id (hd (plan_steps titles)) = ''step-1''"
    using assms one by (cases titles) (simp_all add: plan_steps_def)
  then show "Some (sp_id (hd (plan_steps titles))) = None \<or> Some (sp_id (hd (plan_steps titles))) = Some ''step-1''"
    by simp
qed

subsection \<open>Criteria stay anchored\<close>

lemma by_id_values: "set (dict_values (by_id cs)) \<subseteq> set cs"
proof -
  have "set (dict_values (fold (\<lambda>c d. dict_set d (jget c ''id'') c) cs d)) \<subseteq> set (dict_values d) \<union> set cs" for d
  proof (induction cs arbitrary: d)
    case (Cons c cs)
    from Cons.IH [of "dict_set d (jget c ''id'') c"] dict_values_set_subset [of d "jget c ''id''" c] show ?case by auto
  qed simp
  from this [of "[]"] show ?thesis by (simp add: by_id_def dict_values_def)
qed

lemma merge_step_values:
  "set (dict_values (fst (merge_step sha pr tid c st))) \<subseteq> insert (anchored_criterion sha pr c tid) (set (dict_values (fst st)))"
  using dict_values_set_subset [of "fst st"] by (auto simp: merge_step_def Let_def)

lemma merge_fold_values:
  "set (dict_values (fst (fold (merge_step sha pr tid) cs st)))
     \<subseteq> set (dict_values (fst st)) \<union> (\<lambda>c. anchored_criterion sha pr c tid) ` set cs"
proof (induction cs arbitrary: st)
  case (Cons c cs)
  from Cons.IH [of "merge_step sha pr tid c st"] merge_step_values [of sha pr tid c st] show ?case by auto
qed simp

lemma merge_acceptance_ok:
  assumes "merge_acceptance sha pr t criteria = Inr cs" "task_ok sha t"
  shows "\<forall>c\<in>set cs. is_anchored sha (at_id t) c"
proof -
  obtain qs where "cs = dict_values (fst (fold (merge_step sha pr (at_id t)) qs
      (by_id (at_criteria t), map (source_key pr) (dict_values (by_id (at_criteria t))))))"
    using assms(1) by (auto simp: merge_acceptance_def Let_def split: if_splits)
  then have "set cs \<subseteq> set (at_criteria t) \<union> (\<lambda>c. anchored_criterion sha pr c (at_id t)) ` set qs"
    using merge_fold_values [of sha pr "at_id t" qs] by_id_values [of "at_criteria t"] by fastforce
  then show ?thesis
    using assms(2) anchored_is_anchored by (auto simp: task_ok_def)
qed

lemma revised_anchored:
  "revised_criterion sha pr uuid t old r = Inr c \<Longrightarrow> is_anchored sha (at_id t) c"
  by (auto simp: revised_criterion_def is_anchored_def anchored_criterion_def Let_def split: option.splits)

subsection \<open>Every operation keeps the invariant\<close>

definition task_good :: "(str \<Rightarrow> str) \<Rightarrow> active_task \<Rightarrow> bool" where
  "task_good sha t \<longleftrightarrow> task_ok sha t \<and> plan_ok t"

definition tm_inv :: "(str \<Rightarrow> str) \<Rightarrow> (json \<Rightarrow> str) \<Rightarrow> task_manager \<Rightarrow> bool" where
  "tm_inv sha pr tm \<longleftrightarrow> (\<forall>t. tm_active tm = Some t \<longrightarrow> task_good sha t)
     \<and> task_storage.all_stored (store_load sha pr) (task_good sha) (tm_dir tm)"

lemma tm_inv_save [inv_intros]:
  assumes "task_good sha t" "tm_inv sha pr tm"
  shows "tm_inv sha pr (fst (tm_save t tm))"
proof (cases "store_save t (tm_dir tm)")
  case (Inr dir)
  have "task_ok sha t" using assms(1) by (simp add: task_good_def)
  from task_files.all_stored_save [OF Inr this, of "task_good sha" pr] assms show ?thesis
    by (simp add: tm_save_def Inr tm_inv_def)
qed (use assms in \<open>simp add: tm_save_def tm_inv_def\<close>)

lemma tm_inv_commit [inv_intros]:
  "task_good sha t \<Longrightarrow> tm_inv sha pr tm \<Longrightarrow> tm_inv sha pr (fst (tm_commit t tm))"
  by (cases "at_planned t") (simp_all add: tm_commit_def tm_inv_save, simp add: tm_inv_def)

lemma tm_inv_active: "tm_inv sha pr tm \<Longrightarrow> tm_active tm = Some t \<Longrightarrow> task_good sha t"
  by (simp add: tm_inv_def)

lemma tm_inv_directive [simp]: "tm_inv sha pr (tm\<lparr>tm_directive := d\<rparr>) = tm_inv sha pr tm"
  by (simp add: tm_inv_def)

lemma task_good_same:
  "task_good sha t \<Longrightarrow> at_id t' = at_id t \<Longrightarrow> at_criteria t' = at_criteria t \<Longrightarrow> at_steps t' = at_steps t \<Longrightarrow>
     at_current t' = at_current t \<or> at_current t' = None \<Longrightarrow> task_good sha t'"
  using plan_ok_cong [of t t'] by (auto simp: task_good_def task_ok_def)

lemma task_good_criteria:
  "task_good sha t \<Longrightarrow> \<forall>c\<in>set cs. is_anchored sha (at_id t) c \<Longrightarrow> task_good sha (t\<lparr>at_criteria := cs\<rparr>)"
  using plan_ok_cong [of t "t\<lparr>at_criteria := cs\<rparr>"] by (simp add: task_good_def task_ok_def)

datatype task_op =
    OpStart str str bool "str option"
  | OpContinue str bool
  | OpRequireChange
  | OpRegister "jdict list"
  | OpRevise str str "jdict option" str
  | OpPlan "str list" "str list" "str list" bool "jdict list"
  | OpUpdate str str "str list"
  | OpObserve "str list"
  | OpComplete
  | OpEnd str "str list"
  | OpResume str
  | OpRestore "active_task option"

fun run_op :: "(str \<Rightarrow> str) \<Rightarrow> (json \<Rightarrow> str) \<Rightarrow> task_op \<Rightarrow> task_manager \<Rightarrow> task_result" where
  "run_op sha pr (OpStart uuid goal change scope) tm = task_start uuid goal change scope tm"
| "run_op sha pr (OpContinue directive change) tm = continue_active directive change tm"
| "run_op sha pr OpRequireChange tm = require_workspace_change tm"
| "run_op sha pr (OpRegister criteria) tm = register_acceptance sha pr criteria tm"
| "run_op sha pr (OpRevise uuid rid replacement reason) tm = revise_acceptance sha pr uuid rid replacement reason tm"
| "run_op sha pr (OpPlan steps constraints hints again criteria) tm = task_plan sha pr steps constraints hints again criteria tm"
| "run_op sha pr (OpUpdate step_id status evidence) tm = update_step step_id status evidence tm"
| "run_op sha pr (OpObserve paths) tm = observe_mutation_paths paths tm"
| "run_op sha pr OpComplete tm = task_complete tm"
| "run_op sha pr (OpEnd status reasons) tm = task_end status reasons tm"
| "run_op sha pr (OpResume task_id) tm = task_resume sha pr task_id tm"
| "run_op sha pr (OpRestore restored) tm = (task_restore restored tm, Inr None)"

definition run_ops :: "(str \<Rightarrow> str) \<Rightarrow> (json \<Rightarrow> str) \<Rightarrow> task_op list \<Rightarrow> task_manager \<Rightarrow> task_manager" where
  "run_ops sha pr ops tm = fold (\<lambda>op tm. fst (run_op sha pr op tm)) ops tm"

lemma new_task_good: "task_good sha (new_task uuid goal change scope)"
  by (simp add: task_good_def task_ok_def new_task_def plan_ok_def)

lemma planned_task_good:
  assumes good: "task_good sha t" and plan: "planned_task sha pr steps constraints hints again criteria t = Inr t'"
  shows "task_good sha t'"
proof -
  obtain titles anchored where merged: "merge_acceptance sha pr t criteria = Inr anchored" and titles: "\<not> length titles < 2"
    and t': "at_id t' = at_id t" "at_criteria t' = anchored" "at_steps t' = plan_steps titles"
      "at_current t' = Some (sp_id (hd (plan_steps titles)))"
    using plan by (auto simp: planned_task_def Let_def simp del: not_less)
  have "titles \<noteq> []" using titles by auto
  then have "plan_ok t'"
    using plan_ok_cong [OF plan_steps_ok [of titles t], of t'] t' by simp
  then show ?thesis
    using good merge_acceptance_ok [OF merged] t' by (simp add: task_good_def task_ok_def)
qed

lemma tm_inv_plan:
  assumes "tm_inv sha pr tm"
  shows "tm_inv sha pr (fst (task_plan sha pr steps constraints hints again criteria tm))"
proof (cases "tm_active tm")
  case None
  then show ?thesis using assms by (simp add: task_plan_def tm_fail_def)
next
  case (Some t)
  have good: "task_good sha t" using assms Some by (rule tm_inv_active)
  have "planned_task sha pr steps constraints hints again criteria t = Inr t' \<Longrightarrow> task_good sha t'" for t'
    using good by (rule planned_task_good)
  then show ?thesis
    using assms Some by (auto simp: task_plan_def intro!: tm_inv_save split: sum.split)
qed

lemma tm_inv_update:
  assumes "tm_inv sha pr tm"
  shows "tm_inv sha pr (fst (update_step raw status evidence tm))"
proof (cases "tm_active tm")
  case None
  then show ?thesis using assms by (simp add: update_step_def tm_fail_def)
next
  case (Some t)
  have good: "task_good sha t" using assms Some by (rule tm_inv_active)
  have "task_good sha (updated_plan t i status ev)"
    if "find_opt (\<lambda>s. sp_id s = i) (at_steps t) = Some target" "step_guard t target i status ev = Inr ()" for i target ev
  proof -
    have "plan_ok (updated_plan t i status ev)"
      using good find_opt_Some [OF that(1)] that(2) by (auto simp: task_good_def intro: updated_plan_ok)
    moreover have "at_id (updated_plan t i status ev) = at_id t" "at_criteria (updated_plan t i status ev) = at_criteria t"
      by (auto simp: updated_plan_def Let_def split: option.split)
    ultimately show ?thesis using good by (simp add: task_good_def task_ok_def)
  qed
  then show ?thesis
    using assms Some
    by (auto simp: update_step_def Let_def tm_fail_def intro!: tm_inv_save split: sum.split option.split)
qed

lemma tm_inv_revise:
  assumes "tm_inv sha pr tm"
  shows "tm_inv sha pr (fst (revise_acceptance sha pr uuid rid replacement reason tm))"
proof (cases "tm_active tm")
  case None
  then show ?thesis using assms by (simp add: revise_acceptance_def tm_fail_def)
next
  case (Some t)
  have good: "task_good sha t" using assms Some by (rule tm_inv_active)
  have keep: "task_good sha (t\<lparr>at_criteria := filter P (at_criteria t) @ new, at_history := h\<rparr>)"
    if "\<forall>c\<in>set new. is_anchored sha (at_id t) c" for P new h
  proof -
    have "plan_ok (t\<lparr>at_criteria := filter P (at_criteria t) @ new, at_history := h\<rparr>)"
      using good by (auto simp: task_good_def intro: plan_ok_cong)
    with good that show ?thesis by (auto simp: task_good_def task_ok_def)
  qed
  have drop: "task_good sha (t\<lparr>at_criteria := filter P (at_criteria t), at_history := h\<rparr>)" for P h
    using keep [where new = "[]" and P = P and h = h] by simp
  have swap: "task_good sha (t\<lparr>at_criteria := filter P (at_criteria t) @ [c], at_history := h\<rparr>)"
    if "revised_criterion sha pr uuid t old r = Inr c" for P h c old r
    using keep [where new = "[c]" and P = P and h = h] revised_anchored [OF that] by simp
  show ?thesis
    using assms Some drop swap
    by (auto simp: revise_acceptance_def Let_def tm_fail_def intro!: tm_inv_commit split: sum.splits option.splits)
qed

lemma run_op_inv:
  assumes inv: "tm_inv sha pr tm"
    and restored: "\<And>t. op = OpRestore (Some t) \<Longrightarrow> task_good sha t"
  shows "tm_inv sha pr (fst (run_op sha pr op tm))"
proof -
  have good: "tm_active tm = Some t \<Longrightarrow> task_good sha t" for t
    using inv by (rule tm_inv_active)
  show ?thesis
  proof (cases op)
    case (OpStart uuid goal change scope)
    then show ?thesis using inv new_task_good by (auto simp: task_start_def tm_fail_def Let_def tm_inv_def)
  next
    case (OpContinue directive change)
    then show ?thesis
      using inv good by (auto simp: continue_active_def tm_fail_def intro!: tm_inv_commit intro: task_good_same split: option.split)
  next
    case OpRequireChange
    then show ?thesis
      using inv good by (auto simp: require_workspace_change_def intro!: tm_inv_commit intro: task_good_same split: option.split)
  next
    case (OpRegister criteria)
    then show ?thesis
      using inv good merge_acceptance_ok
      by (auto simp: register_acceptance_def tm_fail_def task_good_def intro!: tm_inv_commit task_good_criteria [unfolded task_good_def]
          split: option.split sum.split)
  next
    case (OpRevise uuid rid replacement reason)
    then show ?thesis using tm_inv_revise [OF inv] by simp
  next
    case (OpPlan steps constraints hints again criteria)
    then show ?thesis using tm_inv_plan [OF inv] by simp
  next
    case (OpUpdate step_id status evidence)
    then show ?thesis using tm_inv_update [OF inv] by simp
  next
    case (OpObserve paths)
    then show ?thesis
      using inv good by (auto simp: observe_mutation_paths_def Let_def intro!: tm_inv_commit intro: task_good_same split: option.split)
  next
    case OpComplete
    then show ?thesis
      using inv good by (auto simp: task_complete_def intro!: tm_inv_commit intro: task_good_same split: option.split)
  next
    case (OpEnd status reasons)
    then show ?thesis
      using inv good by (auto simp: task_end_def intro!: tm_inv_commit intro: task_good_same split: option.split)
  next
    case (OpResume task_id)
    have "store_load sha pr task_id (tm_dir tm) = Inr t \<Longrightarrow> task_good sha t" for t
      using inv task_files.all_stored_load [of sha pr] by (auto simp: tm_inv_def)
    with OpResume inv show ?thesis
      by (auto simp: task_resume_def intro!: tm_inv_save intro: task_good_same split: sum.split)
  next
    case (OpRestore t)
    then show ?thesis using inv restored by (simp add: task_restore_def tm_inv_def)
  qed
qed

text \<open>
  A restore installs the task it is given. What it is given comes from a journal: the task as it
  was at some earlier moment of the run (a rewind), or the consistent task of another session.
\<close>

definition restores_known :: "(str \<Rightarrow> str) \<Rightarrow> (json \<Rightarrow> str) \<Rightarrow> task_op list \<Rightarrow> task_manager \<Rightarrow> bool" where
  "restores_known sha pr ops tm \<longleftrightarrow>
     (\<forall>before t after. ops = before @ OpRestore (Some t) # after \<longrightarrow>
        task_good sha t \<or> (\<exists>earlier later. before = earlier @ later \<and> tm_active (run_ops sha pr earlier tm) = Some t))"

lemma run_ops_snoc: "run_ops sha pr (ops @ [op]) tm = fst (run_op sha pr op (run_ops sha pr ops tm))"
  by (simp add: run_ops_def)

lemma restores_known_prefix: "restores_known sha pr (ops @ rest) tm \<Longrightarrow> restores_known sha pr ops tm"
  unfolding restores_known_def by (metis append.assoc append_Cons)

lemma run_ops_inv:
  assumes "tm_inv sha pr tm" "restores_known sha pr ops tm"
  shows "tm_inv sha pr (run_ops sha pr ops tm)"
  using assms(2)
proof (induction ops rule: length_induct)
  case (1 ops)
  show ?case
  proof (cases ops rule: rev_cases)
    case Nil
    then show ?thesis using assms(1) by (simp add: run_ops_def)
  next
    case (snoc before op)
    have prefix: "tm_inv sha pr (run_ops sha pr earlier tm)" if "before = earlier @ later" for earlier later
      using 1 snoc that restores_known_prefix [of sha pr earlier "later @ [op]" tm] by simp
    have "task_good sha t" if op: "op = OpRestore (Some t)" for t
    proof -
      have "task_good sha t \<or> (\<exists>earlier later. before = earlier @ later \<and> tm_active (run_ops sha pr earlier tm) = Some t)"
        using 1(2) snoc op unfolding restores_known_def by blast
      then show ?thesis using prefix tm_inv_active by blast
    qed
    then show ?thesis using run_op_inv [OF prefix, of before "[]" op] snoc by (simp add: run_ops_snoc)
  qed
qed

subsection \<open>An explicit scope stays\<close>

definition keeps_scope :: "active_task \<Rightarrow> task_manager \<Rightarrow> bool" where
  "keeps_scope t tm \<longleftrightarrow> (\<exists>u. tm_active tm = Some u \<and> at_scope_source u = ''explicit'' \<and> at_scope_hints u = at_scope_hints t)"

fun same_task_op :: "task_op \<Rightarrow> bool" where
  "same_task_op (OpStart uuid goal change scope) = False"
| "same_task_op (OpResume task_id) = False"
| "same_task_op (OpRestore restored) = False"
| "same_task_op op = True"

lemma active_save: "tm_active (fst (tm_save t tm)) = Some t"
  by (simp add: tm_save_def split: sum.split)

lemma active_commit: "tm_active (fst (tm_commit t tm)) = Some t"
  by (simp add: tm_commit_def active_save)

lemma updated_plan_scope:
  "at_scope_source (updated_plan t i st ev) = at_scope_source t" "at_scope_hints (updated_plan t i st ev) = at_scope_hints t"
  by (auto simp: updated_plan_def Let_def split: option.split)

lemma planned_task_scope:
  "planned_task sha pr steps constraints hints again criteria t = Inr t' \<Longrightarrow> at_scope_source t = ''explicit'' \<Longrightarrow>
     at_scope_hints t \<noteq> [] \<Longrightarrow> at_scope_source t' = ''explicit'' \<and> at_scope_hints t' = at_scope_hints t"
  by (auto simp: planned_task_def Let_def)

lemma run_op_scope:
  assumes "keeps_scope t tm" "at_scope_hints t \<noteq> []" "same_task_op op"
  shows "keeps_scope t (fst (run_op sha pr op tm))"
proof -
  obtain u where u: "tm_active tm = Some u" "at_scope_source u = ''explicit''" "at_scope_hints u = at_scope_hints t"
    using assms(1) by (auto simp: keeps_scope_def)
  with assms show ?thesis
    by (cases op)
      (auto simp: keeps_scope_def continue_active_def require_workspace_change_def register_acceptance_def revise_acceptance_def
        task_plan_def update_step_def observe_mutation_paths_def task_complete_def task_end_def tm_fail_def Let_def
        active_save active_commit updated_plan_scope declared_scope_def dest: planned_task_scope split: sum.split option.split)
qed

lemma run_ops_scope:
  "keeps_scope t tm \<Longrightarrow> at_scope_hints t \<noteq> [] \<Longrightarrow> \<forall>op\<in>set ops. same_task_op op \<Longrightarrow> keeps_scope t (run_ops sha pr ops tm)"
proof (induction ops arbitrary: tm)
  case (Cons op ops)
  then show ?case using run_op_scope [of t tm op sha pr] by (simp add: run_ops_def)
qed (simp add: run_ops_def)

subsection \<open>Obligations stay\<close>

definition obligations :: "(str \<Rightarrow> str) \<Rightarrow> (json \<Rightarrow> str) \<Rightarrow> active_task \<Rightarrow> jdict list \<Rightarrow> jdict set" where
  "obligations sha pr t proposed = set (at_criteria t) \<union> (\<lambda>c. anchored_criterion sha pr c (at_id t)) ` set proposed"

definition merge_inv :: "(json \<Rightarrow> str) \<Rightarrow> jdict set \<Rightarrow> jdict set \<Rightarrow> (json, jdict) dict \<times> source_id list \<Rightarrow> bool" where
  "merge_inv pr old all st \<longleftrightarrow> (\<forall>kv\<in>set (fst st). fst kv = jget (snd kv) ''id'') \<and> old \<subseteq> set (dict_values (fst st))
     \<and> set (dict_values (fst st)) \<subseteq> all \<and> set (snd st) = source_key pr ` set (dict_values (fst st))"

lemma dict_values_append: "dict_values (d @ e) = dict_values d @ dict_values e"
  by (simp add: dict_values_def)

lemma source_key_anchored:
  "dict_get_or c ''clause_id'' (JStr []) = JStr s \<Longrightarrow> source_key pr (anchored_criterion sha pr c tid) = source_key pr c"
  by (simp add: source_key_def anchored_criterion_def Let_def str_field_def dict_get_or_def dict_get_Cons str_of_def)

lemma merge_step_inv:
  assumes inv: "merge_inv pr old all st" and new: "anchored_criterion sha pr c tid \<in> all"
    and clause: "dict_get_or c ''clause_id'' (JStr []) = JStr s"
    and fresh: "\<And>a b. a \<in> all \<Longrightarrow> b \<in> all \<Longrightarrow> jget a ''id'' = jget b ''id'' \<Longrightarrow> source_key pr a = source_key pr b"
  shows "merge_inv pr old all (merge_step sha pr tid c st)
     \<and> set (snd (merge_step sha pr tid c st)) = insert (source_key pr c) (set (snd st))"
proof (cases "source_key pr c \<in> set (snd st)")
  case True
  with inv show ?thesis by (auto simp: merge_step_def)
next
  case False
  let ?item = "anchored_criterion sha pr c tid"
  have "jget ?item ''id'' \<notin> fst ` set (fst st)"
  proof
    assume "jget ?item ''id'' \<in> fst ` set (fst st)"
    then obtain kv where kv: "kv \<in> set (fst st)" "fst kv = jget ?item ''id''" by auto
    then have mem: "snd kv \<in> set (dict_values (fst st))" by (auto simp: dict_values_def)
    then have "source_key pr (snd kv) = source_key pr ?item"
      using inv kv new by (intro fresh) (auto simp: merge_inv_def)
    then have "source_key pr c = source_key pr (snd kv)" by (simp add: source_key_anchored [OF clause])
    then have "source_key pr c \<in> source_key pr ` set (dict_values (fst st))" using mem by (rule image_eqI)
    with inv False show False by (simp add: merge_inv_def)
  qed
  then have "dict_set (fst st) (jget ?item ''id'') ?item = fst st @ [(jget ?item ''id'', ?item)]"
    by (rule dict_set_fresh)
  with False inv new show ?thesis
    by (auto simp: merge_step_def Let_def merge_inv_def dict_values_append source_key_anchored [OF clause])
      (simp_all add: dict_values_def source_key_anchored [OF clause])
qed

lemma merge_fold_inv:
  assumes "merge_inv pr old all st" and "\<forall>c\<in>set cs. anchored_criterion sha pr c tid \<in> all"
    and "\<forall>c\<in>set cs. \<exists>s. dict_get_or c ''clause_id'' (JStr []) = JStr s"
    and fresh: "\<And>a b. a \<in> all \<Longrightarrow> b \<in> all \<Longrightarrow> jget a ''id'' = jget b ''id'' \<Longrightarrow> source_key pr a = source_key pr b"
  shows "merge_inv pr old all (fold (merge_step sha pr tid) cs st)
     \<and> source_key pr ` set cs \<subseteq> set (snd (fold (merge_step sha pr tid) cs st))
     \<and> set (snd st) \<subseteq> set (snd (fold (merge_step sha pr tid) cs st))"
  using assms(1-3)
proof (induction cs arbitrary: st)
  case (Cons c cs)
  obtain s where clause: "dict_get_or c ''clause_id'' (JStr []) = JStr s" using Cons.prems(3) by auto
  have item: "anchored_criterion sha pr c tid \<in> all" using Cons.prems(2) by simp
  have step: "merge_inv pr old all (merge_step sha pr tid c st)
      \<and> set (snd (merge_step sha pr tid c st)) = insert (source_key pr c) (set (snd st))"
    by (rule merge_step_inv [OF Cons.prems(1) item clause fresh])
  have "merge_inv pr old all (fold (merge_step sha pr tid) cs (merge_step sha pr tid c st))
     \<and> source_key pr ` set cs \<subseteq> set (snd (fold (merge_step sha pr tid) cs (merge_step sha pr tid c st)))
     \<and> set (snd (merge_step sha pr tid c st)) \<subseteq> set (snd (fold (merge_step sha pr tid) cs (merge_step sha pr tid c st)))"
    by (rule Cons.IH) (use step Cons.prems(2,3) in simp_all)
  with step show ?case by simp
qed simp

lemma by_id_fresh:
  "distinct (map (\<lambda>c. jget c ''id'') cs) \<Longrightarrow> by_id cs = map (\<lambda>c. (jget c ''id'', c)) cs"
proof -
  have "distinct (map fst d @ map (\<lambda>c. jget c ''id'') cs) \<Longrightarrow>
      fold (\<lambda>c d. dict_set d (jget c ''id'') c) cs d = d @ map (\<lambda>c. (jget c ''id'', c)) cs" for d
  proof (induction cs arbitrary: d)
    case (Cons c cs)
    then have "jget c ''id'' \<notin> fst ` set d" by auto
    with Cons.IH [of "d @ [(jget c ''id'', c)]"] Cons.prems show ?case by (auto simp: dict_set_fresh)
  qed simp
  from this [of "[]"] show "distinct (map (\<lambda>c. jget c ''id'') cs) \<Longrightarrow> ?thesis" by (simp add: by_id_def)
qed

lemma merge_acceptance_keeps:
  assumes merged: "merge_acceptance sha pr t criteria = Inr cs"
    and proposed: "rmap (quoted_criterion pr t) criteria = Inr proposed"
    and ids: "distinct (map (\<lambda>c. jget c ''id'') (at_criteria t))"
    and clause: "\<forall>c\<in>set proposed. \<exists>s. dict_get_or c ''clause_id'' (JStr []) = JStr s"
    and fresh: "\<forall>a\<in>obligations sha pr t proposed. \<forall>b\<in>obligations sha pr t proposed.
       jget a ''id'' \<noteq> jget b ''id'' \<or> source_key pr a = source_key pr b"
  shows "set (at_criteria t) \<subseteq> set cs \<and> source_key pr ` set proposed \<subseteq> source_key pr ` set cs"
proof -
  let ?start = "(by_id (at_criteria t), map (source_key pr) (dict_values (by_id (at_criteria t))))"
  have vals: "dict_values (by_id (at_criteria t)) = at_criteria t"
    by (simp add: by_id_fresh [OF ids] dict_values_def comp_def)
  have "merge_inv pr (set (at_criteria t)) (obligations sha pr t proposed) ?start"
    unfolding merge_inv_def fst_conv snd_conv vals by (auto simp: obligations_def by_id_fresh [OF ids])
  moreover have "\<forall>c\<in>set proposed. anchored_criterion sha pr c (at_id t) \<in> obligations sha pr t proposed"
    by (simp add: obligations_def)
  moreover have "source_key pr a = source_key pr b"
    if "a \<in> obligations sha pr t proposed" "b \<in> obligations sha pr t proposed" "jget a ''id'' = jget b ''id''" for a b
    using fresh that by blast
  ultimately
  have "merge_inv pr (set (at_criteria t)) (obligations sha pr t proposed) (fold (merge_step sha pr (at_id t)) proposed ?start)
      \<and> source_key pr ` set proposed \<subseteq> set (snd (fold (merge_step sha pr (at_id t)) proposed ?start))"
    using merge_fold_inv [OF _ _ clause] by blast
  moreover have "cs = dict_values (fst (fold (merge_step sha pr (at_id t)) proposed ?start))"
    using merged proposed by (auto simp: merge_acceptance_def Let_def split: if_splits)
  ultimately show ?thesis unfolding merge_inv_def by blast
qed

section \<open>Properties of the task manager\<close>

text \<open>
  C14: A well-formed plan that is saved is what the store then loads under its id and as the
  current task, field by field, and no other stored task changes.
\<close>

theorem saved_task_reloads:
  assumes "store_save t dir = Inr dir'" and "task_ok sha t" and "valid_task_id (at_id t)"
  shows "store_load sha pr (at_id t) dir' = Inr t \<and> store_load_current sha pr dir' = Inr (Some t)
     \<and> (\<forall>i. i = at_id t \<or> store_load sha pr i dir' = store_load sha pr i dir)"
  using task_files.load_saved [OF assms, of pr] load_current_saved [OF assms(1,2), of pr]
    task_files.load_other [OF assms(1)] by blast

definition sample_task :: active_task where
  "sample_task = (new_task ''0123456789abcdef'' ''Fix the parser and keep the tests green'' True ''explicit'')
     \<lparr>at_planned := True, at_scope_hints := [''src/**'']\<rparr>"

theorem saved_task_reloads_witness:
  "\<exists>dir'. store_save sample_task [] = Inr dir' \<and> store_load (\<lambda>s. s) (\<lambda>_. []) (at_id sample_task) dir' = Inr sample_task"
proof -
  have valid: "valid_task_id (at_id sample_task)" by code_simp
  have ok: "task_ok (\<lambda>s. s) sample_task" by (simp add: task_ok_def sample_task_def new_task_def)
  obtain dir' where saved: "store_save sample_task [] = Inr dir'"
    by (simp add: store_save_def sample_task_def)
  from saved_task_reloads [OF saved ok valid] saved show ?thesis by blast
qed

text \<open>
  C15: From a manager whose active and stored tasks are consistent (a new one, for example),
  whatever sequence of operations runs, failing ones and restores included, the active plan and
  every stored one has distinct step ids, at most one step in progress (the current one while there
  is a current one), and evidence for each completed step. A restore installs what it is given
  without a check; it is assumed to be given a task that was active earlier in the run, as a rewind
  does, or a consistent one from elsewhere.
\<close>

theorem plans_stay_consistent:
  assumes "tm_inv sha pr tm" and "restores_known sha pr ops tm"
  shows "(case tm_active (run_ops sha pr ops tm) of None \<Rightarrow> True | Some t \<Rightarrow> plan_ok t)
     \<and> (\<forall>i. case store_load sha pr i (tm_dir (run_ops sha pr ops tm)) of Inl e \<Rightarrow> True | Inr t \<Rightarrow> plan_ok t)"
  using run_ops_inv [OF assms] task_files.all_stored_load [of sha pr "task_good sha"]
  by (fastforce simp: tm_inv_def task_good_def split: option.split sum.split)

definition empty_manager :: task_manager where
  "empty_manager = \<lparr>tm_active = None, tm_directive = [], tm_dir = []\<rparr>"

lemma tm_inv_empty: "tm_inv sha pr empty_manager"
  by (simp add: tm_inv_def empty_manager_def task_files.all_stored_def store_load_def store_read_def)

definition first_ops :: "task_op list" where
  "first_ops = [OpStart ''0123456789ab'' ''Fix the parser'' True None, OpPlan [''read'', ''edit''] [] [] False []]"

text \<open>A rewind: the plan is restored as it was before its first step was completed.\<close>

definition sample_ops :: "task_op list" where
  "sample_ops = first_ops @ [OpUpdate ''1'' ''completed'' [''read parser.py''],
     OpRestore (tm_active (run_ops (\<lambda>s. s) (\<lambda>_. []) first_ops empty_manager)), OpUpdate ''step-1'' ''in_progress'' [], OpComplete]"

lemma sample_restores: "restores_known (\<lambda>s. s) (\<lambda>_. []) sample_ops empty_manager"
proof -
  let ?rewound = "tm_active (run_ops (\<lambda>s. s) (\<lambda>_. []) first_ops empty_manager)"
  have "\<exists>later. before = first_ops @ later \<and> ?rewound = Some t"
    if "sample_ops = before @ OpRestore (Some t) # after" for before t after
    using that by (auto simp: sample_ops_def first_ops_def Cons_eq_append_conv)
  then show ?thesis unfolding restores_known_def by metis
qed

theorem plans_stay_consistent_witness:
  "case tm_active (run_ops (\<lambda>s. s) (\<lambda>_. []) sample_ops empty_manager) of None \<Rightarrow> True | Some t \<Rightarrow> plan_ok t"
  using plans_stay_consistent [OF tm_inv_empty sample_restores] by blast

text \<open>
  C16: A quoted requirement is anchored exactly when its words occur in this order in the goal or a
  directive, separated by white space only, and what is kept is that span of the original text.
\<close>

theorem acceptance_quotes_exact:
  "(\<forall>m. anchored_source_quote quote sources = Inr m \<longrightarrow> spans quote sources m)
   \<and> ((\<exists>m. anchored_source_quote quote sources = Inr m) \<longleftrightarrow> split_ws quote \<noteq> [] \<and> (\<exists>m. spans quote sources m))"
  using anchored_quote_sound anchored_quote_complete by blast

theorem acceptance_quotes_exact_witness:
  "spans ''keep  tests'' [''please keep'' @ [NL] @ ''tests green''] (''keep'' @ [NL] @ ''tests'')"
proof -
  have "anchored_source_quote ''keep  tests'' [''please keep'' @ [NL] @ ''tests green''] = Inr (''keep'' @ [NL] @ ''tests'')"
    by code_simp
  then show ?thesis using acceptance_quotes_exact by blast
qed

text \<open>
  C17: Registering or replanning acceptance criteria never drops, rephrases or weakens one: all
  recorded criteria stay as they are, and each proposal is represented by one with its quote and
  clause. (Computed ids are assumed not to collide among the criteria at hand.)
\<close>

theorem obligations_never_weakened:
  assumes "merge_acceptance sha pr t criteria = Inr cs"
    and "rmap (quoted_criterion pr t) criteria = Inr proposed"
    and "distinct (map (\<lambda>c. jget c ''id'') (at_criteria t))"
    and "\<forall>c\<in>set proposed. \<exists>s. dict_get_or c ''clause_id'' (JStr []) = JStr s"
    and "\<forall>a\<in>obligations sha pr t proposed. \<forall>b\<in>obligations sha pr t proposed.
       jget a ''id'' \<noteq> jget b ''id'' \<or> source_key pr a = source_key pr b"
  shows "set (at_criteria t) \<subseteq> set cs \<and> source_key pr ` set proposed \<subseteq> source_key pr ` set cs"
  using assms by (rule merge_acceptance_keeps)

definition sample_proposal :: "str \<Rightarrow> str \<Rightarrow> jdict" where
  "sample_proposal quote condition = [(''source_quote'', JStr quote), (''condition'', JStr condition), (''check'', JStr ''run''),
     (''clause_id'', JStr [])]"

definition recorded_task :: active_task where
  "recorded_task = sample_task\<lparr>at_criteria := [anchored_criterion rev (\<lambda>_. []) (sample_proposal ''Fix the parser'' ''parses'') (at_id sample_task)]\<rparr>"

theorem obligations_never_weakened_witness:
  "\<exists>cs. merge_acceptance rev (\<lambda>_. []) recorded_task
       [sample_proposal ''Fix the parser'' ''weaker'', sample_proposal ''keep the tests green'' ''green''] = Inr cs
     \<and> set (at_criteria recorded_task) \<subseteq> set cs"
proof -
  let ?criteria = "[sample_proposal ''Fix the parser'' ''weaker'', sample_proposal ''keep the tests green'' ''green'']"
  have quoted: "rmap (quoted_criterion (\<lambda>_. []) recorded_task) ?criteria = Inr ?criteria" by code_simp
  obtain cs where merged: "merge_acceptance rev (\<lambda>_. []) recorded_task ?criteria = Inr cs"
  proof -
    have "case merge_acceptance rev (\<lambda>_. []) recorded_task ?criteria of Inr cs \<Rightarrow> True | Inl e \<Rightarrow> False" by code_simp
    with that show thesis by (cases "merge_acceptance rev (\<lambda>_. []) recorded_task ?criteria") auto
  qed
  have "set (at_criteria recorded_task) \<subseteq> set cs"
    by (rule obligations_never_weakened [OF merged quoted, THEN conjunct1])
      (simp add: recorded_task_def, simp add: sample_proposal_def dict_get_or_def dict_get_def, code_simp)
  with merged show ?thesis by blast
qed

text \<open>
  C18: While a task lasts, no operation on it (replanning with other scope hints included) changes
  an explicit scope: the paths it reports as outside are those no pattern of the original scope
  matches.
\<close>

theorem explicit_scope_stays:
  assumes "tm_active tm = Some t" and "at_scope_source t = ''explicit''" and "at_scope_hints t \<noteq> []"
    and "list_all same_task_op ops"
  shows "outside_scope paths (run_ops sha pr ops tm) = filter (\<lambda>p. \<not> list_ex (task_path_matches p) (at_scope_hints t)) paths"
proof -
  have "keeps_scope t tm" using assms(1,2) by (simp add: keeps_scope_def)
  then have "keeps_scope t (run_ops sha pr ops tm)"
    using run_ops_scope assms(3,4) by (simp add: list_all_iff)
  then show ?thesis using assms(3) by (auto simp: keeps_scope_def outside_scope_def)
qed

theorem explicit_scope_stays_witness:
  "outside_scope [''src/a.py'', ''docs/b.md'']
     (run_ops (\<lambda>s. s) (\<lambda>_. []) [OpPlan [''a'', ''b''] [] [''docs/**''] True []] (empty_manager\<lparr>tm_active := Some sample_task\<rparr>))
   = [''docs/b.md'']"
proof -
  have "filter (\<lambda>p. \<not> list_ex (task_path_matches p) (at_scope_hints sample_task)) [''src/a.py'', ''docs/b.md''] = [''docs/b.md'']"
    by code_simp
  moreover have "outside_scope [''src/a.py'', ''docs/b.md'']
     (run_ops (\<lambda>s. s) (\<lambda>_. []) [OpPlan [''a'', ''b''] [] [''docs/**''] True []] (empty_manager\<lparr>tm_active := Some sample_task\<rparr>))
     = filter (\<lambda>p. \<not> list_ex (task_path_matches p) (at_scope_hints sample_task)) [''src/a.py'', ''docs/b.md'']"
    by (rule explicit_scope_stays) (simp_all add: sample_task_def new_task_def)
  ultimately show ?thesis by simp
qed

end
