(* ===== verification/Tool_Paths.thy ===== *)
theory Tool_Paths
  imports Runtime_State Py_Paths
begin

text \<open>
  \<open>forge/tools/paths.py\<close> and the newline functions of \<open>forge/tools/filesystem.py\<close>. How a path
  resolves (symbolic links included) and what exists are arguments. The sandbox's access guard is not set.
\<close>

text \<open>Exceptions of the tools: a code, a message and details; one flag tells \<open>_EnvelopeError\<close>, the
  other an \<open>OSError\<close> (which has no code and no details).\<close>

record tool_exn =
  tx_envelope :: bool
  tx_os :: bool
  tx_code :: str
  tx_message :: str
  tx_details :: jdict

definition tool_execution_error :: "str \<Rightarrow> str \<Rightarrow> jdict \<Rightarrow> tool_exn" where
  "tool_execution_error code message details =
     \<lparr>tx_envelope = False, tx_os = False, tx_code = code, tx_message = message, tx_details = details\<rparr>"

definition CONTROL_PLANE_DIRECTORIES :: "str list" where
  "CONTROL_PLANE_DIRECTORIES = [''.forge'']"

definition PUBLIC_ENV_FILES :: "str list" where
  "PUBLIC_ENV_FILES = [''.env.example'']"

definition protected_part :: "str \<Rightarrow> bool" where
  "protected_part part \<longleftrightarrow>
     (let name = py_casefold part in
      name \<in> set CONTROL_PLANE_DIRECTORIES \<or> name = ''.env''
      \<or> startswith name ''.env.'' \<and> name \<notin> set PUBLIC_ENV_FILES)"

definition is_repository_path_protected :: "str \<Rightarrow> bool" where
  "is_repository_path_protected path \<longleftrightarrow> list_ex protected_part (path_parts path)"

definition resolve_repository_path ::
  "(str \<Rightarrow> str) \<Rightarrow> (str \<Rightarrow> bool) \<Rightarrow> bool \<Rightarrow> str \<Rightarrow> tool_exn + str" where
  "resolve_repository_path resolve exists must_exist raw =
     (let resolved = resolve raw in
      guard (is_repository_path_protected resolved)
        (tool_execution_error ''protected_path'' (''Path is protected from repository tools: '' @ raw) [(''path'', JStr raw)])
      (guard (must_exist \<and> \<not> exists resolved)
        (tool_execution_error ''path_not_found'' (''Path does not exist: '' @ raw) [])
      (Inr resolved)))"

definition display_path :: "str \<Rightarrow> str \<Rightarrow> str" where
  "display_path base path =
     (let rp = path_parts base; pp = path_parts path in
      if take (length rp) pp = rp
      then (let relative = py_join ''/'' (drop (length rp) pp) in if relative = [] then ''.'' else relative)
      else path_posix path)"

text \<open>The paths a call may change, read from its arguments only.\<close>

definition PATCH_PREFIXES :: "str list" where
  "PATCH_PREFIXES = [''*** Update File:'', ''*** Add File:'', ''*** Delete File:'', ''*** Move to:'', ''+++ b/'', ''--- a/'']"

definition patch_line_path :: "str \<Rightarrow> str option" where
  "patch_line_path line =
     (let stripped = py_strip line in
      case find_opt (startswith stripped) PATCH_PREFIXES of
        None \<Rightarrow> None
      | Some p \<Rightarrow> (let path = slashes (py_strip (drop (length p) stripped)) in
          if path \<noteq> [] \<and> path \<noteq> ''/dev/null'' then Some path else None))"

definition mutation_target_paths :: "nat option \<Rightarrow> tool_call \<Rightarrow> str list" where
  "mutation_target_paths maximum call =
     (let direct = (case jget (tc_arguments call) ''path'' of
            JStr p \<Rightarrow> (if py_strip p \<noteq> [] then [slashes (py_strip p)] else []) | _ \<Rightarrow> []);
          patched = (case jget (tc_arguments call) ''patch'' of
            JStr p \<Rightarrow> List.map_filter patch_line_path (splitlines p) | _ \<Rightarrow> []);
          unique = fromkeys (direct @ patched)
      in (case maximum of None \<Rightarrow> unique | Some n \<Rightarrow> take n unique))"

text \<open>
  The paths a checkpoint must cover: for a directory removal inside the repository also what lies
  below it, parents first. \<open>below\<close> lists those entries of a directory, \<open>inside\<close> and \<open>is_dir\<close>
  answer for the resolved path.
\<close>

definition checkpoint_mutation_paths :: "(str \<Rightarrow> bool) \<Rightarrow> (str \<Rightarrow> bool) \<Rightarrow> (str \<Rightarrow> str list) \<Rightarrow> tool_call \<Rightarrow> str list" where
  "checkpoint_mutation_paths inside is_dir below call =
     (let targets = mutation_target_paths None call in
      if tc_name call \<noteq> ''remove_directory'' \<or> targets = [] then targets
      else (let raw = hd targets in
        if \<not> inside raw \<or> \<not> is_dir raw then targets
        else fromkeys (raw # sort_key (\<lambda>p. length (filter (\<lambda>c. c = CHR ''/'') p)) (sort (below raw)))))"

subsection \<open>Line endings\<close>

fun newline_counts :: "str \<Rightarrow> nat \<times> nat \<times> nat" where
  "newline_counts [] = (0, 0, 0)"
| "newline_counts [c] = (0, if c = NL then 1 else 0, if c = CR then 1 else 0)"
| "newline_counts (c # d # s) =
     (if c = CR \<and> d = NL then (let (x, n, r) = newline_counts s in (x + 1, n, r))
      else (let (x, n, r) = newline_counts (d # s) in
        (x, n + (if c = NL then 1 else 0), r + (if c = CR then 1 else 0))))"

definition dominant_newline :: "str \<Rightarrow> str" where
  "dominant_newline content =
     (let (crlf, lf, cr) = newline_counts content in
      if lf \<le> crlf \<and> cr \<le> crlf \<and> 0 < crlf then [CR, NL]
      else if cr \<le> lf \<and> 0 < lf then [NL]
      else if 0 < cr then [CR] else [NL])"

fun unify_newlines :: "str \<Rightarrow> str" where
  "unify_newlines [] = []"
| "unify_newlines [c] = [if c = CR then NL else c]"
| "unify_newlines (c # d # s) =
     (if c = CR \<and> d = NL then NL # unify_newlines s else (if c = CR then NL else c) # unify_newlines (d # s))"

definition convert_newlines :: "str \<Rightarrow> str \<Rightarrow> str" where
  "convert_newlines content newline = concat (map (\<lambda>c. if c = NL then newline else [c]) (unify_newlines content))"

fun splitlines_keep_acc :: "str \<Rightarrow> str \<Rightarrow> str list" where
  "splitlines_keep_acc acc [] = (if acc = [] then [] else [rev acc])"
| "splitlines_keep_acc acc [c] = [rev (c # acc)]"
| "splitlines_keep_acc acc (c # d # s) =
     (if c = CR \<and> d = NL then rev (d # c # acc) # splitlines_keep_acc [] s
      else if is_linebreak c then rev (c # acc) # splitlines_keep_acc [] (d # s)
      else splitlines_keep_acc (c # acc) (d # s))"

text \<open>\<open>s.splitlines(keepends=True)\<close>\<close>

definition splitlines_keep :: "str \<Rightarrow> str list" where
  "splitlines_keep s = splitlines_keep_acc [] s"

lemma concat_splitlines_keep: "concat (splitlines_keep s) = s"
proof -
  have "concat (splitlines_keep_acc acc s) = rev acc @ s" for acc
    by (induction acc s rule: splitlines_keep_acc.induct) auto
  then show ?thesis by (simp add: splitlines_keep_def)
qed

end
