(* ===== verification/Py_Difflib.thy ===== *)
theory Py_Difflib
  imports Py_Text
begin

text \<open>
  \<open>difflib.unified_diff\<close> as the patch tool calls it (three lines of context, no dates): the
  longest-match recursion of \<open>SequenceMatcher\<close> with its index \<open>b2j\<close> (popular lines of a long text
  are left out of it), the opcodes, their grouping and the rendering. A block \<open>(i, j, k)\<close> says
  that \<open>k\<close> lines from \<open>i\<close> on of the old text equal those from \<open>j\<close> on of the new one.
\<close>

type_synonym block = "nat \<times> nat \<times> nat"

subsection \<open>Matching blocks\<close>

text \<open>The positions of a line in the new text, none if it is popular.\<close>

definition positions :: "str list \<Rightarrow> str \<Rightarrow> nat list" where
  "positions b x =
     (let js = filter (\<lambda>j. b ! j = x) [0..<length b] in
      if 200 \<le> length b \<and> length js > length b div 100 + 1 then [] else js)"

text \<open>
  One row of the table: \<open>prev\<close> holds the length of the match ending at each position of the row
  before, \<open>new\<close> those of this row, \<open>best\<close> the longest so far.
\<close>

fun match_row :: "nat \<Rightarrow> nat \<Rightarrow> nat \<Rightarrow> (nat \<times> nat) list \<Rightarrow> nat list \<Rightarrow> (nat \<times> nat) list \<Rightarrow> block \<Rightarrow> (nat \<times> nat) list \<times> block" where
  "match_row blo bhi i prev [] new best = (new, best)"
| "match_row blo bhi i prev (j # js) new best =
     (if j < blo then match_row blo bhi i prev js new best
      else if bhi \<le> j then (new, best)
      else (let k = (if j = 0 then 0 else case map_of prev (j - 1) of None \<Rightarrow> 0 | Some n \<Rightarrow> n) + 1;
                best = (if k > snd (snd best) then (i + 1 - k, j + 1 - k, k) else best)
            in match_row blo bhi i prev js ((j, k) # new) best))"

fun match_rows :: "(str \<Rightarrow> nat list) \<Rightarrow> str list \<Rightarrow> nat \<Rightarrow> nat \<Rightarrow> nat list \<Rightarrow> (nat \<times> nat) list \<Rightarrow> block \<Rightarrow> block" where
  "match_rows index a blo bhi [] prev best = best"
| "match_rows index a blo bhi (i # rows) prev best =
     (let (new, best) = match_row blo bhi i prev (index (a ! i)) [] best in
      match_rows index a blo bhi rows new best)"

text \<open>Popular lines next to the longest match extend it.\<close>

fun extend_back :: "str list \<Rightarrow> str list \<Rightarrow> nat \<Rightarrow> nat \<Rightarrow> nat \<Rightarrow> nat \<Rightarrow> nat \<Rightarrow> block" where
  "extend_back a b alo blo 0 j k = (0, j, k)"
| "extend_back a b alo blo (Suc i) 0 k = (Suc i, 0, k)"
| "extend_back a b alo blo (Suc i) (Suc j) k =
     (if alo < Suc i \<and> blo < Suc j \<and> a ! i = b ! j then extend_back a b alo blo i j (k + 1) else (Suc i, Suc j, k))"

function extend_forward :: "str list \<Rightarrow> str list \<Rightarrow> nat \<Rightarrow> nat \<Rightarrow> block \<Rightarrow> block" where
  "extend_forward a b ahi bhi (i, j, k) =
     (if i + k < ahi \<and> j + k < bhi \<and> a ! (i + k) = b ! (j + k) then extend_forward a b ahi bhi (i, j, k + 1) else (i, j, k))"
  by pat_completeness auto
termination
  by (relation "measure (\<lambda>(a, b, ahi, bhi, i, j, k). ahi - (i + k))") auto

declare extend_forward.simps [simp del]

definition longest_match :: "str list \<Rightarrow> str list \<Rightarrow> nat \<Rightarrow> nat \<Rightarrow> nat \<Rightarrow> nat \<Rightarrow> block" where
  "longest_match a b alo ahi blo bhi =
     (let (i, j, k) = match_rows (positions b) a blo bhi [alo..<ahi] [] (alo, blo, 0)
      in extend_forward a b ahi bhi (extend_back a b alo blo i j k))"

text \<open>A longest match lies inside its region.\<close>

definition inside :: "nat \<Rightarrow> nat \<Rightarrow> nat \<Rightarrow> nat \<Rightarrow> block \<Rightarrow> bool" where
  "inside alo ahi blo bhi m = (case m of (i, j, k) \<Rightarrow> alo \<le> i \<and> i + k \<le> ahi \<and> blo \<le> j \<and> j + k \<le> bhi)"

definition row_ok :: "nat \<Rightarrow> nat \<Rightarrow> (nat \<times> nat) list \<Rightarrow> bool" where
  "row_ok h blo lens \<longleftrightarrow> (\<forall>(j, n)\<in>set lens. n \<le> h \<and> blo + n \<le> j + 1)"

lemma match_row_inside:
  "row_ok (i - alo) blo prev \<Longrightarrow> row_ok (Suc i - alo) blo new \<Longrightarrow> alo \<le> i \<Longrightarrow> i < ahi \<Longrightarrow> inside alo ahi blo bhi best \<Longrightarrow>
   row_ok (Suc i - alo) blo (fst (match_row blo bhi i prev js new best))
     \<and> inside alo ahi blo bhi (snd (match_row blo bhi i prev js new best))"
proof (induction blo bhi i prev js new best rule: match_row.induct)
  case (1 blo bhi i prev new best)
  then show ?case by simp
next
  case (2 blo bhi i prev j js new best)
  define k where "k = (if j = 0 then 0 else case map_of prev (j - 1) of None \<Rightarrow> 0 | Some n \<Rightarrow> n) + 1"
  show ?case
  proof (cases "j < blo \<or> bhi \<le> j")
    case True
    then show ?thesis using 2 by auto
  next
    case False
    have k: "k \<le> Suc i - alo \<and> blo + k \<le> j + 1"
    proof (cases "\<exists>n. j \<noteq> 0 \<and> map_of prev (j - 1) = Some n")
      case True
      then obtain n where n: "j \<noteq> 0" "map_of prev (j - 1) = Some n" by blast
      then have "(j - 1, n) \<in> set prev" by (simp add: map_of_SomeD)
      then have "n \<le> i - alo \<and> blo + n \<le> j - 1 + 1" using 2 by (auto simp: row_ok_def)
      then show ?thesis using n 2 by (auto simp: k_def)
    next
      case none: False
      then have "k = 1" by (auto simp: k_def split: option.splits)
      then show ?thesis using False 2 by auto
    qed
    define best' where "best' = (if k > snd (snd best) then (i + 1 - k, j + 1 - k, k) else best)"
    have new: "row_ok (Suc i - alo) blo ((j, k) # new)" using k 2 by (simp add: row_ok_def)
    have best: "inside alo ahi blo bhi best'" using k 2 False by (auto simp: best'_def inside_def)
    have step: "match_row blo bhi i prev (j # js) new best = match_row blo bhi i prev js ((j, k) # new) best'"
      using False by (simp add: Let_def k_def best'_def)
    have "row_ok (Suc i - alo) blo (fst (match_row blo bhi i prev js ((j, k) # new) best'))
       \<and> inside alo ahi blo bhi (snd (match_row blo bhi i prev js ((j, k) # new) best'))"
      by (rule "2.IH"(2) [OF _ _ k_def best'_def]) (use False new best "2.prems" in simp_all)
    then show ?thesis unfolding step .
  qed
qed

lemma match_rows_inside:
  "row_ok (i - alo) blo prev \<Longrightarrow> alo \<le> i \<Longrightarrow> inside alo ahi blo bhi best \<Longrightarrow>
   inside alo ahi blo bhi (match_rows index a blo bhi [i..<ahi] prev best)"
proof (induction "ahi - i" arbitrary: i prev best)
  case 0
  then show ?case by simp
next
  case (Suc n)
  then have rows: "[i..<ahi] = i # [Suc i..<ahi]" by (simp add: upt_rec)
  obtain new best' where row: "match_row blo bhi i prev (index (a ! i)) [] best = (new, best')" by (metis surj_pair)
  then have "row_ok (Suc i - alo) blo new \<and> inside alo ahi blo bhi best'"
    using match_row_inside [of i alo blo prev "[]" ahi bhi best "index (a ! i)"] Suc by (auto simp: row_ok_def)
  then show ?case using Suc row by (simp add: rows)
qed

lemma extend_back_inside:
  "inside alo ahi blo bhi (i, j, k) \<Longrightarrow> inside alo ahi blo bhi (extend_back a b alo blo i j k)"
  by (induction a b alo blo i j k rule: extend_back.induct) (auto simp: inside_def)

lemma extend_forward_inside:
  "inside alo ahi blo bhi m \<Longrightarrow> inside alo ahi blo bhi (extend_forward a b ahi bhi m)"
proof (induction a b ahi bhi m rule: extend_forward.induct)
  case (1 a b ahi bhi i j k)
  then show ?case by (subst extend_forward.simps) (auto simp: inside_def)
qed

lemma longest_match_bounds:
  "alo \<le> ahi \<Longrightarrow> blo \<le> bhi \<Longrightarrow> inside alo ahi blo bhi (longest_match a b alo ahi blo bhi)"
  using match_rows_inside [of alo alo blo "[]" ahi bhi "(alo, blo, 0)" "positions b" a]
  by (auto simp: longest_match_def row_ok_def inside_def [of _ _ _ _ "(alo, blo, 0)"] split: prod.splits
      intro!: extend_forward_inside extend_back_inside)

text \<open>
  The blocks of a region, in order. The recursion looks left and right of the longest match; that
  the match lies inside the region (\<open>longest_match_bounds\<close>) makes it end, and the two bounds it is
  guarded with here always hold.
\<close>

function diff_blocks :: "str list \<Rightarrow> str list \<Rightarrow> nat \<Rightarrow> nat \<Rightarrow> nat \<Rightarrow> nat \<Rightarrow> block list" where
  "diff_blocks a b alo ahi blo bhi =
     (let (i, j, k) = longest_match a b alo ahi blo bhi in
      if k = 0 \<or> i < alo \<or> ahi < i + k then []
      else (if alo < i \<and> blo < j then diff_blocks a b alo i blo j else [])
         @ [(i, j, k)]
         @ (if i + k < ahi \<and> j + k < bhi then diff_blocks a b (i + k) ahi (j + k) bhi else []))"
  by pat_completeness auto
termination
  by (relation "measure (\<lambda>(a, b, alo, ahi, blo, bhi). ahi - alo)") auto

declare diff_blocks.simps [simp del]

text \<open>Adjacent blocks are merged, and a block of no lines ends the list.\<close>

fun merge_blocks :: "block \<Rightarrow> block list \<Rightarrow> block list" where
  "merge_blocks (i, j, k) [] = (if k = 0 then [] else [(i, j, k)])"
| "merge_blocks (i, j, k) ((i', j', k') # bs) =
     (if i + k = i' \<and> j + k = j' then merge_blocks (i, j, k + k') bs
      else (if k = 0 then [] else [(i, j, k)]) @ merge_blocks (i', j', k') bs)"

definition matching_blocks :: "str list \<Rightarrow> str list \<Rightarrow> block list" where
  "matching_blocks a b = merge_blocks (0, 0, 0) (diff_blocks a b 0 (length a) 0 (length b)) @ [(length a, length b, 0)]"

subsection \<open>Opcodes\<close>

datatype optag = Equal | Replace | Delete | Insert

type_synonym opcode = "optag \<times> nat \<times> nat \<times> nat \<times> nat"

fun opcodes_from :: "nat \<Rightarrow> nat \<Rightarrow> block list \<Rightarrow> opcode list" where
  "opcodes_from i j [] = []"
| "opcodes_from i j ((ai, bj, sz) # bs) =
     (if i < ai \<and> j < bj then [(Replace, i, ai, j, bj)]
      else if i < ai then [(Delete, i, ai, j, bj)]
      else if j < bj then [(Insert, i, ai, j, bj)] else [])
     @ (if sz = 0 then [] else [(Equal, ai, ai + sz, bj, bj + sz)])
     @ opcodes_from (ai + sz) (bj + sz) bs"

definition opcodes :: "str list \<Rightarrow> str list \<Rightarrow> opcode list" where
  "opcodes a b = opcodes_from 0 0 (matching_blocks a b)"

definition clip_head :: "opcode \<Rightarrow> opcode" where
  "clip_head op = (case op of (tag, i1, i2, j1, j2) \<Rightarrow> (if tag = Equal then (tag, max i1 (i2 - 3), i2, max j1 (j2 - 3), j2) else op))"

definition clip_tail :: "opcode \<Rightarrow> opcode" where
  "clip_tail op = (case op of (tag, i1, i2, j1, j2) \<Rightarrow> (if tag = Equal then (tag, i1, min i2 (i1 + 3), j1, min j2 (j1 + 3)) else op))"

fun group_from :: "opcode list \<Rightarrow> opcode list \<Rightarrow> opcode list list" where
  "group_from grp [] =
     (if grp = [] \<or> (length grp = 1 \<and> fst (hd grp) = Equal) then [] else [rev grp])"
| "group_from grp ((tag, i1, i2, j1, j2) # ops) =
     (if tag = Equal \<and> 6 < i2 - i1
      then rev ((tag, i1, min i2 (i1 + 3), j1, min j2 (j1 + 3)) # grp)
           # group_from [(tag, max i1 (i2 - 3), i2, max j1 (j2 - 3), j2)] ops
      else group_from ((tag, i1, i2, j1, j2) # grp) ops)"

definition grouped_opcodes :: "opcode list \<Rightarrow> opcode list list" where
  "grouped_opcodes codes =
     (let codes = (if codes = [] then [(Equal, 0, 1, 0, 1)] else codes);
          codes = clip_head (hd codes) # tl codes;
          codes = butlast codes @ [clip_tail (last codes)]
      in group_from [] codes)"

subsection \<open>Rendering\<close>

definition format_range :: "nat \<Rightarrow> nat \<Rightarrow> str" where
  "format_range start stop =
     (if stop - start = 1 then nat_str (start + 1)
      else nat_str (if stop = start then start else start + 1) @ '','' @ nat_str (stop - start))"

definition lines_between :: "'a list \<Rightarrow> nat \<Rightarrow> nat \<Rightarrow> 'a list" where
  "lines_between xs i j = take (j - i) (drop i xs)"

definition render_opcode :: "str list \<Rightarrow> str list \<Rightarrow> opcode \<Rightarrow> str list" where
  "render_opcode a b op = (case op of (tag, i1, i2, j1, j2) \<Rightarrow>
     (case tag of
        Equal \<Rightarrow> map (\<lambda>l. '' '' @ l) (lines_between a i1 i2)
      | _ \<Rightarrow> (if tag = Insert then [] else map (\<lambda>l. ''-'' @ l) (lines_between a i1 i2))
           @ (if tag = Delete then [] else map (\<lambda>l. ''+'' @ l) (lines_between b j1 j2))))"

definition render_group :: "str list \<Rightarrow> str list \<Rightarrow> opcode list \<Rightarrow> str list" where
  "render_group a b grp =
     (case (hd grp, last grp) of ((_, i1, _, j1, _), (_, _, i2, _, j2)) \<Rightarrow>
        (''@@ -'' @ format_range i1 i2 @ '' +'' @ format_range j1 j2 @ '' @@'' @ [NL])
        # concat (map (render_opcode a b) grp))"

definition unified_diff :: "str list \<Rightarrow> str list \<Rightarrow> str \<Rightarrow> str \<Rightarrow> str list" where
  "unified_diff a b fromfile tofile =
     (let groups = grouped_opcodes (opcodes a b) in
      if groups = [] then []
      else [''--- '' @ fromfile @ [NL], ''+++ '' @ tofile @ [NL]] @ concat (map (render_group a b) groups))"

end
