(* ===== verification/Patch.thy ===== *)
theory Patch
  imports Tool_Paths Py_Difflib Py_Stdlib
begin

text \<open>
  \<open>forge/tools/patch.py\<close>: the Codex envelope, its translation to a unified diff, and the unified
  diff applied without Git. The repository is a record: its root, path resolution, the files by
  resolved path (with their text, \<open>None\<close> when it is no UTF-8), the directories, the text of the
  \<open>UnicodeDecodeError\<close> of a file that is none, and the paths whose reading or writing fails with an
  \<open>OSError\<close>, with its text. Git itself is a function from the patch to what \<open>git apply\<close> reports and
  leaves behind, or to the failure to start it. Path resolution and the tests for existence are
  total here, as \<open>Path.resolve(strict=False)\<close>, \<open>exists\<close> and \<open>is_file\<close> swallow the usual \<open>OSError\<close>s.
\<close>

record repo =
  rp_root :: str
  rp_resolve :: "str \<Rightarrow> str"
  rp_files :: "(str, str option) dict"
  rp_is_dir :: "str \<Rightarrow> bool"
  rp_decode_error :: "str \<Rightarrow> str"
  rp_read_error :: "str \<Rightarrow> str option"
  rp_write_error :: "str \<Rightarrow> str option"

definition rp_is_file :: "repo \<Rightarrow> str \<Rightarrow> bool" where
  "rp_is_file rp p \<longleftrightarrow> dict_get (rp_files rp) p \<noteq> None"

definition rp_exists :: "repo \<Rightarrow> str \<Rightarrow> bool" where
  "rp_exists rp p \<longleftrightarrow> rp_is_file rp p \<or> rp_is_dir rp p"

definition rp_path :: "repo \<Rightarrow> bool \<Rightarrow> str \<Rightarrow> tool_exn + str" where
  "rp_path rp must_exist raw = resolve_repository_path (rp_resolve rp) (rp_exists rp) must_exist raw"

definition envelope_error :: "str \<Rightarrow> str \<Rightarrow> jdict \<Rightarrow> tool_exn" where
  "envelope_error code message details = \<lparr>tx_envelope = True, tx_os = False, tx_code = code, tx_message = message, tx_details = details\<rparr>"

definition rejected :: "str \<Rightarrow> tool_exn" where
  "rejected message = envelope_error ''patch_rejected'' message []"

definition os_error :: "str \<Rightarrow> tool_exn" where
  "os_error message = \<lparr>tx_envelope = False, tx_os = True, tx_code = [], tx_message = message, tx_details = []\<rparr>"

section \<open>The Codex envelope\<close>

record envelope_op =
  eo_kind :: str
  eo_path :: str
  eo_body :: "str list"

definition END_OF_FILE :: str where
  "END_OF_FILE = ''*** End of File''"

definition is_codex_envelope :: "str \<Rightarrow> bool" where
  "is_codex_envelope patch = startswith (lstrip_chars [CR, NL] patch) ''*** Begin Patch''"

text \<open>\<open>^\*\*\* (Update|Add|Delete) File: (.+)$\<close>: the kind, folded, and the raw path.\<close>

definition op_header :: "str \<Rightarrow> (str \<times> str) option" where
  "op_header l = find_opt (\<lambda>_. True) (List.map_filter (\<lambda>(kind, p).
       if startswith l p \<and> drop (length p) l \<noteq> [] then Some (kind, drop (length p) l) else None)
     [(''update'', ''*** Update File: ''), (''add'', ''*** Add File: ''), (''delete'', ''*** Delete File: '')])"

definition bad_directive :: "str \<Rightarrow> bool" where
  "bad_directive l \<longleftrightarrow> startswith l ''*** '' \<and> l \<noteq> END_OF_FILE"

function envelope_ops :: "nat \<Rightarrow> str list \<Rightarrow> str list \<Rightarrow> tool_exn + envelope_op list" where
  "envelope_ops n seen [] = Inr []"
| "envelope_ops n seen (l # ls) =
     (case op_header l of
        None \<Rightarrow> Inl (rejected (''Expected an Update/Add/Delete File header at envelope line '' @ nat_str (n + 1)
            @ '': '' @ py_repr l @ ''.''))
      | Some (kind, raw) \<Rightarrow>
          (let path = slashes (py_strip raw);
               body = takeWhile (\<lambda>x. op_header x = None) ls
           in if path = [] \<or> NL \<in> set path \<or> CR \<in> set path then Inl (rejected ''Patch file path must not be empty.'')
              else if path \<in> set seen
              then Inl (rejected (''Codex patch contains multiple operations for '' @ py_repr path @ ''.''))
              else (case find_opt bad_directive body of
                  Some d \<Rightarrow> Inl (rejected (''Unsupported Codex patch directive: '' @ py_repr d @ ''.''))
                | None \<Rightarrow>
                    (case envelope_ops (n + 1 + length body) (path # seen) (dropWhile (\<lambda>x. op_header x = None) ls) of
                       Inl e \<Rightarrow> Inl e
                     | Inr ops \<Rightarrow> Inr (\<lparr>eo_kind = kind, eo_path = path, eo_body = body\<rparr> # ops)))))"
  by pat_completeness auto
termination
  by (relation "measure (\<lambda>(n, seen, ls). length ls)") (auto simp: le_imp_less_Suc length_dropWhile_le)

declare envelope_ops.simps [simp del]

definition parse_codex_envelope :: "str \<Rightarrow> tool_exn + envelope_op list" where
  "parse_codex_envelope patch =
     (let lines = splitlines (lstrip_chars [CR, NL] patch) in
      if lines = [] \<or> hd lines \<noteq> ''*** Begin Patch'' then Inl (rejected ''Codex patch must start with *** Begin Patch.'')
      else if last lines \<noteq> ''*** End Patch'' then Inl (rejected ''Codex patch must end with *** End Patch.'')
      else (case envelope_ops 1 [] (butlast (tl lines)) of
          Inl e \<Rightarrow> Inl e
        | Inr [] \<Rightarrow> Inl (rejected ''Codex patch does not contain any file operation.'')
        | Inr ops \<Rightarrow> Inr ops))"

subsection \<open>Update hunks\<close>

fun collect_hunks :: "str \<Rightarrow> str list option \<Rightarrow> str list \<Rightarrow> tool_exn + str list list" where
  "collect_hunks path current [] =
     (case current of
        None \<Rightarrow> Inr []
      | Some [] \<Rightarrow> Inl (envelope_error ''patch_empty_hunk'' (''Empty update hunk for '' @ py_repr path @ ''.'') [])
      | Some h \<Rightarrow> Inr [h])"
| "collect_hunks path current (l # ls) =
     (if l = END_OF_FILE then collect_hunks path current ls
      else if startswith l ''@@'' then
        (case current of
           None \<Rightarrow> collect_hunks path (Some []) ls
         | Some [] \<Rightarrow> Inl (envelope_error ''patch_empty_hunk'' (''Empty update hunk for '' @ py_repr path @ ''.'') [])
         | Some h \<Rightarrow> rbind (collect_hunks path (Some []) ls) (\<lambda>hs. Inr (h # hs)))
      else
        (case current of
           None \<Rightarrow> Inl (rejected (''Update File section for '' @ py_repr path @ '' must begin with an @@ hunk.''))
         | Some h \<Rightarrow> collect_hunks path (Some (h @ [l])) ls))"

definition split_update_hunks :: "envelope_op \<Rightarrow> tool_exn + str list list" where
  "split_update_hunks op =
     rbind (collect_hunks (eo_path op) None (eo_body op)) (\<lambda>hunks.
       guard (hunks = [])
         (envelope_error ''patch_missing_hunk'' (''Update File section for '' @ py_repr (eo_path op) @ '' has no hunks.'') [])
       (Inr hunks))"

text \<open>\<open>^\s*\d{1,7}\s*\|\s\<close>\<close>

definition numbered_line :: "str \<Rightarrow> bool" where
  "numbered_line l \<longleftrightarrow>
     (let s = dropWhile py_isspace l; d = takeWhile py_isdigit s; r = dropWhile py_isspace (drop (length d) s) in
      1 \<le> length d \<and> length d \<le> 7 \<and> startswith r ''|'' \<and> (case drop 1 r of c # _ \<Rightarrow> py_isspace c | [] \<Rightarrow> False))"

definition occurrences :: "str list \<Rightarrow> str list \<Rightarrow> nat \<Rightarrow> nat list" where
  "occurrences ls needle start =
     filter (\<lambda>i. take (length needle) (drop i ls) = needle) [start..<length ls + 1 - length needle]"

definition find_unique_sequence :: "str list \<Rightarrow> str list \<Rightarrow> nat \<Rightarrow> str \<Rightarrow> nat \<Rightarrow> tool_exn + nat" where
  "find_unique_sequence ls needle start path number =
     (case occurrences ls needle start of
        [] \<Rightarrow>
          (let numbered = filter numbered_line needle in
           if numbered \<noteq> []
           then Inl (envelope_error ''patch_contains_read_line_numbers''
             (''Update hunk '' @ nat_str number @ '' for '' @ py_repr path @ '' appears to contain read_file display prefixes such as a line number followed by |. Remove the line number and | prefix from every patch line, then retry.'')
             [(''path'', JStr path), (''hunk_number'', JInt (int number)), (''prefixed_lines'', JInt (int (length numbered))),
              (''examples'', JList (map JStr (take 3 numbered)))])
           else Inl (envelope_error ''patch_context_not_found''
             (''Update hunk '' @ nat_str number @ '' does not match current content in '' @ py_repr path @ ''. Read the smallest relevant line range and copy its exact current whitespace before retrying.'')
             [(''path'', JStr path), (''hunk_number'', JInt (int number)), (''recommended_tool'', JStr ''read_file'')]))
      | [i] \<Rightarrow> Inr i
      | is \<Rightarrow> Inl (envelope_error ''patch_context_ambiguous''
             (''Update hunk '' @ nat_str number @ '' is ambiguous in '' @ py_repr path @ ''; include more unchanged context lines.'')
             [(''path'', JStr path), (''hunk_number'', JInt (int number)), (''occurrences'', JInt (int (length is)))]))"

definition line_tag :: "str \<Rightarrow> char option" where
  "line_tag l = (case l of c # _ \<Rightarrow> (if c \<in> {CHR '' '', CHR ''+'', CHR ''-''} then Some c else None) | [] \<Rightarrow> None)"

definition old_side :: "str list \<Rightarrow> str list" where
  "old_side h = map tl (filter (\<lambda>l. line_tag l \<in> {Some (CHR '' ''), Some (CHR ''-'')}) h)"

definition new_side :: "str list \<Rightarrow> str list" where
  "new_side h = map tl (filter (\<lambda>l. line_tag l \<in> {Some (CHR '' ''), Some (CHR ''+'')}) h)"

definition check_hunk :: "str \<Rightarrow> nat \<Rightarrow> str list \<Rightarrow> tool_exn + unit" where
  "check_hunk path number h =
     guard (\<not> list_ex (\<lambda>l. startswith l ''+'' \<or> startswith l ''-'') h)
       (envelope_error ''patch_no_changes''
         (''Update hunk '' @ nat_str number @ '' for '' @ py_repr path @ '' contains context only and cannot change the file. Include at least one removed (-) or added (+) line with the intended correction.'')
         [(''path'', JStr path), (''recommended_tools'', JList [JStr ''apply_patch'', JStr ''replace_text''])])
     (case find_opt (\<lambda>l. line_tag l = None) h of
        Some l \<Rightarrow> Inl (rejected (''Invalid line in hunk '' @ nat_str number @ '' for '' @ py_repr path @ '': '' @ py_repr l @ ''.''))
      | None \<Rightarrow>
          guard (old_side h = [])
            (rejected (''Update hunk '' @ nat_str number @ '' for '' @ py_repr path @ '' needs at least one context or removed line.''))
          (Inr ()))"

fun apply_hunks :: "str \<Rightarrow> nat \<Rightarrow> nat \<Rightarrow> str list list \<Rightarrow> str list \<Rightarrow> tool_exn + str list" where
  "apply_hunks path number cursor [] current = Inr current"
| "apply_hunks path number cursor (h # hs) current =
     rbind (check_hunk path number h) (\<lambda>_.
     rbind (find_unique_sequence current (old_side h) cursor path number) (\<lambda>i.
       apply_hunks path (number + 1) (i + length (new_side h)) hs
         (take i current @ new_side h @ drop (i + length (old_side h)) current)))"

definition ends_line :: "str \<Rightarrow> bool" where
  "ends_line s \<longleftrightarrow> endswith s [NL] \<or> endswith s [CR]"

definition apply_update_hunks :: "str \<Rightarrow> envelope_op \<Rightarrow> tool_exn + str" where
  "apply_update_hunks before op =
     rbind (split_update_hunks op) (\<lambda>hunks.
     rbind (apply_hunks (eo_path op) 1 0 hunks (splitlines before)) (\<lambda>current.
       let newline = dominant_newline before in
       Inr (py_join newline current @ (if ends_line before then newline else []))))"

fun added_lines :: "str \<Rightarrow> str list \<Rightarrow> tool_exn + str list" where
  "added_lines path [] = Inr []"
| "added_lines path (l # ls) =
     (if l = END_OF_FILE then added_lines path ls
      else if \<not> startswith l ''+''
      then Inl (rejected (''Add File line must start with + for '' @ py_repr path @ '': '' @ py_repr l @ ''.''))
      else rbind (added_lines path ls) (\<lambda>rest. Inr (tl l # rest)))"

definition parse_added_file :: "envelope_op \<Rightarrow> tool_exn + str" where
  "parse_added_file op =
     rbind (added_lines (eo_path op) (eo_body op)) (\<lambda>ls.
       guard (ls = []) (rejected (''Add File section for '' @ py_repr (eo_path op) @ '' is empty.''))
       (Inr (py_join [NL] ls @ [NL])))"

subsection \<open>From the envelope to a unified diff\<close>

type_synonym change = "str \<times> str option \<times> str option"

definition read_target :: "repo \<Rightarrow> envelope_op \<Rightarrow> tool_exn + str \<times> str" where
  "read_target rp op =
     rbind (rp_path rp True (eo_path op)) (\<lambda>path.
       case dict_get (rp_files rp) path of
         None \<Rightarrow>
           (if rp_is_dir rp path
            then Inl (envelope_error ''directory_patch_target''
              (''Patch target is a directory: '' @ py_repr (eo_path op) @ ''. Use remove_directory instead of apply_patch.'')
              [(''path'', JStr (eo_path op)), (''recommended_tool'', JStr ''remove_directory'')])
            else Inl (rejected (''Patch target is not a file: '' @ py_repr (eo_path op) @ ''.'')))
       | Some content \<Rightarrow>
           (case rp_read_error rp path of
              Some e \<Rightarrow> Inl (os_error e)
            | None \<Rightarrow>
                (case content of
                   None \<Rightarrow> Inl (rejected (''Patch target is not UTF-8 text: '' @ py_repr (eo_path op) @ ''.''))
                 | Some before \<Rightarrow> Inr (path, before))))"

definition operation_change :: "repo \<Rightarrow> envelope_op \<Rightarrow> tool_exn + change" where
  "operation_change rp op =
     (if eo_kind op = ''add'' then
        rbind (rp_path rp False (eo_path op)) (\<lambda>path.
        guard (rp_exists rp path) (rejected (''Cannot add '' @ py_repr (eo_path op) @ '': path already exists.''))
        (rbind (parse_added_file op) (\<lambda>after. Inr (display_path (rp_root rp) path, None, Some after))))
      else
        rbind (read_target rp op) (\<lambda>(path, before).
        if eo_kind op = ''delete'' then
          guard (filter (\<lambda>l. l \<noteq> END_OF_FILE) (eo_body op) \<noteq> []) (rejected ''Delete File sections must not contain patch hunks.'')
          (Inr (display_path (rp_root rp) path, Some before, None))
        else
          rbind (apply_update_hunks before op) (\<lambda>after.
          guard (after = before)
            (envelope_error ''patch_already_applied''
              (''Update for '' @ py_repr (eo_path op) @ '' is already satisfied; the requested patch would not change the file.'')
              [(''path'', JStr (eo_path op))])
          (Inr (display_path (rp_root rp) path, Some before, Some after)))))"

fun operation_changes :: "repo \<Rightarrow> envelope_op list \<Rightarrow> tool_exn + change list" where
  "operation_changes rp [] = Inr []"
| "operation_changes rp (op # ops) =
     rbind (operation_change rp op) (\<lambda>c. rbind (operation_changes rp ops) (\<lambda>cs. Inr (c # cs)))"

definition no_newline_note :: str where
  "no_newline_note = [NL] @ [BSL] @ '' No newline at end of file'' @ [NL]"

definition render_line :: "str \<Rightarrow> str" where
  "render_line l =
     (if line_tag l \<noteq> None \<and> \<not> (startswith l ''+++ '' \<or> startswith l ''--- '') \<and> \<not> ends_line l
      then l @ no_newline_note else l)"

definition render_unified_change :: "change \<Rightarrow> str" where
  "render_unified_change c = (case c of (path, before, after) \<Rightarrow>
     concat (map render_line (unified_diff
       (case before of None \<Rightarrow> [] | Some s \<Rightarrow> splitlines_keep s) (case after of None \<Rightarrow> [] | Some s \<Rightarrow> splitlines_keep s)
       (if before = None then ''/dev/null'' else ''a/'' @ path) (if after = None then ''/dev/null'' else ''b/'' @ path))))"

definition build_unified_patch :: "repo \<Rightarrow> envelope_op list \<Rightarrow> tool_exn + str" where
  "build_unified_patch rp ops =
     rbind (operation_changes rp ops) (\<lambda>changes.
       let normalized = concat (map render_unified_change changes) in
       guard (normalized = []) (rejected ''Codex patch does not produce any changes.'') (Inr normalized))"

section \<open>Unified diffs\<close>

definition parse_diff_git_header :: "str \<Rightarrow> nat \<Rightarrow> tool_exn + str \<times> str" where
  "parse_diff_git_header line number =
     (case shlex_split line of
        Some [a, b, c, d] \<Rightarrow> Inr (c, d)
      | _ \<Rightarrow> Inl (rejected (''Invalid diff --git header at patch line '' @ nat_str number @ ''.'')))"

definition parse_unified_file_header :: "str \<Rightarrow> nat \<Rightarrow> tool_exn + str" where
  "parse_unified_file_header line number =
     (let payload = drop 4 line in
      if startswith payload [DQ] then
        (case shlex_split payload of
           None \<Rightarrow> Inl (rejected (''Invalid quoted file header at patch line '' @ nat_str number @ ''.''))
         | Some [] \<Rightarrow> Inl (rejected (''Empty file header at patch line '' @ nat_str number @ ''.''))
         | Some (f # _) \<Rightarrow> Inr f)
      else (let path = py_rstrip (takeWhile (\<lambda>c. c \<noteq> TAB) payload) in
        if path = [] then Inl (rejected (''Empty file header at patch line '' @ nat_str number @ ''.'')) else Inr path))"

fun header_paths :: "nat \<Rightarrow> str list \<Rightarrow> tool_exn + str list" where
  "header_paths n [] = Inr []"
| "header_paths n (l # ls) =
     rbind (if startswith l ''diff --git '' then rbind (parse_diff_git_header l n) (\<lambda>(a, b). Inr [a, b])
            else if startswith l ''--- '' \<or> startswith l ''+++ '' then rbind (parse_unified_file_header l n) (\<lambda>p. Inr [p])
            else Inr [])
       (\<lambda>ps. rbind (header_paths (n + 1) ls) (\<lambda>qs. Inr (ps @ qs)))"

definition unified_patch_paths :: "str \<Rightarrow> tool_exn + str list" where
  "unified_patch_paths patch = rbind (header_paths 1 (splitlines patch)) (\<lambda>ps. Inr (fromkeys ps))"

definition strip_side :: "str \<Rightarrow> str" where
  "strip_side p = (if startswith p ''a/'' \<or> startswith p ''b/'' then drop 2 p else p)"

fun target_paths :: "repo \<Rightarrow> str list \<Rightarrow> tool_exn + str list" where
  "target_paths rp [] = Inr []"
| "target_paths rp (raw # raws) =
     (let normalized = slashes raw; p = strip_side normalized in
      if normalized = ''/dev/null'' then target_paths rp raws
      else guard (p = []) (rejected ''Unified Diff contains an empty file path.'')
        (rbind (rp_path rp False p) (\<lambda>resolved.
         rbind (target_paths rp raws) (\<lambda>ts. Inr (display_path (rp_root rp) resolved # ts)))))"

definition validate_unified_patch_paths :: "repo \<Rightarrow> str \<Rightarrow> tool_exn + str list" where
  "validate_unified_patch_paths rp patch =
     rbind (unified_patch_paths patch) (\<lambda>raws.
     rbind (target_paths rp raws) (\<lambda>ts.
       guard (fromkeys ts = []) (rejected ''Patch does not declare any repository file targets.'') (Inr (fromkeys ts))))"

definition normalize_unified_patch_path :: "repo \<Rightarrow> str \<Rightarrow> tool_exn + str" where
  "normalize_unified_patch_path rp raw =
     (if raw = ''/dev/null'' then Inr raw
      else rbind (rp_path rp False (strip_side (slashes raw))) (\<lambda>t. Inr (display_path (rp_root rp) t)))"

record hunk =
  hk_old_start :: nat
  hk_old_count :: nat
  hk_body :: "str list"
  hk_final :: bool

text \<open>\<open>^@@ -(\d+)(?:,(\d+))? \+(\d+)(?:,(\d+))? @@\<close>: a count that is absent is one.\<close>

definition header_range :: "str \<Rightarrow> (nat \<times> nat \<times> str) option" where
  "header_range s =
     (let d = takeWhile py_isdigit s; r = drop (length d) s;
          e = takeWhile py_isdigit (drop 1 r)
      in if d = [] then None
         else if startswith r '','' \<and> e \<noteq> [] then Some (parse_nat d, parse_nat e, drop (1 + length e) r)
         else Some (parse_nat d, 1, r))"

definition hunk_header :: "str \<Rightarrow> (nat \<times> nat \<times> nat) option" where
  "hunk_header l =
     (if \<not> startswith l ''@@ -'' then None
      else (case header_range (drop 4 l) of
          None \<Rightarrow> None
        | Some (old_start, old_count, r) \<Rightarrow>
            if \<not> startswith r '' +'' then None
            else (case header_range (drop 2 r) of
                None \<Rightarrow> None
              | Some (_, new_count, r') \<Rightarrow> if startswith r' '' @@'' then Some (old_start, old_count, new_count) else None)))"

definition no_newline_marker :: str where
  "no_newline_marker = [BSL] @ '' No newline at end of file''"

text \<open>The lines of a hunk: its body, whether the new text ends with a newline, what follows.\<close>

fun hunk_body :: "nat \<Rightarrow> char option \<Rightarrow> bool \<Rightarrow> str list \<Rightarrow> tool_exn + str list \<times> bool \<times> str list" where
  "hunk_body n last_tag final [] = Inr ([], final, [])"
| "hunk_body n last_tag final (l # ls) =
     (if startswith l ''@@'' \<or> startswith l ''--- '' then Inr ([], final, l # ls)
      else if l = no_newline_marker
      then hunk_body (n + 1) last_tag (if last_tag \<in> {Some (CHR '' ''), Some (CHR ''+'')} then False else final) ls
      else if line_tag l = None then Inl (rejected (''Invalid unified hunk line at patch line '' @ nat_str n @ ''.''))
      else rbind (hunk_body (n + 1) (line_tag l) final ls) (\<lambda>(body, fin, rest). Inr (l # body, fin, rest)))"

lemma hunk_body_rest: "hunk_body n t f ls = Inr (b, fin, rest) \<Longrightarrow> length rest \<le> length ls"
  by (induction n t f ls arbitrary: b fin rest rule: hunk_body.induct) (fastforce split: if_splits)+

definition display_name :: "str \<Rightarrow> str \<Rightarrow> str" where
  "display_name old_path new_path = (if old_path \<noteq> [] then old_path else new_path)"

definition check_counts :: "str \<Rightarrow> nat \<times> nat \<times> nat \<Rightarrow> str list \<Rightarrow> tool_exn + unit" where
  "check_counts path header body = (case header of (_, old_count, new_count) \<Rightarrow>
     guard (length (old_side body) \<noteq> old_count \<or> length (new_side body) \<noteq> new_count)
       (envelope_error ''patch_rejected'' ''Unified hunk line counts do not match its header.''
         [(''path'', JStr path), (''expected_old'', JInt (int old_count)), (''actual_old'', JInt (int (length (old_side body)))),
          (''expected_new'', JInt (int new_count)), (''actual_new'', JInt (int (length (new_side body))))])
     (Inr ()))"

text \<open>The hunks of one file, up to the next file header; \<open>n\<close> is the number of the patch line.\<close>

function file_hunks :: "str \<Rightarrow> nat \<Rightarrow> str list \<Rightarrow> tool_exn + hunk list \<times> str list" where
  "file_hunks path n [] = Inr ([], [])"
| "file_hunks path n (l # ls) =
     (if startswith l ''--- '' \<or> startswith l ''diff --git '' then Inr ([], l # ls)
      else if \<not> startswith l ''@@'' then file_hunks path (n + 1) ls
      else (case hunk_header l of
          None \<Rightarrow> Inl (rejected (''Invalid unified hunk header at patch line '' @ nat_str n @ ''.''))
        | Some header \<Rightarrow>
            (case hunk_body (n + 1) None True ls of
               Inl e \<Rightarrow> Inl e
             | Inr (body, fin, rest) \<Rightarrow>
                 (case check_counts path header body of
                    Inl e \<Rightarrow> Inl e
                  | Inr _ \<Rightarrow>
                      (case file_hunks path (n + 1 + (length ls - length rest)) rest of
                         Inl e \<Rightarrow> Inl e
                       | Inr (hs, rest') \<Rightarrow>
                           Inr (\<lparr>hk_old_start = fst header, hk_old_count = fst (snd header), hk_body = body, hk_final = fin\<rparr> # hs, rest'))))))"
  by pat_completeness auto
termination
  by (relation "measure (\<lambda>(path, n, ls). length ls)") (auto dest: hunk_body_rest)

declare file_hunks.simps [simp del]

lemma file_hunks_rest: "file_hunks path n ls = Inr (hs, rest) \<Longrightarrow> length rest \<le> length ls"
proof (induction path n ls arbitrary: hs rest rule: file_hunks.induct)
  case (1 path n)
  then show ?case by (simp add: file_hunks.simps)
next
  case (2 path n l ls)
  from "2.prems" show ?case
    using "2.IH" hunk_body_rest
    by (subst (asm) file_hunks.simps) (fastforce split: if_splits option.splits sum.splits prod.splits dest: le_trans)
qed

fun edit_lines :: "str \<Rightarrow> int \<Rightarrow> hunk list \<Rightarrow> str list \<Rightarrow> tool_exn + str list" where
  "edit_lines path offset [] current = Inr current"
| "edit_lines path offset (h # hs) current =
     (let old = old_side (hk_body h); new = new_side (hk_body h);
          position = (if hk_old_start h = 0 then 0 else int (hk_old_start h) - 1 + offset)
      in if position < 0 \<or> take (length old) (drop (nat position) current) \<noteq> old
         then Inl (envelope_error ''patch_context_not_found''
           (''Unified hunk context does not match current content in '' @ py_repr path @ ''.'') [(''path'', JStr path)])
         else edit_lines path (offset + int (length new) - int (length old)) hs
           (take (nat position) current @ new @ drop (nat position + length old) current))"

text \<open>What a file's hunks make of it: its path, the text before (none when it is added), the text after.\<close>

definition edited_text :: "str \<Rightarrow> str \<Rightarrow> hunk list \<Rightarrow> tool_exn + str" where
  "edited_text path before hunks =
     rbind (edit_lines path 0 hunks (splitlines before)) (\<lambda>current.
       let newline = dominant_newline before;
           final = (if hunks = [] then ends_line before else hk_final (last hunks))
       in Inr (py_join newline current @ (if current \<noteq> [] \<and> final then newline else [])))"

definition old_text :: "repo \<Rightarrow> str \<Rightarrow> str \<Rightarrow> tool_exn + str" where
  "old_text rp old_path new_path =
     (if old_path = ''/dev/null'' then
        rbind (if new_path = ''/dev/null'' then Inr None else rbind (rp_path rp False new_path) (\<lambda>t. Inr (Some t))) (\<lambda>target.
        guard (case target of None \<Rightarrow> True | Some t \<Rightarrow> rp_exists rp t)
          (rejected (''Cannot add '' @ py_repr new_path @ '': path already exists.'')) (Inr []))
      else
        rbind (rp_path rp False old_path) (\<lambda>old_target.
        rbind (if new_path = ''/dev/null'' then Inr [] else rp_path rp False new_path) (\<lambda>_.
        case dict_get (rp_files rp) old_target of
          None \<Rightarrow> Inl (rejected (''Patch target does not exist: '' @ py_repr old_path @ ''.''))
        | Some content \<Rightarrow>
            (case rp_read_error rp old_target of
               Some e \<Rightarrow> Inl (os_error e)
             | None \<Rightarrow>
                 (case content of
                    None \<Rightarrow> Inl (rejected (rp_decode_error rp old_target))
                  | Some before \<Rightarrow> Inr before)))))"

definition materialize_unified_file_change :: "repo \<Rightarrow> str \<Rightarrow> str \<Rightarrow> hunk list \<Rightarrow> tool_exn + change" where
  "materialize_unified_file_change rp old_path new_path hunks =
     (let target = (if new_path \<noteq> ''/dev/null'' then new_path else old_path) in
      guard (target = ''/dev/null'') (rejected ''Unified Diff cannot target /dev/null.'')
      (rbind (old_text rp old_path new_path) (\<lambda>before.
       rbind (edited_text target before hunks) (\<lambda>after.
       Inr (target, if old_path \<noteq> ''/dev/null'' then Some before else None,
            if new_path = ''/dev/null'' then None else Some after)))))"

function unified_changes :: "repo \<Rightarrow> nat \<Rightarrow> str list \<Rightarrow> tool_exn + change list" where
  "unified_changes rp n [] = Inr []"
| "unified_changes rp n (l # ls) =
     (if \<not> startswith l ''--- '' then unified_changes rp (n + 1) ls
      else (case rbind (parse_unified_file_header l n) (normalize_unified_patch_path rp) of
          Inl e \<Rightarrow> Inl e
        | Inr old_path \<Rightarrow>
            (case ls of
               [] \<Rightarrow> Inl (rejected (''Unified Diff is missing its +++ header after patch line '' @ nat_str n @ ''.''))
             | m # ms \<Rightarrow>
                 if \<not> startswith m ''+++ ''
                 then Inl (rejected (''Unified Diff is missing its +++ header after patch line '' @ nat_str n @ ''.''))
                 else (case rbind (parse_unified_file_header m (n + 1)) (normalize_unified_patch_path rp) of
                     Inl e \<Rightarrow> Inl e
                   | Inr new_path \<Rightarrow>
                       (case file_hunks (display_name old_path new_path) (n + 2) ms of
                          Inl e \<Rightarrow> Inl e
                        | Inr ([], rest) \<Rightarrow>
                            Inl (rejected (''Unified Diff for '' @ py_repr (display_name old_path new_path) @ '' has no hunks.''))
                        | Inr (h # hs, rest) \<Rightarrow>
                            (case materialize_unified_file_change rp old_path new_path (h # hs) of
                               Inl e \<Rightarrow> Inl e
                             | Inr c \<Rightarrow>
                                 (case unified_changes rp (n + 2 + (length ms - length rest)) rest of
                                    Inl e \<Rightarrow> Inl e
                                  | Inr cs \<Rightarrow> Inr (c # cs))))))))"
  by pat_completeness auto
termination
  by (relation "measure (\<lambda>(rp, n, ls). length ls)") (auto dest: file_hunks_rest)

declare unified_changes.simps [simp del]

definition parse_unified_patch_changes :: "repo \<Rightarrow> str \<Rightarrow> tool_exn + change list" where
  "parse_unified_patch_changes rp patch = unified_changes rp 1 (splitlines patch)"

section \<open>Applying a unified diff without Git\<close>

text \<open>
  The files are written one after the other; the first exception stops the loop, and what was
  written before it stays. An \<open>OSError\<close> becomes a result; a \<open>ToolExecutionError\<close> of the path
  resolution is caught by neither handler and leaves the call.
\<close>

definition write_change :: "repo \<Rightarrow> change \<Rightarrow> tool_exn + (str, str option) dict" where
  "write_change rp c = (case c of (path, before, after) \<Rightarrow>
     rbind (rp_path rp False path) (\<lambda>target.
       case after of
         None \<Rightarrow>
           (if \<not> rp_exists rp target then Inr (rp_files rp)
            else (case rp_write_error rp target of
                Some e \<Rightarrow> Inl (os_error e)
              | None \<Rightarrow> Inr (dict_pop (rp_files rp) target)))
       | Some t \<Rightarrow>
           (case rp_write_error rp target of
              Some e \<Rightarrow> Inl (os_error e)
            | None \<Rightarrow> Inr (dict_set (rp_files rp) target (Some t)))))"

fun write_changes :: "repo \<Rightarrow> change list \<Rightarrow> repo \<times> tool_exn option" where
  "write_changes rp [] = (rp, None)"
| "write_changes rp (c # cs) =
     (case write_change rp c of
        Inl e \<Rightarrow> (rp, Some e)
      | Inr files \<Rightarrow> write_changes (rp\<lparr>rp_files := files\<rparr>) cs)"

definition checked_changes :: "repo \<Rightarrow> str \<Rightarrow> tool_exn + change list" where
  "checked_changes rp patch =
     rbind (parse_unified_patch_changes rp patch) (\<lambda>changes.
       guard (changes = []) (rejected ''Patch does not contain any unified file changes.'')
       (case find_opt (\<lambda>(path, before, after). before = after) changes of
          Some (path, _) \<Rightarrow> Inl (envelope_error ''patch_already_applied''
            (''Patch for '' @ py_repr path @ '' is already applied.'') [(''path'', JStr path)])
        | None \<Rightarrow> Inr changes))"

text \<open>The results of the tool. \<open>details.update\<close> keeps the order of the dictionary.\<close>

definition mk_fail :: "str \<Rightarrow> str \<Rightarrow> str \<Rightarrow> jdict \<Rightarrow> jdict \<Rightarrow> tool_result" where
  "mk_fail code message content details metadata =
     \<lparr>tr_success = False, tr_summary = message, tr_content = content,
      tr_error = Some \<lparr>te_code = code, te_message = message, te_details = details\<rparr>, tr_metadata = metadata\<rparr>"

definition mk_ok :: "str \<Rightarrow> str \<Rightarrow> jdict \<Rightarrow> tool_result" where
  "mk_ok summary content metadata =
     \<lparr>tr_success = True, tr_summary = summary, tr_content = content, tr_error = None, tr_metadata = metadata\<rparr>"

lemma tool_results:
  "tool_fail code message None content details metadata = Inr (mk_fail code message content details metadata)"
  "tool_ok summary content metadata = Inr (mk_ok summary content metadata)"
  by (simp_all add: tool_fail_def tool_ok_def mk_tool_result_def mk_fail_def mk_ok_def)

definition update_details :: "jdict \<Rightarrow> jdict \<Rightarrow> jdict" where
  "update_details d e = fold (\<lambda>(k, v) d. dict_set d k v) e d"

definition strings :: "str list \<Rightarrow> json" where
  "strings xs = JList (map JStr xs)"

definition validation_failure :: "str \<Rightarrow> jdict \<Rightarrow> tool_exn \<Rightarrow> tool_result" where
  "validation_failure message context e =
     mk_fail (if tx_envelope e then tx_code e else ''patch_rejected'') message (tx_message e)
       (if tx_envelope e then update_details context (tx_details e) else context) context"

definition apply_unified_patch_without_git ::
  "repo \<Rightarrow> str \<Rightarrow> str \<Rightarrow> str list \<Rightarrow> repo \<times> (tool_exn + tool_result)" where
  "apply_unified_patch_without_git rp patch patch_format targets =
     (let context = [(''format'', JStr patch_format), (''backend'', JStr ''filesystem'')] in
      case checked_changes rp patch of
        Inl e \<Rightarrow> (rp,
          if tx_envelope e \<or> tx_os e then Inr (validation_failure ''Patch validation failed without Git.'' context e) else Inl e)
      | Inr changes \<Rightarrow>
          (let (rp', failure) = write_changes rp changes in (rp',
            case failure of
              Some e \<Rightarrow>
                (if tx_os e
                 then Inr (mk_fail ''patch_apply_failed'' ''Patch could not be applied without Git.'' (tx_message e) context context)
                 else Inl e)
            | None \<Rightarrow> Inr (mk_ok
                (''Applied patch to '' @ nat_str (length targets) @ '' target path(s) without Git.'')
                (''Changed paths: '' @ py_join '', '' targets)
                (context @ [(''target_paths'', strings targets), (''changed_files'', strings targets)])))))"

section \<open>The tool\<close>

record shell_result =
  pr_exit_code :: int
  pr_stdout :: str
  pr_stderr :: str
  pr_duration :: pyfloat
  pr_timed_out :: bool
  pr_stdout_truncated :: bool
  pr_stderr_truncated :: bool
  pr_stdout_bytes :: int
  pr_stderr_bytes :: int
  pr_stdout_artifact :: "str option"
  pr_stderr_artifact :: "str option"
  pr_output_incomplete :: bool

definition opt_str :: "str option \<Rightarrow> json" where
  "opt_str s = (case s of None \<Rightarrow> JNull | Some t \<Rightarrow> JStr t)"

definition process_metadata :: "shell_result \<Rightarrow> json" where
  "process_metadata r = JObj
     [(''exit_code'', JInt (pr_exit_code r)), (''stdout'', JStr (pr_stdout r)), (''stderr'', JStr (pr_stderr r)),
      (''duration_seconds'', JFloat (pr_duration r)), (''timed_out'', JBool (pr_timed_out r)),
      (''stdout_truncated'', JBool (pr_stdout_truncated r)), (''stderr_truncated'', JBool (pr_stderr_truncated r)),
      (''stdout_bytes'', JInt (pr_stdout_bytes r)), (''stderr_bytes'', JInt (pr_stderr_bytes r)),
      (''stdout_artifact'', opt_str (pr_stdout_artifact r)), (''stderr_artifact'', opt_str (pr_stderr_artifact r)),
      (''output_incomplete'', JBool (pr_output_incomplete r))]"

definition output_section :: "str \<Rightarrow> str \<Rightarrow> bool \<Rightarrow> int \<Rightarrow> str option \<Rightarrow> str list" where
  "output_section name text truncated bytes artifact =
     (if text = [] then []
      else [name @ '':'' @ [NL] @ py_rstrip text
        @ (if truncated
           then [NL] @ ''['' @ name @ '' head/tail preview; '' @ int_str bytes @ '' bytes total; ''
             @ (if artifact \<notin> {None, Some []}
                then ''read_context_artifact artifact_id='' @ the artifact @ '']'' else ''output truncated]'')
           else [])])"

definition render_process_output :: "shell_result \<Rightarrow> str" where
  "render_process_output r = py_join ([NL] @ [NL])
     (output_section ''stdout'' (pr_stdout r) (pr_stdout_truncated r) (pr_stdout_bytes r) (pr_stdout_artifact r)
      @ output_section ''stderr'' (pr_stderr r) (pr_stderr_truncated r) (pr_stderr_bytes r) (pr_stderr_artifact r))"

text \<open>
  Git as the tool runs it: \<open>git apply --check\<close>, \<open>git apply\<close> with the files it leaves, and
  \<open>git status\<close> on the targets. A program that cannot be started raises: \<open>FileNotFoundError\<close> when
  there is none, another \<open>OSError\<close> otherwise. Only the first is caught, and only around the check.
\<close>

datatype spawn_error = NotFound str | Unstartable str

fun spawn_text :: "spawn_error \<Rightarrow> str" where
  "spawn_text (NotFound t) = t"
| "spawn_text (Unstartable t) = t"

record git =
  git_check :: "repo \<Rightarrow> str \<Rightarrow> spawn_error + shell_result"
  git_apply :: "repo \<Rightarrow> str \<Rightarrow> (spawn_error + shell_result) \<times> (str, str option) dict"
  git_status :: "repo \<Rightarrow> str list \<Rightarrow> spawn_error + shell_result"

definition apply_with_git ::
  "git \<Rightarrow> repo \<Rightarrow> str \<Rightarrow> str \<Rightarrow> str list \<Rightarrow> shell_result \<Rightarrow> repo \<times> (tool_exn + tool_result)" where
  "apply_with_git g rp patch patch_format targets check =
     (if pr_exit_code check \<noteq> 0
      then (rp, Inr (mk_fail ''patch_rejected'' ''Patch validation failed.'' (render_process_output check)
        [(''format'', JStr patch_format)] [(''format'', JStr patch_format), (''check'', process_metadata check)]))
      else (let (outcome, files) = git_apply g rp patch; rp' = rp\<lparr>rp_files := files\<rparr> in
        (rp', case outcome of
           Inl e \<Rightarrow> Inl (os_error (spawn_text e))
         | Inr applied \<Rightarrow>
             if pr_exit_code applied \<noteq> 0
             then Inr (mk_fail ''patch_apply_failed'' ''Patch could not be applied after validation.'' (render_process_output applied)
               [(''format'', JStr patch_format)]
               [(''format'', JStr patch_format), (''check'', process_metadata check), (''apply'', process_metadata applied)])
             else (case git_status g rp' targets of
                Inl e \<Rightarrow> Inl (os_error (spawn_text e))
              | Inr status \<Rightarrow>
                  (let status_text = py_rstrip (pr_stdout status) in
                   Inr (mk_ok (''Applied patch to '' @ nat_str (length targets) @ '' target path(s).'')
                     (if status_text \<noteq> [] then status_text
                      else ''Changed paths: '' @ py_join '', '' targets @ ''. Git status has no entry; the targets may be ignored.'')
                     [(''format'', JStr patch_format), (''target_paths'', strings targets), (''changed_files'', strings targets),
                      (''check'', process_metadata check), (''apply'', process_metadata applied),
                      (''status'', process_metadata status)]))))))"

text \<open>The patch as a unified diff, or how the call ends: with a result, or with the exception no handler catches.\<close>

definition normalize_patch :: "repo \<Rightarrow> str \<Rightarrow> (tool_exn + tool_result) + str \<times> str" where
  "normalize_patch rp patch =
     (if \<not> is_codex_envelope patch then Inr (''unified_diff'', patch)
      else (case rbind (parse_codex_envelope patch) (build_unified_patch rp) of
          Inr normalized \<Rightarrow> Inr (''codex_envelope'', normalized)
        | Inl e \<Rightarrow> Inl (
            if tx_os e then Inl e
            else if tx_envelope e \<and> tx_code e = ''patch_already_applied''
            then (let target = (case dict_get (tx_details e) ''path'' of Some (JStr p) \<Rightarrow> p | _ \<Rightarrow> []) in
              Inr (mk_ok (tx_message e) [] [(''format'', JStr ''codex_envelope''), (''status'', JStr ''already_completed''),
                (''resolution_checkpoint'', JBool True), (''target_paths'', strings (if target = [] then [] else [target]))]))
            else Inr (validation_failure ''Patch validation failed.'' [(''format'', JStr ''codex_envelope'')] e))))"

definition apply_patch :: "git \<Rightarrow> repo \<Rightarrow> str \<Rightarrow> repo \<times> (tool_exn + tool_result)" where
  "apply_patch g rp patch =
     (case normalize_patch rp patch of
        Inl r \<Rightarrow> (rp, r)
      | Inr (patch_format, normalized) \<Rightarrow>
          (case validate_unified_patch_paths rp normalized of
             Inl e \<Rightarrow> (rp, Inr (validation_failure ''Patch validation failed.'' [(''format'', JStr patch_format)] e))
           | Inr targets \<Rightarrow>
               (case git_check g rp normalized of
                  Inl (NotFound _) \<Rightarrow> apply_unified_patch_without_git rp normalized patch_format targets
                | Inl (Unstartable e) \<Rightarrow> (rp, Inl (os_error e))
                | Inr check \<Rightarrow> apply_with_git g rp normalized patch_format targets check)))"

end
