(* ===== verification/Patch_Edits.thy ===== *)
theory Patch_Edits
  imports Patch
begin

text \<open>
  What the hunks of an update section do to a text: the text is cut into the hunks' old blocks and
  the gaps between them in exactly one way, and the result has the new blocks in the same gaps. The
  theorems about \<open>apply_update_hunks\<close> and its inverse rest on that decomposition.
\<close>

section \<open>Blocks in their gaps\<close>

fun weave :: "'a list list \<Rightarrow> 'a list list \<Rightarrow> 'a list" where
  "weave (g # gs) (b # bs) = g @ b @ weave gs bs"
| "weave gs [] = concat gs"
| "weave [] bs = concat bs"

definition cut :: "str list \<Rightarrow> str list list \<Rightarrow> str list list \<Rightarrow> bool" where
  "cut ls bs gaps \<longleftrightarrow> length gaps = Suc (length bs) \<and> ls = weave gaps bs"

lemma cut_Nil [simp]: "cut ls [] gaps \<longleftrightarrow> gaps = [ls]"
  by (auto simp: cut_def length_Suc_conv)

lemma cut_Cons: "cut ls (b # bs) gaps \<longleftrightarrow> (\<exists>g gs rest. gaps = g # gs \<and> ls = g @ b @ rest \<and> cut rest bs gs)"
  by (auto simp: cut_def length_Suc_conv)

lemma unique_position:
  assumes "find_unique_sequence ls needle start path n = Inr i"
  shows "start \<le> i" "ls = take i ls @ needle @ drop (i + length needle) ls" "i + length needle \<le> length ls"
    and "\<And>pre post. ls = pre @ needle @ post \<Longrightarrow> start \<le> length pre \<Longrightarrow> length pre = i"
proof -
  have occ: "occurrences ls needle start = [i]"
    using assms by (auto simp: find_unique_sequence_def Let_def split: list.splits if_splits)
  then have i: "i \<in> set (occurrences ls needle start)" by simp
  then show "start \<le> i" and len: "i + length needle \<le> length ls" by (auto simp: occurrences_def)
  have "take (length needle) (drop i ls) = needle" using i by (simp add: occurrences_def)
  then show "ls = take i ls @ needle @ drop (i + length needle) ls"
    by (metis append_take_drop_id drop_drop add.commute)
  show "length pre = i" if "ls = pre @ needle @ post" "start \<le> length pre" for pre post
  proof -
    have "length pre \<in> set (occurrences ls needle start)" using that by (simp add: occurrences_def)
    then show ?thesis by (simp add: occ)
  qed
qed

text \<open>The cursor splits the text into the part that is done and the part the hunks are cut from.\<close>

lemma apply_hunks_cut:
  "apply_hunks path n cursor hs ls = Inr out \<Longrightarrow> cursor \<le> length ls \<Longrightarrow>
   \<exists>gaps. cut (drop cursor ls) (map old_side hs) gaps \<and> out = take cursor ls @ weave gaps (map new_side hs)"
proof (induction hs arbitrary: n cursor ls)
  case Nil
  then show ?case by simp
next
  case (Cons h hs)
  from Cons.prems(1) obtain i where
    i: "find_unique_sequence ls (old_side h) cursor path n = Inr i"
    and rest: "apply_hunks path (n + 1) (i + length (new_side h)) hs
      (take i ls @ new_side h @ drop (i + length (old_side h)) ls) = Inr out"
    by auto
  note pos = unique_position(1-3)[OF i]
  let ?r = "drop (i + length (old_side h)) ls"
  let ?ls = "take i ls @ new_side h @ ?r"
  have len: "length (take i ls) = i" using pos(3) by simp
  then have cursor: "take (i + length (new_side h)) ?ls = take i ls @ new_side h"
    "drop (i + length (new_side h)) ?ls = ?r" by simp_all
  obtain gaps where gaps: "cut ?r (map old_side hs) gaps" "out = (take i ls @ new_side h) @ weave gaps (map new_side hs)"
    using Cons.IH[OF rest] cursor len by auto
  have split: "take i ls = take cursor ls @ drop cursor (take i ls)"
    using pos(1) by (metis append_take_drop_id min.absorb2 take_take min.commute)
  have "drop cursor ls = drop cursor (take i ls) @ old_side h @ ?r"
    using pos by (metis append_take_drop_id drop_append len diff_is_0_eq' drop_0)
  then have "cut (drop cursor ls) (map old_side (h # hs)) (drop cursor (take i ls) # gaps)"
    using gaps(1) by (auto simp: cut_Cons)
  moreover have "out = take cursor ls @ weave (drop cursor (take i ls) # gaps) (map new_side (h # hs))"
    using gaps(2) split by simp
  ultimately show ?case by blast
qed

text \<open>Any way to cut the text is the one the hunks were applied at.\<close>

lemma apply_hunks_only_cut:
  "apply_hunks path n (length pre) hs (pre @ ls) = Inr out \<Longrightarrow> cut ls (map old_side hs) gaps \<Longrightarrow>
   out = pre @ weave gaps (map new_side hs)"
proof (induction hs arbitrary: n pre ls gaps)
  case Nil
  then show ?case by simp
next
  case (Cons h hs)
  from Cons.prems(2) obtain g gs rest where
    gaps: "gaps = g # gs" and ls: "ls = g @ old_side h @ rest" and cut: "cut rest (map old_side hs) gs"
    by (auto simp: cut_Cons)
  from Cons.prems(1) obtain i where
    i: "find_unique_sequence (pre @ ls) (old_side h) (length pre) path n = Inr i"
    and next_hunks: "apply_hunks path (n + 1) (i + length (new_side h)) hs
      (take i (pre @ ls) @ new_side h @ drop (i + length (old_side h)) (pre @ ls)) = Inr out"
    by auto
  have "i = length (pre @ g)"
    using unique_position(4)[OF i, of "pre @ g" rest] ls by simp
  then have "apply_hunks path (n + 1) (length (pre @ g @ new_side h)) hs ((pre @ g @ new_side h) @ rest) = Inr out"
    using next_hunks ls by (simp add: add.assoc)
  from Cons.IH[OF this cut] show ?case by (simp add: gaps)
qed

lemma apply_hunks_cut_unique:
  "apply_hunks path n (length pre) hs (pre @ ls) = Inr out \<Longrightarrow> cut ls (map old_side hs) gaps \<Longrightarrow>
   cut ls (map old_side hs) gaps' \<Longrightarrow> gaps = gaps'"
proof (induction hs arbitrary: n pre ls gaps gaps')
  case Nil
  then show ?case by simp
next
  case (Cons h hs)
  from Cons.prems(2) obtain g gs rest where
    gaps: "gaps = g # gs" and ls: "ls = g @ old_side h @ rest" and cut: "cut rest (map old_side hs) gs"
    by (auto simp: cut_Cons)
  from Cons.prems(3) obtain g' gs' rest' where
    gaps': "gaps' = g' # gs'" and ls': "ls = g' @ old_side h @ rest'" and cut': "cut rest' (map old_side hs) gs'"
    by (auto simp: cut_Cons)
  from Cons.prems(1) obtain i where
    i: "find_unique_sequence (pre @ ls) (old_side h) (length pre) path n = Inr i"
    and next_hunks: "apply_hunks path (n + 1) (i + length (new_side h)) hs
      (take i (pre @ ls) @ new_side h @ drop (i + length (old_side h)) (pre @ ls)) = Inr out"
    by auto
  have g: "i = length (pre @ g)" using unique_position(4)[OF i, of "pre @ g" rest] ls by simp
  moreover have "i = length (pre @ g')" using unique_position(4)[OF i, of "pre @ g'" rest'] ls' by simp
  ultimately have same: "g' = g" "rest' = rest" using ls ls' by auto
  have "apply_hunks path (n + 1) (length (pre @ g @ new_side h)) hs ((pre @ g @ new_side h) @ rest) = Inr out"
    using next_hunks ls g by (simp add: add.assoc)
  from Cons.IH[OF this cut] cut' show ?case by (simp add: gaps gaps' same)
qed

section \<open>Update sections\<close>

text \<open>
  C19: an update section is an exact edit. When \<open>apply_update_hunks\<close> returns, there is exactly one
  way to cut the current lines into gaps and the old sides of the hunks, in order, and the new text
  has the same gaps with the new sides in between, under the newline and final newline of the file.
\<close>

theorem update_is_exact_edit:
  assumes "apply_update_hunks before op = Inr after"
  shows "\<exists>hunks. split_update_hunks op = Inr hunks \<and>
    (\<exists>!gaps. cut (splitlines before) (map old_side hunks) gaps) \<and>
    (\<forall>gaps. cut (splitlines before) (map old_side hunks) gaps \<longrightarrow>
       after = py_join (dominant_newline before) (weave gaps (map new_side hunks))
         @ (if ends_line before then dominant_newline before else []))"
proof -
  from assms obtain hunks out where split: "split_update_hunks op = Inr hunks"
    and out: "apply_hunks (eo_path op) 1 0 hunks (splitlines before) = Inr out"
    and after: "after = py_join (dominant_newline before) out @ (if ends_line before then dominant_newline before else [])"
    by (auto simp: apply_update_hunks_def Let_def)
  have start: "apply_hunks (eo_path op) 1 (length []) hunks ([] @ splitlines before) = Inr out" using out by simp
  obtain gaps where gaps: "cut (splitlines before) (map old_side hunks) gaps"
    using apply_hunks_cut[OF out] by auto
  have "\<exists>!gaps. cut (splitlines before) (map old_side hunks) gaps"
    using gaps apply_hunks_cut_unique[OF start] by blast
  moreover have "out = weave gaps' (map new_side hunks)" if "cut (splitlines before) (map old_side hunks) gaps'" for gaps'
    using apply_hunks_only_cut[OF start that] by simp
  ultimately show ?thesis using split after by blast
qed

definition sample_update :: envelope_op where
  "sample_update = \<lparr>eo_kind = ''update'', eo_path = ''f'', eo_body = [''@@'', '' a'', ''-b'', ''+x'', ''@@'', ''-d'']\<rparr>"

definition sample_text :: str where
  "sample_text = py_join [NL] [''a'', ''b'', ''c'', ''d'', ''e''] @ [NL]"

lemma sample_update_runs:
  "apply_update_hunks sample_text sample_update = Inr (py_join [NL] [''a'', ''x'', ''c'', ''e''] @ [NL])"
  by code_simp

lemma update_is_exact_edit_witness:
  "\<exists>hunks. split_update_hunks sample_update = Inr hunks \<and>
     (\<exists>!gaps. cut (splitlines sample_text) (map old_side hunks) gaps)"
  using update_is_exact_edit[OF sample_update_runs] by blast

text \<open>The inverse of a hunk removes what it adds and adds what it removes.\<close>

definition swap_tag :: "str \<Rightarrow> str" where
  "swap_tag l = (case l of [] \<Rightarrow> [] | c # s \<Rightarrow>
     (if c = CHR ''+'' then CHR ''-'' else if c = CHR ''-'' then CHR ''+'' else c) # s)"

lemma swap_tag_sides: "old_side (map swap_tag h) = new_side h" "new_side (map swap_tag h) = old_side h"
  by (induction h) (auto simp: old_side_def new_side_def swap_tag_def line_tag_def split: list.splits)

lemma cut_same_gaps: "cut ls bs gaps \<Longrightarrow> length cs = length bs \<Longrightarrow> cut (weave gaps cs) cs gaps"
  by (simp add: cut_def)

text \<open>
  C20: an edit can be undone, and only exactly. If the inverse hunks apply to the lines that the
  hunks produced, they restore the lines the hunks were applied to, whatever the texts are.
\<close>

theorem inverse_hunks_restore:
  assumes "apply_hunks path n 0 hs ls = Inr out" "apply_hunks path' m 0 (map (map swap_tag) hs) out = Inr back"
  shows "back = ls"
proof -
  obtain gaps where gaps: "cut ls (map old_side hs) gaps" and out: "out = weave gaps (map new_side hs)"
    using apply_hunks_cut[OF assms(1)] by auto
  have sides: "map old_side (map (map swap_tag) hs) = map new_side hs" "map new_side (map (map swap_tag) hs) = map old_side hs"
    by (simp_all add: swap_tag_sides)
  have "cut out (map old_side (map (map swap_tag) hs)) gaps"
    unfolding sides out using gaps by (rule cut_same_gaps) simp
  from apply_hunks_only_cut[where pre = "[]", simplified, OF assms(2) this] show ?thesis
    using gaps unfolding sides by (simp add: cut_def)
qed

lemma inverse_hunks_restore_witness:
  "apply_hunks ''f'' 1 0 (map (map swap_tag) [['' a'', ''-b'', ''+x''], ['' c'', ''-d'']])
     [''a'', ''x'', ''c'', ''e''] = Inr [''a'', ''b'', ''c'', ''d'', ''e'']"
proof -
  have 1: "apply_hunks ''f'' 1 0 [['' a'', ''-b'', ''+x''], ['' c'', ''-d'']] [''a'', ''b'', ''c'', ''d'', ''e'']
    = Inr [''a'', ''x'', ''c'', ''e'']" by code_simp
  have "\<not> isl (apply_hunks ''f'' 1 0 (map (map swap_tag) [['' a'', ''-b'', ''+x''], ['' c'', ''-d'']])
    [''a'', ''x'', ''c'', ''e''])" by code_simp
  then obtain ls' where 2: "apply_hunks ''f'' 1 0 (map (map swap_tag) [['' a'', ''-b'', ''+x''], ['' c'', ''-d'']])
    [''a'', ''x'', ''c'', ''e''] = Inr ls'" by (metis sum.collapse(2))
  show ?thesis using 2 inverse_hunks_restore[OF 1 2] by simp
qed

end
