(* ===== verification/Patch_Safety.thy ===== *)
theory Patch_Safety
  imports Patch
begin

text \<open>
  What the patch tool may touch and how it ends: the files that differ after the tool ran without
  Git are targets of the patch and not protected, only an \<open>OSError\<close> leaves a call, and a rejected
  patch changes nothing. \<open>stable_names\<close> is what the tool relies on when it resolves
  a display name again: \<open>Path.resolve\<close> leaves a resolved path as it is.
\<close>

definition stable_names :: "repo \<Rightarrow> bool" where
  "stable_names rp \<longleftrightarrow> (\<forall>raw. rp_resolve rp (display_path (rp_root rp) (rp_resolve rp raw)) = rp_resolve rp raw)"

definition unified_header :: "str \<Rightarrow> bool" where
  "unified_header l \<longleftrightarrow> startswith l ''--- '' \<or> startswith l ''+++ ''"

text \<open>Every file header of the lines names \<open>/dev/null\<close> or a path the tools may reach.\<close>

definition open_headers :: "repo \<Rightarrow> str list \<Rightarrow> bool" where
  "open_headers rp ls \<longleftrightarrow> (\<forall>l\<in>set ls. unified_header l \<longrightarrow> (\<forall>n raw. parse_unified_file_header l n = Inr raw \<longrightarrow>
     raw = ''/dev/null'' \<or> \<not> is_repository_path_protected (rp_resolve rp (strip_side (slashes raw)))))"

text \<open>What an exception of a fallible step satisfies. The fallback turns \<open>envelope_only\<close> steps into results.\<close>

definition throws :: "('e \<Rightarrow> bool) \<Rightarrow> 'e + 'a \<Rightarrow> bool" where
  "throws Q r \<longleftrightarrow> (\<forall>e. r = Inl e \<longrightarrow> Q e)"

abbreviation envelope_only :: "tool_exn + 'a \<Rightarrow> bool" where
  "envelope_only r \<equiv> throws (\<lambda>e. tx_envelope e \<or> tx_os e) r"

named_theorems envelope

lemma throws_simps [simp, envelope]: "throws Q (Inr x)" "throws Q (Inl e) \<longleftrightarrow> Q e"
  by (simp_all add: throws_def)

lemma throws_rbind [envelope]: "throws Q r \<Longrightarrow> (\<And>x. r = Inr x \<Longrightarrow> throws Q (f x)) \<Longrightarrow> throws Q (rbind r f)"
  by (cases r) auto

lemma throws_guard [envelope]: "Q e \<Longrightarrow> (\<not> b \<Longrightarrow> throws Q r) \<Longrightarrow> throws Q (guard b e r)"
  by (simp add: guard_def)

text \<open>One rule per branching construct of the parsers.\<close>

lemma throws_branches [envelope]:
  "(b \<Longrightarrow> throws Q r) \<Longrightarrow> (\<not> b \<Longrightarrow> throws Q r') \<Longrightarrow> throws Q (if b then r else r')"
  "(v = None \<Longrightarrow> throws Q r) \<Longrightarrow> (\<And>x. v = Some x \<Longrightarrow> throws Q (f x)) \<Longrightarrow>
   throws Q (case v of None \<Rightarrow> r | Some x \<Rightarrow> f x)"
  "throws Q q \<Longrightarrow> (\<And>x. q = Inr x \<Longrightarrow> throws Q (f x)) \<Longrightarrow>
   throws Q (case q of Inl e \<Rightarrow> Inl e | Inr x \<Rightarrow> f x)"
  "(\<And>x y. p = (x, y) \<Longrightarrow> throws Q (g x y)) \<Longrightarrow> throws Q (case p of (x, y) \<Rightarrow> g x y)"
  "(xs = [] \<Longrightarrow> throws Q r) \<Longrightarrow> (\<And>y ys. xs = y # ys \<Longrightarrow> throws Q (h y ys)) \<Longrightarrow>
   throws Q (case xs of [] \<Rightarrow> r | y # ys \<Rightarrow> h y ys)"
  by (auto split: option.split sum.split prod.split list.split)

lemma exception_simps [simp]:
  "tx_envelope (envelope_error c m d)" "tx_envelope (rejected m)" "\<not> tx_envelope (tool_execution_error c m d)"
  "tx_os (os_error m)" "\<not> tx_os (envelope_error c m d)" "\<not> tx_os (rejected m)" "\<not> tx_os (tool_execution_error c m d)"
  "tx_message (os_error m) = m"
  by (simp_all add: envelope_error_def rejected_def os_error_def tool_execution_error_def)

section \<open>Paths\<close>

lemma rp_path_open: "rp_path rp False raw = Inr t \<longleftrightarrow>
    t = rp_resolve rp raw \<and> \<not> is_repository_path_protected (rp_resolve rp raw)"
  by (auto simp: rp_path_def resolve_repository_path_def Let_def)

lemma normalize_path_iff:
  "normalize_unified_patch_path rp raw = Inr p \<longleftrightarrow>
     (if raw = ''/dev/null'' then p = raw
      else \<not> is_repository_path_protected (rp_resolve rp (strip_side (slashes raw)))
        \<and> p = display_path (rp_root rp) (rp_resolve rp (strip_side (slashes raw))))"
  by (auto simp: normalize_unified_patch_path_def rp_path_open)

definition open_name :: "repo \<Rightarrow> str \<Rightarrow> bool" where
  "open_name rp p \<longleftrightarrow> p = ''/dev/null'' \<or> \<not> is_repository_path_protected (rp_resolve rp p)"

lemma normalized_open:
  "stable_names rp \<Longrightarrow> normalize_unified_patch_path rp raw = Inr p \<Longrightarrow> open_name rp p"
  by (auto simp: normalize_path_iff open_name_def stable_names_def split: if_splits)

lemma parse_header_number:
  "parse_unified_file_header l n = Inr raw \<Longrightarrow> parse_unified_file_header l m = Inr raw"
  by (auto simp: parse_unified_file_header_def Let_def split: if_splits option.splits list.splits)

lemma parse_header_envelope [envelope]: "envelope_only (parse_unified_file_header l n)"
  by (auto simp: parse_unified_file_header_def Let_def split: option.splits list.splits)

lemma header_paths_complete:
  "header_paths n ls = Inr ps \<Longrightarrow> l \<in> set ls \<Longrightarrow> unified_header l \<Longrightarrow>
   \<exists>raw. parse_unified_file_header l m = Inr raw \<and> raw \<in> set ps"
proof (induction n ls arbitrary: ps rule: header_paths.induct)
  case (2 n x ls)
  have git: "\<not> startswith l ''diff --git ''" using "2.prems"(3)
    by (cases l) (auto simp: unified_header_def)
  show ?case
  proof (cases "l = x")
    case True
    then obtain raw where "parse_unified_file_header l n = Inr raw" "raw \<in> set ps"
      using "2.prems"(1,3) git by (auto simp: unified_header_def split: if_splits)
    then show ?thesis using parse_header_number by blast
  next
    case False
    then have "l \<in> set ls" using "2.prems" by simp
    moreover obtain qs where "header_paths (n + 1) ls = Inr qs" "set qs \<subseteq> set ps"
      using "2.prems"(1) by auto
    ultimately show ?thesis using "2.IH" "2.prems"(3) by blast
  qed
qed simp

lemma target_paths_complete:
  "target_paths rp raws = Inr ts \<Longrightarrow> raw \<in> set raws \<Longrightarrow> slashes raw \<noteq> ''/dev/null'' \<Longrightarrow>
   \<not> is_repository_path_protected (rp_resolve rp (strip_side (slashes raw)))
   \<and> display_path (rp_root rp) (rp_resolve rp (strip_side (slashes raw))) \<in> set ts"
  by (induction rp raws arbitrary: ts rule: target_paths.induct)
    (auto simp: Let_def rp_path_open split: if_splits)

section \<open>The parser reads only its lines\<close>

lemma hunk_body_set: "hunk_body n t f ls = Inr (b, fin, rest) \<Longrightarrow> set rest \<subseteq> set ls"
  by (induction n t f ls arbitrary: b fin rest rule: hunk_body.induct) (fastforce split: if_splits)+

lemma hunk_body_envelope [envelope]: "envelope_only (hunk_body n t f ls)"
  by (induction n t f ls rule: hunk_body.induct) (auto intro!: envelope)

lemma check_counts_envelope [envelope]: "envelope_only (check_counts path header body)"
  by (auto simp: check_counts_def split: prod.splits intro!: envelope)

lemma file_hunks_set: "file_hunks path n ls = Inr (hs, rest) \<Longrightarrow> set rest \<subseteq> set ls"
proof (induction path n ls arbitrary: hs rest rule: file_hunks.induct)
  case (1 path n)
  then show ?case by (simp add: file_hunks.simps)
next
  case (2 path n l ls)
  from "2.prems" show ?case
    using "2.IH" hunk_body_set
    by (subst (asm) file_hunks.simps) (fastforce split: if_splits option.splits sum.splits prod.splits)
qed

lemma file_hunks_envelope [envelope]: "envelope_only (file_hunks path n ls)"
proof (induction path n ls rule: file_hunks.induct)
  case (1 path n)
  then show ?case by (simp add: file_hunks.simps)
next
  case (2 path n l ls)
  show ?case
    by (subst file_hunks.simps) (intro envelope 2; simp)
qed

lemma edit_lines_envelope [envelope]: "envelope_only (edit_lines path off hs ls)"
  by (induction path off hs ls rule: edit_lines.induct) (auto simp: Let_def)

lemma materialize_path:
  "materialize_unified_file_change rp old new hs = Inr c \<Longrightarrow>
   fst c = (if new \<noteq> ''/dev/null'' then new else old) \<and> fst c \<noteq> ''/dev/null''"
  by (auto simp: materialize_unified_file_change_def Let_def)

lemma materialize_envelope [envelope]:
  assumes "open_name rp old" "open_name rp new"
  shows "envelope_only (materialize_unified_file_change rp old new hs)"
proof -
  have path: "\<exists>t. rp_path rp False p = Inr t" if "open_name rp p" "p \<noteq> ''/dev/null''" for p
    using that by (auto simp: rp_path_open open_name_def)
  have "envelope_only (old_text rp old new)"
    using path[OF assms(1)] path[OF assms(2)]
    by (auto simp: old_text_def split: option.splits intro!: envelope)
  then show ?thesis
    by (auto simp: materialize_unified_file_change_def edited_text_def Let_def intro!: envelope)
qed

lemma unified_changes_headers:
  "unified_changes rp n ls = Inr cs \<Longrightarrow> c \<in> set cs \<Longrightarrow>
   \<exists>l\<in>set ls. \<exists>m raw. unified_header l \<and> parse_unified_file_header l m = Inr raw
     \<and> normalize_unified_patch_path rp raw = Inr (fst c) \<and> fst c \<noteq> ''/dev/null''"
proof (induction rp n ls arbitrary: cs rule: unified_changes.induct)
  case (1 rp n)
  then show ?case by (simp add: unified_changes.simps)
next
  case (2 rp n l ls)
  show ?case
  proof (cases "startswith l ''--- ''")
    case False
    then show ?thesis using "2.prems" "2.IH"(1) by (fastforce simp: unified_changes.simps)
  next
    case True
    from "2.prems"(1) True obtain old raw m ms new raw' h hs rest d ds where
      old: "parse_unified_file_header l n = Inr raw" "normalize_unified_patch_path rp raw = Inr old"
      and ls: "ls = m # ms" and m: "startswith m ''+++ ''"
      and new: "parse_unified_file_header m (n + 1) = Inr raw'" "normalize_unified_patch_path rp raw' = Inr new"
      and hunks: "file_hunks (display_name old new) (n + 2) ms = Inr (h # hs, rest)"
      and d: "materialize_unified_file_change rp old new (h # hs) = Inr d"
      and ds: "unified_changes rp (n + 2 + (length ms - length rest)) rest = Inr ds" and cs: "cs = d # ds"
      by (auto simp: unified_changes.simps split: sum.splits list.splits if_splits prod.splits)
    show ?thesis
    proof (cases "c = d")
      case True
      then show ?thesis using materialize_path[OF d] old new m \<open>startswith l ''--- ''\<close> ls
        by (auto simp: unified_header_def split: if_splits)
    next
      case False
      then have "c \<in> set ds" using "2.prems"(2) cs by simp
      then have "\<exists>l\<in>set rest. \<exists>m raw. unified_header l \<and> parse_unified_file_header l m = Inr raw
        \<and> normalize_unified_patch_path rp raw = Inr (fst c) \<and> fst c \<noteq> ''/dev/null''"
        using "2.IH"(2)[OF _ _ ls _ _ _ _ _ d ds] True m old new hunks by (auto split: sum.splits)
      then show ?thesis using file_hunks_set[OF hunks] ls by auto
    qed
  qed
qed

lemma unified_changes_envelope:
  "stable_names rp \<Longrightarrow> open_headers rp ls \<Longrightarrow> envelope_only (unified_changes rp n ls)"
proof (induction rp n ls rule: unified_changes.induct)
  case (1 rp n)
  then show ?case by (simp add: unified_changes.simps)
next
  case (2 rp n l ls)
  have header: "envelope_only (rbind (parse_unified_file_header x m) (normalize_unified_patch_path rp))"
    if "x \<in> set (l # ls)" "unified_header x" for x m
    using "2.prems"(2) that parse_header_envelope[of x m]
    by (cases "parse_unified_file_header x m")
      (auto simp: open_headers_def normalize_unified_patch_path_def rp_path_def resolve_repository_path_def Let_def guard_def
        dest!: bspec[where x = x])
  have name: "open_name rp q" if "rbind r (normalize_unified_patch_path rp) = Inr q" for r q
    using that normalized_open[OF "2.prems"(1)] by auto
  have open_rest: "open_headers rp ys" if "set ys \<subseteq> set ls" for ys
    using "2.prems"(2) that by (auto simp: open_headers_def)
  show ?case
  proof (cases "startswith l ''--- ''")
    case False
    then show ?thesis using "2.IH"(1) open_rest[of ls] "2.prems"(1) by (simp add: unified_changes.simps)
  next
    case True
    show ?thesis
    proof (subst unified_changes.simps, intro throws_branches)
      show "envelope_only (unified_changes rp (n + 1) ls)" if "\<not> startswith l ''--- ''" using that True by simp
      show "envelope_only (rbind (parse_unified_file_header l n) (normalize_unified_patch_path rp))"
        using header[of l] True by (simp add: unified_header_def)
    next
      fix old m ms
      assume "ls = m # ms" "\<not> \<not> startswith m ''+++ ''"
      then show "envelope_only (rbind (parse_unified_file_header m (n + 1)) (normalize_unified_patch_path rp))"
        using header[of m] by (simp add: unified_header_def)
    next
      fix old m ms new p hs rest h hs'
      assume *: "\<not> \<not> startswith l ''--- ''" "rbind (parse_unified_file_header l n) (normalize_unified_patch_path rp) = Inr old"
        "ls = m # ms" "\<not> \<not> startswith m ''+++ ''"
        "rbind (parse_unified_file_header m (n + 1)) (normalize_unified_patch_path rp) = Inr new"
        "file_hunks (display_name old new) (n + 2) ms = Inr p" "p = (hs, rest)" "hs = h # hs'"
      show "envelope_only (materialize_unified_file_change rp old new (h # hs'))"
        using materialize_envelope *(2,5) name by blast
      fix c
      assume c: "materialize_unified_file_change rp old new (h # hs') = Inr c"
      have "set rest \<subseteq> set ls" using file_hunks_set *(3,6,7) by fastforce
      then show "envelope_only (unified_changes rp (n + 2 + (length ms - length rest)) rest)"
        using "2.IH"(2) * c open_rest "2.prems"(1) by blast
    qed (simp_all add: file_hunks_envelope)
  qed
qed

section \<open>Writing\<close>

lemma write_change_effect:
  assumes "write_change rp c = Inr files" "dict_get files p \<noteq> dict_get (rp_files rp) p"
  shows "rp_path rp False (fst c) = Inr p"
  using assms by (cases c) (auto simp: write_change_def dict_get_set dict_get_pop split: option.splits if_splits)

lemma write_changes_effect:
  "write_changes rp cs = (rp', failure) \<Longrightarrow> dict_get (rp_files rp') p \<noteq> dict_get (rp_files rp) p \<Longrightarrow>
   \<exists>c\<in>set cs. rp_path rp False (fst c) = Inr p"
proof (induction rp cs arbitrary: rp' failure rule: write_changes.induct)
  case (2 rp c cs)
  then obtain files where w: "write_change rp c = Inr files"
    by (cases "write_change rp c") auto
  then have rest: "write_changes (rp\<lparr>rp_files := files\<rparr>) cs = (rp', failure)" using "2.prems"(1) by simp
  show ?case
  proof (cases "dict_get files p = dict_get (rp_files rp) p")
    case False
    then show ?thesis using write_change_effect[OF w] by auto
  next
    case True
    have "\<exists>c\<in>set cs. rp_path (rp\<lparr>rp_files := files\<rparr>) False (fst c) = Inr p"
      using "2.IH"[OF w rest] "2.prems"(2) True by simp
    then show ?thesis by (auto simp: rp_path_open)
  qed
qed simp

lemma write_change_failure:
  "open_name rp (fst c) \<Longrightarrow> fst c \<noteq> ''/dev/null'' \<Longrightarrow> write_change rp c = Inl e \<Longrightarrow> tx_os e"
proof -
  assume "open_name rp (fst c)" "fst c \<noteq> ''/dev/null''" and w: "write_change rp c = Inl e"
  then have "rp_path rp False (fst c) = Inr (rp_resolve rp (fst c))" by (auto simp: rp_path_open open_name_def)
  with w show "tx_os e" by (cases c) (auto simp: write_change_def split: option.splits if_splits)
qed

lemma write_changes_failure:
  "\<forall>c\<in>set cs. open_name rp (fst c) \<and> fst c \<noteq> ''/dev/null'' \<Longrightarrow> snd (write_changes rp cs) = Some e \<Longrightarrow> tx_os e"
proof (induction rp cs rule: write_changes.induct)
  case (2 rp c cs)
  show ?case
  proof (cases "write_change rp c")
    case (Inl e')
    then show ?thesis using "2.prems" write_change_failure[of rp c e'] by simp
  next
    case (Inr files)
    have "\<forall>c\<in>set cs. open_name (rp\<lparr>rp_files := files\<rparr>) (fst c) \<and> fst c \<noteq> ''/dev/null''"
      using "2.prems"(1) by (auto simp: open_name_def)
    then show ?thesis using "2.IH"[OF Inr] "2.prems"(2) Inr by simp
  qed
qed simp

section \<open>The tool\<close>

lemma validated_headers:
  assumes "validate_unified_patch_paths rp patch = Inr targets" "l \<in> set (splitlines patch)" "unified_header l"
    "parse_unified_file_header l n = Inr raw"
  shows "slashes raw = ''/dev/null'' \<or> \<not> is_repository_path_protected (rp_resolve rp (strip_side (slashes raw)))
    \<and> display_path (rp_root rp) (rp_resolve rp (strip_side (slashes raw))) \<in> set targets"
proof -
  from assms(1) obtain ps ts where ps: "header_paths 1 (splitlines patch) = Inr ps"
    and ts: "target_paths rp (fromkeys ps) = Inr ts" and targets: "targets = fromkeys ts"
    by (auto simp: validate_unified_patch_paths_def unified_patch_paths_def)
  have "raw \<in> set ps"
    using header_paths_complete[OF ps assms(2,3), of n] assms(4) by simp
  then show ?thesis using target_paths_complete[OF ts, of raw] by (auto simp: targets)
qed

text \<open>A validated patch only has headers the parser can resolve, the null device apart.\<close>

lemma validated_open:
  assumes "validate_unified_patch_paths rp patch = Inr targets"
    and "\<not> is_repository_path_protected (rp_resolve rp ''/dev/null'')"
  shows "open_headers rp (splitlines patch)"
proof -
  have null: "strip_side ''/dev/null'' = ''/dev/null''" by (simp add: strip_side_def)
  then show ?thesis
    unfolding open_headers_def using validated_headers[OF assms(1)] assms(2) by (metis null)
qed

lemma checked_changes_iff: "checked_changes rp patch = Inr cs \<Longrightarrow> unified_changes rp 1 (splitlines patch) = Inr cs"
  by (auto simp: checked_changes_def parse_unified_patch_changes_def split: option.splits)

lemma checked_changes_envelope:
  "stable_names rp \<Longrightarrow> open_headers rp (splitlines patch) \<Longrightarrow> envelope_only (checked_changes rp patch)"
  unfolding checked_changes_def parse_unified_patch_changes_def
  by (intro throws_rbind unified_changes_envelope throws_guard) (auto split: option.split prod.split)

lemma without_git_files:
  assumes "apply_unified_patch_without_git rp patch fmt targets = (rp', x)"
    and "dict_get (rp_files rp') p \<noteq> dict_get (rp_files rp) p"
  shows "\<exists>cs c. unified_changes rp 1 (splitlines patch) = Inr cs \<and> c \<in> set cs \<and> rp_path rp False (fst c) = Inr p"
proof (cases "checked_changes rp patch")
  case (Inl e)
  then show ?thesis using assms by (simp add: apply_unified_patch_without_git_def Let_def)
next
  case (Inr cs)
  then obtain failure where "write_changes rp cs = (rp', failure)"
    using assms(1) by (auto simp: apply_unified_patch_without_git_def Let_def split: prod.splits)
  then show ?thesis using write_changes_effect[OF _ assms(2)] checked_changes_iff[OF Inr] by blast
qed

text \<open>
  C21: without Git the tool changes declared and open paths only. Whatever file differs after the
  call is not protected, and its display name is one of the targets the patch was validated for;
  the exception is a header that spells the null device with backslashes, which the validation
  skips and the parser resolves.
\<close>

theorem patch_stays_on_targets:
  assumes "apply_patch g rp patch = (rp', x)" "stable_names rp" "\<forall>rp p. \<exists>e. git_check g rp p = Inl (NotFound e)"
    and "dict_get (rp_files rp') p \<noteq> dict_get (rp_files rp) p"
  shows "\<not> is_repository_path_protected p \<and>
    (\<exists>fmt normalized targets. normalize_patch rp patch = Inr (fmt, normalized)
       \<and> validate_unified_patch_paths rp normalized = Inr targets
       \<and> (display_path (rp_root rp) p \<in> set targets \<or> p = rp_resolve rp ''/dev/null''))"
proof -
  from assms(3) obtain e where git: "\<And>rp p. git_check g rp p = Inl (NotFound (e rp p))" by metis
  from assms(1,4) obtain fmt normalized targets where n: "normalize_patch rp patch = Inr (fmt, normalized)"
    and v: "validate_unified_patch_paths rp normalized = Inr targets"
    and run: "apply_unified_patch_without_git rp normalized fmt targets = (rp', x)"
    by (auto simp: apply_patch_def git split: sum.splits prod.splits)
  obtain cs c where cs: "unified_changes rp 1 (splitlines normalized) = Inr cs" "c \<in> set cs"
    and c: "rp_path rp False (fst c) = Inr p"
    using without_git_files[OF run assms(4)] by blast
  obtain l m raw where l: "l \<in> set (splitlines normalized)" "unified_header l" "parse_unified_file_header l m = Inr raw"
    and raw: "normalize_unified_patch_path rp raw = Inr (fst c)" "fst c \<noteq> ''/dev/null''"
    using unified_changes_headers[OF cs] by blast
  let ?t = "rp_resolve rp (strip_side (slashes raw))"
  have name: "fst c = display_path (rp_root rp) ?t" using raw by (auto simp: normalize_path_iff split: if_splits)
  have p: "p = ?t" using c assms(2) by (auto simp: rp_path_open name stable_names_def)
  have null: "slashes raw = ''/dev/null'' \<Longrightarrow> p = rp_resolve rp ''/dev/null''" by (simp add: p strip_side_def)
  have "\<not> is_repository_path_protected p" using c by (simp add: rp_path_open)
  moreover have "display_path (rp_root rp) p \<in> set targets \<or> p = rp_resolve rp ''/dev/null''"
    using validated_headers[OF v l] null unfolding p by blast
  ultimately show ?thesis using n v by blast
qed

text \<open>Where an \<open>OSError\<close> with this text comes from: a file that cannot be read, or Git.\<close>

inductive environment_error :: "git \<Rightarrow> repo \<Rightarrow> str \<Rightarrow> bool" for g rp where
  Unreadable: "rp_read_error rp p = Some t \<Longrightarrow> environment_error g rp t"
| Check: "git_check g rp' patch = Inl s \<Longrightarrow> environment_error g rp (spawn_text s)"
| Apply: "git_apply g rp' patch = (Inl s, files) \<Longrightarrow> environment_error g rp (spawn_text s)"
| Status: "git_status g rp' targets = Inl s \<Longrightarrow> environment_error g rp (spawn_text s)"

text \<open>The translation of an envelope raises one \<open>OSError\<close> only: a target that cannot be read.\<close>

abbreviation read_only_error :: "repo \<Rightarrow> tool_exn \<Rightarrow> bool" where
  "read_only_error rp e \<equiv> tx_os e \<longrightarrow> (\<exists>p. rp_read_error rp p = Some (tx_message e))"

lemma parse_envelope_throws: "throws (read_only_error rp) (parse_codex_envelope patch)"
proof -
  have "throws (\<lambda>e. \<not> tx_os e) (envelope_ops n seen ls)" for n seen ls
  proof (induction n seen ls rule: envelope_ops.induct)
    case (2 n seen l ls)
    then show ?case
      by (subst envelope_ops.simps) (auto simp: Let_def throws_def split: option.splits sum.splits)
  qed (simp add: envelope_ops.simps)
  then show ?thesis
    by (fastforce simp: parse_codex_envelope_def Let_def throws_def split: sum.splits list.splits)
qed

lemma update_throws: "throws (\<lambda>e. \<not> tx_os e) (apply_update_hunks before op)"
proof -
  have collect: "throws (\<lambda>e. \<not> tx_os e) (collect_hunks path cur ls)" for path cur ls
    by (induction path cur ls rule: collect_hunks.induct) (auto split: option.splits list.splits intro!: envelope)
  have hunks: "throws (\<lambda>e. \<not> tx_os e) (apply_hunks path n i hs ls)" for path n i hs ls
    by (induction path n i hs ls rule: apply_hunks.induct)
      (auto simp: check_hunk_def find_unique_sequence_def Let_def split: option.splits list.splits intro!: envelope)
  show ?thesis
    by (auto simp: apply_update_hunks_def split_update_hunks_def Let_def intro!: envelope collect hunks)
qed

lemma added_throws: "throws (\<lambda>e. \<not> tx_os e) (parse_added_file op)"
proof -
  have "throws (\<lambda>e. \<not> tx_os e) (added_lines path ls)" for path ls
    by (induction path ls rule: added_lines.induct) (auto intro!: envelope)
  then show ?thesis by (auto simp: parse_added_file_def intro!: envelope)
qed

lemma rp_path_throws: "throws (\<lambda>e. \<not> tx_os e) (rp_path rp b raw)"
  by (auto simp: rp_path_def resolve_repository_path_def Let_def intro!: envelope)

lemma throws_mono: "throws Q r \<Longrightarrow> (\<And>e. Q e \<Longrightarrow> R e) \<Longrightarrow> throws R r"
  by (simp add: throws_def)

lemma operation_throws: "throws (read_only_error rp) (operation_change rp op)"
proof -
  note pure = throws_mono [where R = "read_only_error rp", OF rp_path_throws] throws_mono [where R = "read_only_error rp", OF added_throws]
    throws_mono [where R = "read_only_error rp", OF update_throws]
  have "throws (read_only_error rp) (read_target rp op)"
    by (auto simp: read_target_def split: option.splits intro!: envelope pure)
  then show ?thesis
    by (auto simp: operation_change_def intro!: envelope pure split: prod.splits)
qed

lemma normalize_throws:
  assumes "normalize_patch rp patch = Inl (Inl e)"
  shows "tx_os e \<and> (\<exists>p. rp_read_error rp p = Some (tx_message e))"
proof -
  have ops: "throws (read_only_error rp) (operation_changes rp ops)" for ops
    by (induction ops) (auto intro!: envelope operation_throws)
  have "throws (read_only_error rp) (rbind (parse_codex_envelope patch) (build_unified_patch rp))"
    by (auto simp: build_unified_patch_def Let_def intro!: envelope ops parse_envelope_throws)
  with assms show ?thesis
    by (auto simp: normalize_patch_def throws_def Let_def split: if_splits sum.splits)
qed

subsection \<open>How a call ends\<close>

text \<open>
  A result is well-formed, and a rejection leaves the repository as it was. What is raised is an
  \<open>OSError\<close> of the environment, and files differ then only if Git had accepted the patch.
\<close>

definition orderly :: "git \<Rightarrow> repo \<Rightarrow> repo \<times> (tool_exn + tool_result) \<Rightarrow> bool" where
  "orderly g rp x \<longleftrightarrow>
     (case snd x of
        Inr r \<Rightarrow> tool_result_wf r \<and>
          (\<not> tr_success r \<and> te_code (the (tr_error r)) \<noteq> ''patch_apply_failed'' \<longrightarrow> fst x = rp)
      | Inl e \<Rightarrow> tx_os e \<and> environment_error g rp (tx_message e) \<and>
          (fst x = rp \<or> (\<exists>p check. git_check g rp p = Inr check \<and> pr_exit_code check = 0)))"

lemma orderly_results [simp]:
  "orderly g rp (rp', Inr (mk_ok s c m))"
  "orderly g rp (rp', Inr (mk_fail code s c d m)) \<longleftrightarrow> (code \<noteq> ''patch_apply_failed'' \<longrightarrow> rp' = rp)"
  "orderly g rp (rp, Inr (validation_failure s ctx e))"
  by (auto simp: orderly_def mk_ok_def mk_fail_def validation_failure_def tool_result_wf_def)

lemma without_git_orderly:
  assumes v: "validate_unified_patch_paths rp patch = Inr targets"
    and names: "stable_names rp" "\<not> is_repository_path_protected (rp_resolve rp ''/dev/null'')"
  shows "orderly g rp (apply_unified_patch_without_git rp patch fmt targets)"
proof (cases "checked_changes rp patch")
  case (Inl e)
  then show ?thesis using checked_changes_envelope[OF names(1) validated_open[OF v names(2)]]
    by (simp add: apply_unified_patch_without_git_def Let_def)
next
  case (Inr cs)
  have "\<forall>c\<in>set cs. open_name rp (fst c) \<and> fst c \<noteq> ''/dev/null''"
    using unified_changes_headers[OF checked_changes_iff[OF Inr]] normalized_open[OF names(1)] by blast
  then have "tx_os e" if "snd (write_changes rp cs) = Some e" for e using write_changes_failure that by blast
  then show ?thesis using Inr
    by (auto simp: apply_unified_patch_without_git_def Let_def split: prod.splits option.splits)
qed

lemma with_git_orderly:
  "git_check g rp patch = Inr check \<Longrightarrow> orderly g rp (apply_with_git g rp patch fmt targets check)"
  by (auto simp: apply_with_git_def orderly_def Let_def split: prod.split sum.split
      intro: environment_error.intros)
    (auto simp: mk_fail_def mk_ok_def tool_result_wf_def)

lemma normalize_orderly:
  assumes "normalize_patch rp patch = Inl x"
  shows "orderly g rp (rp, x)"
proof (cases x)
  case (Inl e)
  then show ?thesis using normalize_throws[of rp patch e] assms by (auto simp: orderly_def intro: Unreadable)
next
  case (Inr r)
  then show ?thesis using assms by (auto simp: normalize_patch_def Let_def split: sum.splits if_splits)
qed


subsection \<open>A run\<close>

definition sample_repo :: repo where
  "sample_repo = \<lparr>rp_root = ''/w'',
     rp_resolve = (\<lambda>p. if p = ''f'' \<or> p = ''/w/f'' then ''/w/f'' else ''/dev/null''),
     rp_files = [(''/w/f'', Some (py_join [NL] [''a'', ''b''] @ [NL]))],
     rp_is_dir = (\<lambda>_. False), rp_decode_error = (\<lambda>_. []), rp_read_error = (\<lambda>_. None), rp_write_error = (\<lambda>_. None)\<rparr>"

definition silent_process :: shell_result where
  "silent_process = \<lparr>pr_exit_code = 0, pr_stdout = [], pr_stderr = [], pr_duration = 0, pr_timed_out = False,
     pr_stdout_truncated = False, pr_stderr_truncated = False, pr_stdout_bytes = 0, pr_stderr_bytes = 0,
     pr_stdout_artifact = None, pr_stderr_artifact = None, pr_output_incomplete = False\<rparr>"

definition no_git :: git where
  "no_git = \<lparr>git_check = (\<lambda>_ _. Inl (NotFound ''git'')), git_apply = (\<lambda>rp _. (Inr silent_process, rp_files rp)),
     git_status = (\<lambda>_ _. Inr silent_process)\<rparr>"

definition sample_patch :: str where
  "sample_patch = py_join [NL] [''--- a/f'', ''+++ b/f'', ''@@ -1,2 +1,2 @@'', '' a'', ''-b'', ''+c''] @ [NL]"

lemma sample_names: "stable_names sample_repo" "\<not> is_repository_path_protected (rp_resolve sample_repo ''/dev/null'')"
proof -
  have "display_path ''/w'' ''/w/f'' = ''f''" "display_path ''/w'' ''/dev/null'' = ''/dev/null''" by code_simp+
  then show "stable_names sample_repo" by (simp add: stable_names_def sample_repo_def)
  show "\<not> is_repository_path_protected (rp_resolve sample_repo ''/dev/null'')" by code_simp
qed

lemma sample_patch_runs:
  "map_prod (\<lambda>rp. dict_get (rp_files rp) ''/w/f'') (map_sum id tr_success) (apply_patch no_git sample_repo sample_patch)
   = (Some (Some (py_join [NL] [''a'', ''c''] @ [NL])), Inr True)"
  by code_simp

lemma patch_stays_on_targets_witness:
  "\<not> is_repository_path_protected ''/w/f'' \<and> (\<exists>fmt normalized targets.
     normalize_patch sample_repo sample_patch = Inr (fmt, normalized)
     \<and> validate_unified_patch_paths sample_repo normalized = Inr targets
     \<and> (display_path (rp_root sample_repo) ''/w/f'' \<in> set targets \<or> ''/w/f'' = rp_resolve sample_repo ''/dev/null''))"
proof -
  obtain rp x where run: "apply_patch no_git sample_repo sample_patch = (rp, x)"
    and after: "dict_get (rp_files rp) ''/w/f'' = Some (Some (py_join [NL] [''a'', ''c''] @ [NL]))"
    using sample_patch_runs by (cases "apply_patch no_git sample_repo sample_patch") auto
  have before: "dict_get (rp_files sample_repo) ''/w/f'' = Some (Some (py_join [NL] [''a'', ''b''] @ [NL]))"
    by code_simp
  have git: "\<forall>rp p. \<exists>e. git_check no_git rp p = Inl (NotFound e)" by (simp add: no_git_def)
  show ?thesis
    by (rule patch_stays_on_targets[OF run sample_names(1) git]) (simp add: after before)
qed

text \<open>A repository whose only file cannot be read, and an envelope that updates it: the error leaves the call.\<close>

definition locked_repo :: repo where
  "locked_repo = sample_repo\<lparr>rp_read_error := (\<lambda>_. Some ''denied'')\<rparr>"

definition sample_envelope :: str where
  "sample_envelope = py_join [NL] [''*** Begin Patch'', ''*** Update File: f'', ''@@'', ''-b'', ''+c'', ''*** End Patch'']"

lemma locked_patch_raises:
  "map_prod (\<lambda>rp. dict_get (rp_files rp) ''/w/f'') (map_sum tx_message id) (apply_patch no_git locked_repo sample_envelope)
   = (Some (Some (py_join [NL] [''a'', ''b''] @ [NL])), Inl ''denied'')"
  by code_simp


text \<open>
  A hunk without old lines is placed one line early: \<open>@@ -1,0 +2 @@\<close> inserts after line 1, and the
  line ends up before it.
\<close>

lemma zero_context_insertion:
  "edit_lines ''f'' 0 [\<lparr>hk_old_start = 1, hk_old_count = 0, hk_body = [''+c''], hk_final = True\<rparr>] [''a'', ''b'']
   = Inr [''c'', ''a'', ''b'']"
  by code_simp

end
