(* ===== verification/Session_Journal.thy ===== *)
theory Session_Journal
  imports Task_Manager Turn_State
begin

text \<open>
  \<open>SessionJournal\<close> of \<open>forge/sessions/store.py\<close>: the append-only ledger of one session. The world
  holds the text files by path, the supplies of \<open>uuid4\<close> and of the clocks, and what can fail from
  outside: a lock another process owns and an \<open>OSError\<close> of a write. An operation returns its
  result or exception together with the journal and the world it leaves. \<open>json.loads\<close>, SHA-256 and
  the two representations of Python are fields of \<open>session_env\<close>.
\<close>

datatype session_exn = SessionError str | SessionNotFound str | SessionCorrupt str | PyError py_exn

record session_env =
  se_loads :: "str \<Rightarrow> json option"
  se_frepr :: "pyfloat \<Rightarrow> str"
  se_pr :: "json \<Rightarrow> str"
  se_sha :: "str \<Rightarrow> str"
  se_resolve :: "str \<Rightarrow> str"

text \<open>\<open>sf_torn\<close>: the last write was cut inside a character, so the bytes are no UTF-8.\<close>

record stored_file =
  sf_text :: str
  sf_torn :: bool
  sf_mtime :: int

record session_world =
  sw_files :: "(str, stored_file) dict"
  sw_uuid :: "nat \<Rightarrow> str"
  sw_now :: "nat \<Rightarrow> str"
  sw_mtime :: "nat \<Rightarrow> int"
  sw_tick :: nat
  sw_locked :: "str \<Rightarrow> bool"
  sw_write_error :: "str \<Rightarrow> str option"

record session_journal =
  sj_path :: str
  sj_id :: str
  sj_root :: str
  sj_sequence :: nat
  sj_parent :: "str option"
  sj_inline :: nat
  sj_turn :: str
  sj_started :: "str list"
  sj_completed :: "str list"
  sj_read_only :: bool
  sj_pending :: "(str \<times> jdict) list option"
  sj_capture :: "jdict list option"

definition SCHEMA_VERSION :: int where "SCHEMA_VERSION = 2"
definition DEFAULT_INLINE_PAYLOAD_BYTES :: nat where "DEFAULT_INLINE_PAYLOAD_BYTES = 256000"

section \<open>JSON text\<close>

text \<open>\<open>json.dumps(v, ensure_ascii=False, separators=(',', ':'))\<close>\<close>

fun json_compact :: "(pyfloat \<Rightarrow> str) \<Rightarrow> json \<Rightarrow> str" where
  "json_compact frepr JNull = ''null''"
| "json_compact frepr (JBool b) = (if b then ''true'' else ''false'')"
| "json_compact frepr (JInt i) = int_str i"
| "json_compact frepr (JFloat q) = frepr q"
| "json_compact frepr (JStr s) = json_quote s"
| "json_compact frepr (JList vs) = ''['' @ py_join '','' (map (json_compact frepr) vs) @ '']''"
| "json_compact frepr (JObj kvs) =
     ''{'' @ py_join '','' (map (\<lambda>kv. json_quote (fst kv) @ '':'' @ json_compact frepr (snd kv)) kvs) @ ''}''"

text \<open>A JSON number that equals an integer, as \<open>==\<close> compares them.\<close>

definition json_eq_int :: "json \<Rightarrow> int \<Rightarrow> bool" where
  "json_eq_int v n \<longleftrightarrow> (case v of JInt i \<Rightarrow> i = n | JBool b \<Rightarrow> (if b then 1 else 0) = n | JFloat q \<Rightarrow> q = of_int n | _ \<Rightarrow> False)"

definition json_opt_str :: "str option \<Rightarrow> json" where
  "json_opt_str s = (case s of None \<Rightarrow> JNull | Some t \<Rightarrow> JStr t)"

section \<open>Appending\<close>

definition put_file :: "session_world \<Rightarrow> str \<Rightarrow> str \<Rightarrow> session_exn + session_world" where
  "put_file w path text =
     (case sw_write_error w path of
        Some e \<Rightarrow> Inl (PyError (OSError e))
      | None \<Rightarrow> Inr (w\<lparr>sw_files := dict_set (sw_files w) path
          \<lparr>sf_text = text, sf_torn = False, sf_mtime = sw_mtime w (sw_tick w)\<rparr>, sw_tick := sw_tick w + 1\<rparr>))"

text \<open>The last line of the file, as the head check finds it: after the last line feed of the stripped text.\<close>

definition last_line :: "str \<Rightarrow> str" where
  "last_line text =
     (let stripped = rstrip_chars [CHR '' '', TAB, CR, NL] text in rev (takeWhile (\<lambda>c. c \<noteq> NL) (rev stripped)))"

definition assert_append_head :: "session_env \<Rightarrow> session_journal \<Rightarrow> session_world \<Rightarrow> session_exn + unit" where
  "assert_append_head env j w =
     (case dict_get (sw_files w) (sj_path j) of
        None \<Rightarrow> guard (sj_sequence j \<noteq> 0 \<or> sj_parent j \<noteq> None)
          (SessionError ''Session journal disappeared before append.'') (Inr ())
      | Some f \<Rightarrow>
          (let invalid = SessionError (''Cannot validate session append head: '' @ sj_path j) in
           guard (sf_torn f \<or> sf_text f \<noteq> [] \<and> last (sf_text f) \<noteq> NL) invalid
           (case se_loads env (last_line (sf_text f)) of
              Some (JObj durable) \<Rightarrow>
                guard (\<not> json_eq_int (jget durable ''sequence'') (int (sj_sequence j))
                    \<or> jget durable ''uuid'' \<noteq> json_opt_str (sj_parent j))
                  (SessionError ''Session changed after it was opened, likely because another ForgeCode process is still writing it. Stop the other process and resume again instead of creating a forked journal.'')
                  (Inr ())
            | _ \<Rightarrow> Inl invalid)))"

definition artifact_path :: "session_journal \<Rightarrow> str \<Rightarrow> str" where
  "artifact_path j uuid = ''artifacts/'' @ sj_id j @ ''/'' @ uuid @ ''.json''"

definition write_artifact ::
  "session_env \<Rightarrow> session_journal \<Rightarrow> session_world \<Rightarrow> str \<Rightarrow> str \<Rightarrow> session_exn + json \<times> session_world" where
  "write_artifact env j w uuid content =
     rbind (put_file w (path_parent (sj_path j) @ ''/'' @ artifact_path j uuid) content) (\<lambda>w'.
       Inr (JObj [(''path'', JStr (artifact_path j uuid)), (''sha256'', JStr (se_sha env content))], w'))"

text \<open>The record without its payload; the last field is present when the payload has a tool call.\<close>

definition event_head :: "session_journal \<Rightarrow> session_world \<Rightarrow> str \<Rightarrow> str \<Rightarrow> jdict \<Rightarrow> jdict" where
  "event_head j w uuid kind payload =
     [(''schema_version'', JInt SCHEMA_VERSION), (''uuid'', JStr uuid), (''parent_uuid'', json_opt_str (sj_parent j)),
      (''session_id'', JStr (sj_id j)), (''sequence'', JInt (int (sj_sequence j))),
      (''timestamp'', JStr (sw_now w (sw_tick w))), (''type'', JStr kind), (''turn_id'', JStr (sj_turn j))]
     @ (case dict_get payload ''tool_call_id'' of None \<Rightarrow> [] | Some v \<Rightarrow> [(''tool_call_id'', v)])"

definition with_turn :: "session_journal \<Rightarrow> jdict \<Rightarrow> jdict" where
  "with_turn j payload = (if sj_turn j \<noteq> [] then dict_set payload ''turn_id'' (JStr (sj_turn j)) else payload)"

definition file_text :: "session_world \<Rightarrow> str \<Rightarrow> str" where
  "file_text w path = (case dict_get (sw_files w) path of None \<Rightarrow> [] | Some f \<Rightarrow> sf_text f)"

type_synonym 'a journal_step = "(session_exn + 'a) \<times> session_journal \<times> session_world"

text \<open>The record with its payload, inline or written to an artifact first when it is too long.\<close>

definition stored_record ::
  "session_env \<Rightarrow> session_journal \<Rightarrow> session_world \<Rightarrow> str \<Rightarrow> jdict \<Rightarrow> jdict \<Rightarrow> session_exn + jdict \<times> session_world" where
  "stored_record env j w uuid head payload =
     (let encoded = json_compact (se_frepr env) (JObj payload) in
      if sj_inline j < utf8_len encoded
      then rbind (write_artifact env j w uuid encoded) (\<lambda>(ref, w'). Inr (head @ [(''payload_ref'', ref)], w'))
      else Inr (head @ [(''payload'', JObj payload)], w))"

definition append_locked ::
  "session_env \<Rightarrow> str \<Rightarrow> jdict \<Rightarrow> session_journal \<Rightarrow> session_world \<Rightarrow> jdict journal_step" where
  "append_locked env kind payload0 j w =
     (case assert_append_head env j w of
        Inl e \<Rightarrow> (Inl e, j, w)
      | Inr _ \<Rightarrow>
          (let payload = with_turn j payload0;
               uuid = sw_uuid w (sw_tick w);
               w1 = w\<lparr>sw_tick := sw_tick w + 1\<rparr>;
               j1 = j\<lparr>sj_sequence := sj_sequence j + 1\<rparr>;
               head = event_head j1 w1 uuid kind payload
           in (case stored_record env j1 w1 uuid head payload of
                Inl e \<Rightarrow> (Inl e, j1, w1)
              | Inr (record, w2) \<Rightarrow>
                  (case put_file w2 (sj_path j) (file_text w2 (sj_path j) @ json_compact (se_frepr env) (JObj record) @ [NL]) of
                     Inl e \<Rightarrow> (Inl e, j1, w2)
                   | Inr w3 \<Rightarrow> (Inr record,
                       j1\<lparr>sj_parent := Some uuid, sj_capture := map_option (\<lambda>c. c @ [record]) (sj_capture j1)\<rparr>, w3)))))"

definition journal_append :: "session_env \<Rightarrow> str \<Rightarrow> jdict \<Rightarrow> session_journal \<Rightarrow> session_world \<Rightarrow> jdict journal_step" where
  "journal_append env kind payload j w =
     (if sj_read_only j
      then (Inl (SessionError ''Legacy sessions are read-only. Fork this session to continue in the new format.''), j, w)
      else (case sj_pending j of
          Some events \<Rightarrow>
            (Inr [], if kind \<noteq> ''session_stopped'' then j\<lparr>sj_pending := Some (events @ [(kind, payload)])\<rparr> else j, w)
        | None \<Rightarrow>
            if sw_locked w (sj_path j)
            then (Inl (SessionError ''Session is being written by another process.''), j, w)
            else append_locked env kind payload j w))"

text \<open>A deferred session is written before its first turn; an exception keeps what is left to write.\<close>

fun commit_events ::
  "session_env \<Rightarrow> (str \<times> jdict) list \<Rightarrow> session_journal \<Rightarrow> session_world \<Rightarrow> unit journal_step" where
  "commit_events env [] j w = (Inr (), j\<lparr>sj_pending := None\<rparr>, w)"
| "commit_events env ((kind, payload) # events) j w =
     (case append_locked env kind payload (j\<lparr>sj_pending := Some ((kind, payload) # events)\<rparr>) w of
        (Inl e, j', w') \<Rightarrow> (Inl e, j', w')
      | (Inr _, j', w') \<Rightarrow> commit_events env events (j'\<lparr>sj_pending := Some events\<rparr>) w')"

definition commit :: "session_env \<Rightarrow> session_journal \<Rightarrow> session_world \<Rightarrow> unit journal_step" where
  "commit env j w =
     (case sj_pending j of
        None \<Rightarrow> (Inr (), j, w)
      | Some events \<Rightarrow>
          if sw_locked w (sj_path j) then (Inl (PyError (OSError ''BlockingIOError'')), j, w) else commit_events env events j w)"

definition capture_begin :: "session_journal \<Rightarrow> session_exn + session_journal" where
  "capture_begin j = (if sj_capture j \<noteq> None then Inl (PyError (RuntimeError ''This journal already has a live append capture''))
     else Inr (j\<lparr>sj_capture := Some []\<rparr>))"

definition capture_end :: "session_journal \<Rightarrow> session_journal" where
  "capture_end j = j\<lparr>sj_capture := None\<rparr>"

section \<open>The events of a session\<close>

text \<open>Two steps in sequence, the first exception ends them.\<close>

definition jseq :: "(session_journal \<Rightarrow> session_world \<Rightarrow> 'a journal_step) \<Rightarrow>
    ('a \<Rightarrow> session_journal \<Rightarrow> session_world \<Rightarrow> 'b journal_step) \<Rightarrow> session_journal \<Rightarrow> session_world \<Rightarrow> 'b journal_step" where
  "jseq f g j w = (case f j w of (Inl e, j', w') \<Rightarrow> (Inl e, j', w') | (Inr x, j', w') \<Rightarrow> g x j' w')"

definition task_json :: "active_task option \<Rightarrow> json" where
  "task_json t = (case t of None \<Rightarrow> JNull | Some t \<Rightarrow> task_as_dict t)"

definition record_task_state :: "session_env \<Rightarrow> active_task option \<Rightarrow> session_journal \<Rightarrow> session_world \<Rightarrow> jdict journal_step" where
  "record_task_state env task = journal_append env ''task_state'' [(''task'', task_json task)]"

definition record_user_message ::
  "session_env \<Rightarrow> jdict \<Rightarrow> active_task option \<Rightarrow> str option \<Rightarrow> session_journal \<Rightarrow> session_world \<Rightarrow> jdict journal_step" where
  "record_user_message env message task input_id =
     jseq (journal_append env ''user_message'' ([(''message'', JObj message)]
         @ (case input_id of None \<Rightarrow> [] | Some i \<Rightarrow> if i = [] then [] else [(''input_id'', JStr i)])))
       (\<lambda>_. record_task_state env task)"

definition requested_call :: "session_env \<Rightarrow> nat \<Rightarrow> json \<Rightarrow> jdict option" where
  "requested_call env index block =
     (case block of
        JObj b \<Rightarrow> (if has_type b ''tool_use'' then Some
          [(''tool_call_id'', JStr (str_of (se_pr env) (dict_get_or b ''id'' (JStr [])))),
           (''index'', JInt (int index)),
           (''name'', JStr (str_of (se_pr env) (dict_get_or b ''name'' (JStr [])))),
           (''arguments'', dict_get_or b ''input'' (JObj []))] else None)
      | _ \<Rightarrow> None)"

fun append_all :: "session_env \<Rightarrow> str \<Rightarrow> jdict list \<Rightarrow> session_journal \<Rightarrow> session_world \<Rightarrow> unit journal_step" where
  "append_all env kind [] j w = (Inr (), j, w)"
| "append_all env kind (p # ps) j w = jseq (journal_append env kind p) (\<lambda>_. append_all env kind ps) j w"

definition record_assistant_message :: "session_env \<Rightarrow> jdict \<Rightarrow> session_journal \<Rightarrow> session_world \<Rightarrow> unit journal_step" where
  "record_assistant_message env message =
     jseq (journal_append env ''assistant_message'' [(''message'', JObj message)])
       (\<lambda>_. append_all env ''tool_requested''
         (case jget message ''content'' of
            JList blocks \<Rightarrow> List.map_filter (\<lambda>(i, b). requested_call env i b) (enumerate 0 blocks)
          | _ \<Rightarrow> []))"

definition record_tool_result_message ::
  "session_env \<Rightarrow> jdict \<Rightarrow> active_task option \<Rightarrow> session_journal \<Rightarrow> session_world \<Rightarrow> jdict journal_step" where
  "record_tool_result_message env message task =
     jseq (journal_append env ''tool_result_message'' [(''message'', JObj message)]) (\<lambda>_. record_task_state env task)"

text \<open>\<open>uuid4().hex\<close> has no dashes.\<close>

definition uuid_hex :: "session_world \<Rightarrow> str" where
  "uuid_hex w = filter (\<lambda>c. c \<noteq> CHR ''-'') (sw_uuid w (sw_tick w))"

definition record_turn_started ::
  "session_env \<Rightarrow> str \<Rightarrow> active_task option \<Rightarrow> session_journal \<Rightarrow> session_world \<Rightarrow> jdict journal_step" where
  "record_turn_started env prompt task j w =
     journal_append env ''turn_started'' [(''prompt'', JStr prompt), (''task'', task_json task)]
       (j\<lparr>sj_turn := uuid_hex w, sj_started := [], sj_completed := []\<rparr>) (w\<lparr>sw_tick := sw_tick w + 1\<rparr>)"

definition record_turn_cancelled :: "session_env \<Rightarrow> str \<Rightarrow> session_journal \<Rightarrow> session_world \<Rightarrow> jdict journal_step" where
  "record_turn_cancelled env reason = journal_append env ''turn_cancelled'' [(''reason'', JStr reason)]"

definition messages_json :: "jdict list \<Rightarrow> json" where
  "messages_json ms = JList (map JObj ms)"

definition record_context_compacted :: "session_env \<Rightarrow> jdict list \<Rightarrow> session_journal \<Rightarrow> session_world \<Rightarrow> jdict journal_step" where
  "record_context_compacted env messages = journal_append env ''context_compacted'' [(''messages'', messages_json messages)]"

text \<open>Starting or completing a tool twice in a turn is recorded once.\<close>

definition record_tool_started ::
  "session_env \<Rightarrow> str \<Rightarrow> str \<Rightarrow> jdict \<Rightarrow> jdict \<Rightarrow> session_journal \<Rightarrow> session_world \<Rightarrow> unit journal_step" where
  "record_tool_started env call_id name arguments provenance j w =
     (if call_id \<in> set (sj_started j) then (Inr (), j, w)
      else jseq (journal_append env ''tool_started''
          (dict_update [(''tool_call_id'', JStr call_id), (''name'', JStr name), (''arguments'', JObj arguments)] provenance))
        (\<lambda>_ j w. (Inr (), j\<lparr>sj_started := add_key call_id (sj_started j)\<rparr>, w)) j w)"

record tool_outcome =
  to_success :: bool
  to_status :: str
  to_error_code :: "str option"
  to_workspace_revision :: "int option"
  to_environment_epoch :: "int option"
  to_duration :: "pyfloat option"
  to_exit_code :: "int option"

definition execution_payload :: "str \<Rightarrow> str \<Rightarrow> tool_outcome \<Rightarrow> jdict \<Rightarrow> jdict" where
  "execution_payload call_id name out provenance =
     (let base = dict_update
        [(''tool_call_id'', JStr call_id), (''name'', JStr name), (''success'', JBool (to_success out)),
         (''status'', JStr (to_status out)), (''error_code'', json_opt_str (to_error_code out)),
         (''duration_seconds'', case to_duration out of None \<Rightarrow> JNull | Some d \<Rightarrow> JFloat d),
         (''exit_code'', case to_exit_code out of None \<Rightarrow> JNull | Some c \<Rightarrow> JInt c)] provenance;
          base = (case to_workspace_revision out of None \<Rightarrow> base | Some r \<Rightarrow> dict_set base ''workspace_revision'' (JInt r))
      in (case to_environment_epoch out of None \<Rightarrow> base | Some e \<Rightarrow> dict_set base ''environment_epoch'' (JInt e)))"

definition record_tool_completed ::
  "session_env \<Rightarrow> str \<Rightarrow> str \<Rightarrow> tool_outcome \<Rightarrow> jdict \<Rightarrow> session_journal \<Rightarrow> session_world \<Rightarrow> unit journal_step" where
  "record_tool_completed env call_id name out provenance j w =
     (if call_id \<in> set (sj_completed j) then (Inr (), j, w)
      else jseq (journal_append env ''tool_completed'' (execution_payload call_id name out provenance))
        (\<lambda>_ j w. (Inr (), j\<lparr>sj_completed := add_key call_id (sj_completed j)\<rparr>, w)) j w)"

text \<open>\<open>asdict\<close> of the turn result's parts is an argument.\<close>

record turn_record =
  tc_status :: str
  tc_text :: str
  tc_usage :: json
  tc_changed_paths :: "str list"
  tc_verification :: json
  tc_verification_history :: "json list"
  tc_reasons :: "str list"
  tc_stop_reason :: json
  tc_statistics :: json
  tc_report :: json

definition record_turn_completed ::
  "session_env \<Rightarrow> jdict list \<Rightarrow> active_task option \<Rightarrow> turn_record \<Rightarrow> session_journal \<Rightarrow> session_world \<Rightarrow> jdict journal_step" where
  "record_turn_completed env messages task r =
     jseq (journal_append env ''message_checkpoint'' [(''messages'', messages_json messages)]) (\<lambda>_.
     jseq (record_task_state env task) (\<lambda>_.
     journal_append env ''turn_completed''
       [(''status'', JStr (tc_status r)), (''text'', JStr (tc_text r)), (''usage'', tc_usage r),
        (''changed_paths'', JList (map JStr (tc_changed_paths r))), (''verification'', tc_verification r),
        (''verification_history'', JList (tc_verification_history r)),
        (''completion_reasons'', JList (map JStr (tc_reasons r))), (''stop_reason'', tc_stop_reason r),
        (''statistics'', tc_statistics r), (''completion_report'', tc_report r)]))"

definition record_error :: "session_env \<Rightarrow> str \<Rightarrow> str \<Rightarrow> session_journal \<Rightarrow> session_world \<Rightarrow> jdict journal_step" where
  "record_error env error_type message = journal_append env ''turn_error'' [(''error_type'', JStr error_type), (''message'', JStr message)]"

definition record_resumed :: "session_env \<Rightarrow> session_journal \<Rightarrow> session_world \<Rightarrow> jdict journal_step" where
  "record_resumed env j = journal_append env ''session_resumed'' [(''cwd'', JStr (sj_root j))] j"

definition record_checkpoint_created ::
  "session_env \<Rightarrow> str \<Rightarrow> jdict list \<Rightarrow> active_task option \<Rightarrow> session_journal \<Rightarrow> session_world \<Rightarrow> jdict journal_step" where
  "record_checkpoint_created env checkpoint_id messages task = journal_append env ''checkpoint_created''
     [(''checkpoint_id'', JStr checkpoint_id), (''messages'', messages_json messages), (''task'', task_json task)]"

definition clean_session_name :: "str option \<Rightarrow> session_exn + str option" where
  "clean_session_name value =
     (case value of
        None \<Rightarrow> Inr None
      | Some v \<Rightarrow> (let cleaned = py_strip v in
          if cleaned = [] then Inr None
          else if 100 < length cleaned then Inl (PyError (ValueError ''Session names are limited to 100 characters.''))
          else Inr (Some cleaned)))"

definition journal_rename :: "session_env \<Rightarrow> str \<Rightarrow> session_journal \<Rightarrow> session_world \<Rightarrow> str journal_step" where
  "journal_rename env name j w =
     (case clean_session_name (Some name) of
        Inl e \<Rightarrow> (Inl e, j, w)
      | Inr None \<Rightarrow> (Inl (PyError (ValueError ''Session name must not be empty.'')), j, w)
      | Inr (Some cleaned) \<Rightarrow>
          jseq (journal_append env ''session_renamed'' [(''name'', JStr cleaned)]) (\<lambda>_ j w. (Inr cleaned, j, w)) j w)"

definition record_stopped :: "session_env \<Rightarrow> session_journal \<Rightarrow> session_world \<Rightarrow> jdict journal_step" where
  "record_stopped env = journal_append env ''session_stopped'' []"

definition record_hook_execution ::
  "session_env \<Rightarrow> json \<Rightarrow> str option \<Rightarrow> str option \<Rightarrow> str list \<Rightarrow> session_journal \<Rightarrow> session_world \<Rightarrow> jdict journal_step" where
  "record_hook_execution env execution tool_name tool_call_id paths = journal_append env ''hook_execution''
     [(''execution'', execution), (''tool_name'', json_opt_str tool_name),
      (''tool_call_id'', json_opt_str tool_call_id), (''paths'', JList (map JStr paths))]"

section \<open>Opening a journal\<close>

definition first_truthy :: "json \<Rightarrow> json \<Rightarrow> json" where
  "first_truthy a b = (if json_truthy a then a else b)"

definition hydrate_record :: "session_env \<Rightarrow> jdict \<Rightarrow> session_journal \<Rightarrow> session_journal" where
  "hydrate_record env record j =
     (let kind = jget record ''type'';
          j = (if kind = JStr ''session_started''
            then j\<lparr>sj_read_only := \<not> json_eq_int (dict_get_or record ''schema_version'' (JInt 1)) SCHEMA_VERSION\<rparr> else j);
          j = (if kind = JStr ''turn_started''
            then j\<lparr>sj_turn := str_of (se_pr env) (first_truthy (jget record ''turn_id'') (dict_get_or record ''uuid'' (JStr []))),
              sj_started := [], sj_completed := []\<rparr> else j);
          call_id = first_truthy (jget record ''tool_call_id'')
            (case jget record ''payload'' of JObj p \<Rightarrow> jget p ''tool_call_id'' | _ \<Rightarrow> JNull)
      in case call_id of
           JStr i \<Rightarrow>
             (if i = [] then j
              else if kind = JStr ''tool_started'' then j\<lparr>sj_started := add_key i (sj_started j)\<rparr>
              else if kind = JStr ''tool_completed'' then j\<lparr>sj_completed := add_key i (sj_completed j)\<rparr> else j)
         | _ \<Rightarrow> j)"

fun hydrate_lines :: "session_env \<Rightarrow> str list \<Rightarrow> session_journal \<Rightarrow> session_exn + session_journal" where
  "hydrate_lines env [] j = Inr j"
| "hydrate_lines env (l # ls) j =
     (case se_loads env l of
        None \<Rightarrow> hydrate_lines env ls j
      | Some (JObj record) \<Rightarrow> hydrate_lines env ls (hydrate_record env record j)
      | Some _ \<Rightarrow> Inl (PyError (AttributeError ''get'')))"

definition unicode_error :: session_exn where
  "unicode_error = PyError (ValueError ''UnicodeDecodeError'')"

definition new_journal ::
  "session_env \<Rightarrow> session_world \<Rightarrow> str \<Rightarrow> str \<Rightarrow> str \<Rightarrow> nat \<Rightarrow> str option \<Rightarrow> bool \<Rightarrow> session_exn + session_journal" where
  "new_journal env w path ident base sequence parent deferred =
     (let j = \<lparr>sj_path = path, sj_id = ident, sj_root = se_resolve env base, sj_sequence = sequence, sj_parent = parent,
          sj_inline = DEFAULT_INLINE_PAYLOAD_BYTES, sj_turn = [], sj_started = [], sj_completed = [], sj_read_only = False,
          sj_pending = (if deferred then Some [] else None), sj_capture = None\<rparr>
      in (case dict_get (sw_files w) path of
            None \<Rightarrow> Inr j
          | Some f \<Rightarrow> if sf_torn f then Inl unicode_error else hydrate_lines env (splitlines (sf_text f)) j))"

end
