(* ===== verification/Session_Chain.thy ===== *)
theory Session_Chain
  imports Session_Journal
begin

text \<open>
  Reading a journal back: \<open>_read_records\<close> and \<open>_select_valid_record_chain\<close> of
  \<open>forge/sessions/store.py\<close>. Every record names its parent; the reader checks the links of all
  records and keeps the longest branch. The theorems: what is selected is a chain from the root to
  a record of the highest sequence, and a journal that only its owner wrote is read back whole.
\<close>

section \<open>The code\<close>

definition corrupt_at :: "str \<Rightarrow> str \<Rightarrow> nat \<Rightarrow> session_exn" where
  "corrupt_at what path n = SessionCorrupt (what @ '' at '' @ path @ '':'' @ nat_str n)"

text \<open>The records of the lines with their line numbers; only a broken last line is dropped.\<close>

fun parse_lines :: "session_env \<Rightarrow> str \<Rightarrow> nat \<Rightarrow> str list \<Rightarrow> session_exn + (jdict \<times> nat) list" where
  "parse_lines env path n [] = Inr []"
| "parse_lines env path n (l # ls) =
     (if py_strip l = [] then parse_lines env path (n + 1) ls
      else (case se_loads env l of
          None \<Rightarrow> (if ls = [] then Inr [] else Inl (corrupt_at ''Invalid JSON'' path n))
        | Some (JObj r) \<Rightarrow> rbind (parse_lines env path (n + 1) ls) (\<lambda>rs. Inr ((r, n) # rs))
        | Some _ \<Rightarrow> Inl (corrupt_at ''Invalid event'' path n)))"

definition record_uuid :: "session_env \<Rightarrow> jdict \<Rightarrow> str" where
  "record_uuid env r = py_strip (str_of (se_pr env) (dict_get_or r ''uuid'' (JStr [])))"

definition record_seq :: "jdict \<Rightarrow> int" where
  "record_seq r = (case int_of (dict_get_or r ''sequence'' (JInt 0)) of Some n \<Rightarrow> n | None \<Rightarrow> 0)"

record chain_state =
  cs_by :: "(str, jdict) dict"
  cs_roots :: "str list"
  cs_refs :: "str list"

definition chain_step :: "session_env \<Rightarrow> str \<Rightarrow> chain_state \<Rightarrow> jdict \<times> nat \<Rightarrow> session_exn + chain_state" where
  "chain_step env path st x = (case x of (r, n) \<Rightarrow>
     (let ident = record_uuid env r; kept = cs_by st; sequence = jget r ''sequence'' in
      guard (ident = [] \<or> dict_get kept ident \<noteq> None) (corrupt_at ''Invalid event UUID'' path n)
      (case jget r ''parent_uuid'' of
         JNull \<Rightarrow>
           guard (\<not> json_eq_int sequence 1) (corrupt_at ''Invalid sequence'' path n)
           (Inr (st\<lparr>cs_by := dict_set kept ident r, cs_roots := cs_roots st @ [ident]\<rparr>))
       | p \<Rightarrow>
           (let pid = str_of (se_pr env) p in
            case dict_get kept pid of
              None \<Rightarrow> Inl (corrupt_at ''Broken event chain'' path n)
            | Some parent \<Rightarrow>
                guard (\<not> json_eq_int sequence (record_seq parent + 1)) (corrupt_at ''Invalid sequence'' path n)
                (Inr (st\<lparr>cs_by := dict_set kept ident r, cs_refs := add_key pid (cs_refs st)\<rparr>))))))"

text \<open>\<open>max\<close> by sequence and position: a later terminal wins a tie.\<close>

definition better :: "(str, jdict) dict \<Rightarrow> str \<Rightarrow> str \<Rightarrow> str" where
  "better kept best u = (if record_seq (the (dict_get kept best)) \<le> record_seq (the (dict_get kept u)) then u else best)"

definition terminals :: "chain_state \<Rightarrow> str list" where
  "terminals st = filter (\<lambda>u. u \<notin> set (cs_refs st)) (map fst (cs_by st))"

definition winner :: "chain_state \<Rightarrow> str" where
  "winner st = foldl (better (cs_by st)) (hd (terminals st)) (tl (terminals st))"

text \<open>The walk to the root; a parent precedes its child, so the number of records is fuel enough.\<close>

fun climb :: "session_env \<Rightarrow> (str, jdict) dict \<Rightarrow> nat \<Rightarrow> str \<Rightarrow> jdict list" where
  "climb env kept 0 cursor = []"
| "climb env kept (Suc n) cursor =
     (case dict_get kept cursor of
        None \<Rightarrow> []
      | Some r \<Rightarrow> r # (case jget r ''parent_uuid'' of JNull \<Rightarrow> [] | p \<Rightarrow> climb env kept n (str_of (se_pr env) p)))"

definition select_valid_record_chain :: "session_env \<Rightarrow> str \<Rightarrow> (jdict \<times> nat) list \<Rightarrow> session_exn + jdict list" where
  "select_valid_record_chain env path records =
     (if records = [] then Inr []
      else rbind (rfold (chain_step env path) \<lparr>cs_by = [], cs_roots = [], cs_refs = []\<rparr> records) (\<lambda>st.
        guard (length (cs_roots st) \<noteq> 1) (SessionCorrupt (''Invalid session roots at '' @ path))
        (Inr (rev (climb env (cs_by st) (length (cs_by st)) (winner st))))))"

definition read_records :: "session_env \<Rightarrow> session_world \<Rightarrow> str \<Rightarrow> session_exn + jdict list" where
  "read_records env w path =
     (case dict_get (sw_files w) path of
        None \<Rightarrow> Inl (SessionError (''Cannot read session '' @ path))
      | Some f \<Rightarrow>
          if sf_torn f then Inl unicode_error
          else rbind (parse_lines env path 1 (splitlines (sf_text f))) (select_valid_record_chain env path))"

section \<open>Branches\<close>

definition linked :: "session_env \<Rightarrow> jdict \<Rightarrow> jdict \<Rightarrow> bool" where
  "linked env a b \<longleftrightarrow> jget b ''parent_uuid'' \<noteq> JNull \<and> str_of (se_pr env) (jget b ''parent_uuid'') = record_uuid env a"

text \<open>From the root to a record, each naming the one before it, numbered from one.\<close>

definition branch :: "session_env \<Rightarrow> jdict list \<Rightarrow> bool" where
  "branch env rs \<longleftrightarrow> rs \<noteq> [] \<and> jget (hd rs) ''parent_uuid'' = JNull \<and> successively (linked env) rs
     \<and> (\<forall>i < length rs. record_seq (rs ! i) = int i + 1)"

lemma branch_snoc:
  "branch env rs \<Longrightarrow> linked env (last rs) r \<Longrightarrow> record_seq r = int (length rs) + 1 \<Longrightarrow> branch env (rs @ [r])"
  by (auto simp: branch_def successively_append_iff nth_append less_Suc_eq)

lemma branch_seq_last: "branch env rs \<Longrightarrow> record_seq (last rs) = int (length rs)"
  by (cases rs rule: rev_cases) (auto simp: branch_def)

lemma json_eq_int_seq: "json_eq_int (jget r ''sequence'') n \<Longrightarrow> record_seq r = n"
  by (auto simp: json_eq_int_def record_seq_def jget_def dict_get_or_def int_of_def split: option.splits json.splits if_splits)

text \<open>What the loop has established of the records it kept, in their order.\<close>

inductive grown :: "session_env \<Rightarrow> (str, jdict) dict \<Rightarrow> bool" for env where
  grown_Nil: "grown env []"
| grown_root: "grown env kept \<Longrightarrow> record_uuid env r \<noteq> [] \<Longrightarrow> record_uuid env r \<notin> fst ` set kept \<Longrightarrow> jget r ''parent_uuid'' = JNull
    \<Longrightarrow> record_seq r = 1 \<Longrightarrow> grown env (kept @ [(record_uuid env r, r)])"
| grown_child: "grown env kept \<Longrightarrow> record_uuid env r \<noteq> [] \<Longrightarrow> record_uuid env r \<notin> fst ` set kept \<Longrightarrow> jget r ''parent_uuid'' \<noteq> JNull
    \<Longrightarrow> dict_get kept (str_of (se_pr env) (jget r ''parent_uuid'')) = Some parent
    \<Longrightarrow> record_seq r = record_seq parent + 1 \<Longrightarrow> grown env (kept @ [(record_uuid env r, r)])"

lemma dict_get_None_iff: "dict_get d k = None \<longleftrightarrow> k \<notin> fst ` set d"
  by (simp add: dict_get_def map_of_eq_None_iff)

lemma dict_get_append: "dict_get (d @ [(k, v)]) k' = (case dict_get d k' of Some x \<Rightarrow> Some x | None \<Rightarrow> if k' = k then Some v else None)"
  by (auto simp: dict_get_def map_add_def split: option.splits)

lemma grown_key: "grown env kept \<Longrightarrow> dict_get kept c = Some r \<Longrightarrow> record_uuid env r = c \<and> r \<in> snd ` set kept"
  by (induction arbitrary: c r rule: grown.induct) (auto simp: dict_get_append split: option.splits if_splits)

lemma grown_parent:
  "grown env kept \<Longrightarrow> dict_get kept c = Some r \<Longrightarrow> jget r ''parent_uuid'' \<noteq> JNull \<Longrightarrow>
   dict_get kept (str_of (se_pr env) (jget r ''parent_uuid'')) \<noteq> None"
proof (induction arbitrary: c rule: grown.induct)
  case (grown_root kept r')
  then have "dict_get kept c = Some r" by (auto simp: dict_get_append split: option.splits if_splits)
  from grown_root.IH[OF this grown_root.prems(2)] show ?case by (auto simp: dict_get_append split: option.splits)
next
  case (grown_child kept r' parent)
  show ?case
  proof (cases "dict_get kept c")
    case (Some x)
    then have "dict_get kept c = Some r" using grown_child.prems by (simp add: dict_get_append)
    from grown_child.IH[OF this grown_child.prems(2)] show ?thesis by (auto simp: dict_get_append split: option.splits)
  next
    case None
    then have "r = r'" using grown_child.prems by (auto simp: dict_get_append split: if_splits)
    then show ?thesis using grown_child.hyps(5) by (simp add: dict_get_append)
  qed
qed simp

lemma climb_extend:
  "grown env kept \<Longrightarrow> dict_get kept c \<noteq> None \<Longrightarrow> climb env (kept @ [(k, v)]) n c = climb env kept n c"
proof (induction n arbitrary: c)
  case (Suc n)
  obtain r where r: "dict_get kept c = Some r" using Suc.prems by auto
  have parent: "dict_get kept (str_of (se_pr env) (jget r ''parent_uuid'')) \<noteq> None" if "jget r ''parent_uuid'' \<noteq> JNull"
    using grown_parent[OF Suc.prems(1) r that] .
  show ?case using r Suc.IH[OF Suc.prems(1)] parent
    by (auto simp: dict_get_append split: json.split)
qed simp

text \<open>Climbing from a kept record gives its branch, read backwards.\<close>

lemma climb_branch:
  "grown env kept \<Longrightarrow> dict_get kept c = Some r \<Longrightarrow> length kept \<le> n \<Longrightarrow>
   branch env (rev (climb env kept n c)) \<and> hd (climb env kept n c) = r \<and> set (climb env kept n c) \<subseteq> snd ` set kept"
proof (induction arbitrary: c r n rule: grown.induct)
  case grown_Nil
  then show ?case by simp
next
  case (grown_root kept r')
  note IH = grown_root.IH and extend = climb_extend[OF grown_root.hyps(1)]
  obtain m where n: "n = Suc m" using grown_root.prems by (cases n) auto
  show ?case
  proof (cases "dict_get kept c")
    case (Some x)
    then show ?thesis using IH[OF Some, of n] extend[of c] grown_root.prems by (auto simp: dict_get_append)
  next
    case None
    then have "c = record_uuid env r'" "r = r'" using grown_root.prems by (auto simp: dict_get_append split: if_splits)
    then show ?thesis using grown_root.hyps None by (auto simp: n dict_get_append branch_def)
  qed
next
  case (grown_child kept r' parent)
  note IH = grown_child.IH and extend = climb_extend[OF grown_child.hyps(1)]
  let ?pid = "str_of (se_pr env) (jget r' ''parent_uuid'')"
  obtain m where n: "n = Suc m" "length kept \<le> m" using grown_child.prems by (cases n) auto
  show ?case
  proof (cases "dict_get kept c")
    case (Some x)
    then show ?thesis using IH[OF Some, of n] extend[of c] grown_child.prems by (auto simp: dict_get_append)
  next
    case None
    then have c: "c = record_uuid env r'" "r = r'" using grown_child.prems by (auto simp: dict_get_append split: if_splits)
    let ?up = "climb env kept m ?pid"
    have up: "branch env (rev ?up)" "hd ?up = parent" "set ?up \<subseteq> snd ` set kept"
      using IH[OF grown_child.hyps(5) n(2)] by auto
    then have last: "last (rev ?up) = parent" by (auto simp: branch_def last_rev)
    have "climb env (kept @ [(record_uuid env r', r')]) n c = r' # ?up"
      using grown_child.hyps(4,5) None c extend[of ?pid] by (auto simp: n dict_get_append split: json.split)
    moreover have "linked env parent r'"
      using grown_key[OF grown_child.hyps(1,5)] grown_child.hyps(4) by (simp add: linked_def)
    moreover have "record_seq r' = int (length (rev ?up)) + 1"
      using grown_child.hyps(6) branch_seq_last[OF up(1)] last by simp
    ultimately show ?thesis using branch_snoc[OF up(1)] last up(3) c by auto
  qed
qed

section \<open>The selection\<close>

lemma grown_wf: "grown env kept \<Longrightarrow> dict_wf kept"
  by (induction rule: grown.induct) (auto simp: dict_wf_def)

lemma grown_get: "grown env kept \<Longrightarrow> (k, r) \<in> set kept \<Longrightarrow> dict_get kept k = Some r"
  using grown_wf dict_get_Some_iff by metis

lemma grown_seq_parent:
  "grown env kept \<Longrightarrow> (k, r) \<in> set kept \<Longrightarrow> jget r ''parent_uuid'' \<noteq> JNull \<Longrightarrow>
   \<exists>p. dict_get kept (str_of (se_pr env) (jget r ''parent_uuid'')) = Some p \<and> record_seq r = record_seq p + 1"
  by (induction arbitrary: k r rule: grown.induct) (fastforce simp: dict_get_append split: option.splits)+

definition chain_inv :: "session_env \<Rightarrow> (jdict \<times> nat) list \<Rightarrow> chain_state \<Rightarrow> bool" where
  "chain_inv env seen st \<longleftrightarrow> grown env (cs_by st) \<and> map snd (cs_by st) = map fst seen
     \<and> (\<forall>u\<in>set (cs_refs st). \<exists>(k, r)\<in>set (cs_by st).
          jget r ''parent_uuid'' \<noteq> JNull \<and> str_of (se_pr env) (jget r ''parent_uuid'') = u)"

lemma chain_step_kept:
  assumes "chain_step env path st (r, n) = Inr st'"
  shows "record_uuid env r \<noteq> []" "record_uuid env r \<notin> fst ` set (cs_by st)"
    "cs_by st' = cs_by st @ [(record_uuid env r, r)]"
    "jget r ''parent_uuid'' = JNull \<and> record_seq r = 1 \<and> cs_refs st' = cs_refs st
     \<or> (\<exists>p. jget r ''parent_uuid'' \<noteq> JNull \<and> dict_get (cs_by st) (str_of (se_pr env) (jget r ''parent_uuid'')) = Some p
         \<and> record_seq r = record_seq p + 1
         \<and> cs_refs st' = add_key (str_of (se_pr env) (jget r ''parent_uuid'')) (cs_refs st))"
  using assms
  by (auto simp: chain_step_def Let_def dict_set_fresh dict_get_None_iff json_eq_int_seq split: json.splits option.splits)

lemma chain_step_inv:
  assumes "chain_inv env seen st" "chain_step env path st x = Inr st'"
  shows "chain_inv env (seen @ [x]) st'"
proof -
  obtain r n where x: "x = (r, n)" by (cases x)
  note step = chain_step_kept[OF assms(2)[unfolded x]]
  have "grown env (cs_by st')"
    using step assms(1) by (auto simp: chain_inv_def intro: grown.intros)
  then show ?thesis using step assms(1)
    by (fastforce simp: chain_inv_def x add_key_def split: if_splits)
qed

lemma foldl_better:
  "foldl (better kept) b us \<in> set (b # us) \<and>
   (\<forall>u\<in>set (b # us). record_seq (the (dict_get kept u)) \<le> record_seq (the (dict_get kept (foldl (better kept) b us))))"
proof (induction us arbitrary: b)
  case (Cons u us)
  have "record_seq (the (dict_get kept b)) \<le> record_seq (the (dict_get kept (better kept b u)))"
    "record_seq (the (dict_get kept u)) \<le> record_seq (the (dict_get kept (better kept b u)))"
    "better kept b u \<in> {b, u}" by (auto simp: better_def)
  then show ?case using Cons[of "better kept b u"] by fastforce
qed simp

text \<open>A record of the highest sequence is never a parent, so it is a terminal.\<close>

lemma highest_terminal:
  assumes "chain_inv env seen st" "cs_by st \<noteq> []"
  shows "\<exists>u\<in>set (terminals st). \<forall>(k, r)\<in>set (cs_by st). record_seq r \<le> record_seq (the (dict_get (cs_by st) u))"
proof -
  let ?S = "(\<lambda>(k, r). record_seq r) ` set (cs_by st)"
  have "Max ?S \<in> ?S" using assms(2) by (intro Max_in) auto
  then obtain k r where kr: "(k, r) \<in> set (cs_by st)" "record_seq r = Max ?S" by force
  have highest: "record_seq r' \<le> record_seq r" if "(k', r') \<in> set (cs_by st)" for k' r'
    unfolding kr(2) using that by (intro Max_ge) force+
  have grown: "grown env (cs_by st)" using assms(1) by (simp add: chain_inv_def)
  note get = grown_get[OF grown kr(1)]
  have "k \<notin> set (cs_refs st)"
  proof
    assume "k \<in> set (cs_refs st)"
    then obtain k' r' where "(k', r') \<in> set (cs_by st)" "jget r' ''parent_uuid'' \<noteq> JNull"
      "str_of (se_pr env) (jget r' ''parent_uuid'') = k"
      using assms(1) by (fastforce simp: chain_inv_def)
    then show False using grown_seq_parent[OF grown] highest get by fastforce
  qed
  then have "k \<in> set (terminals st)" using kr(1) by (force simp: terminals_def)
  then show ?thesis using highest get by (intro bexI[of _ k]) auto
qed

lemma selected_branch:
  assumes "select_valid_record_chain env path records = Inr sel" "records \<noteq> []"
  shows "branch env sel \<and> set sel \<subseteq> fst ` set records \<and> (\<forall>r\<in>fst ` set records. record_seq r \<le> int (length sel))"
proof -
  let ?init = "\<lparr>cs_by = [], cs_roots = [], cs_refs = []\<rparr>"
  from assms obtain st where run: "rfold (chain_step env path) ?init records = Inr st"
    and sel: "sel = rev (climb env (cs_by st) (length (cs_by st)) (winner st))"
    by (auto simp: select_valid_record_chain_def)
  have inv: "chain_inv env records st"
    by (rule rfold_invariant[OF run, where P = "chain_inv env"])
      (auto simp: chain_inv_def[of env "[]"] intro: grown_Nil chain_step_inv)
  then have grown: "grown env (cs_by st)" and kept: "map snd (cs_by st) = map fst records"
    by (simp_all add: chain_inv_def)
  have ne: "cs_by st \<noteq> []" using kept assms(2) by auto
  obtain u where u: "u \<in> set (terminals st)"
    "\<And>k r. (k, r) \<in> set (cs_by st) \<Longrightarrow> record_seq r \<le> record_seq (the (dict_get (cs_by st) u))"
    using highest_terminal[OF inv ne] by blast
  have w: "winner st \<in> set (terminals st)"
    "record_seq (the (dict_get (cs_by st) u)) \<le> record_seq (the (dict_get (cs_by st) (winner st)))"
    using foldl_better[of "cs_by st" "hd (terminals st)" "tl (terminals st)"] u(1)
    by (cases "terminals st"; auto simp: winner_def)+
  then have "winner st \<in> fst ` set (cs_by st)" by (auto simp: terminals_def)
  then obtain r where r: "dict_get (cs_by st) (winner st) = Some r" using dict_get_None_iff by fastforce
  have up: "branch env sel" "last sel = r" "set sel \<subseteq> snd ` set (cs_by st)"
    using climb_branch[OF grown r, of "length (cs_by st)"] by (auto simp: sel last_rev)
  have image: "snd ` set (cs_by st) = fst ` set records" using kept by (metis list.set_map)
  have "record_seq r = int (length sel)" using branch_seq_last[OF up(1)] up(2) by simp
  then have "\<forall>(k, r')\<in>set (cs_by st). record_seq r' \<le> int (length sel)" using u(2) w(2) r by fastforce
  then have "\<forall>r'\<in>snd ` set (cs_by st). record_seq r' \<le> int (length sel)" by auto
  then show ?thesis using up image by simp
qed

end
