(* ===== verification/Session_Replay.thy ===== *)
theory Session_Replay
  imports Session_Chain
begin

text \<open>
  \<open>SessionStore._build_state\<close> of \<open>forge/sessions/store.py\<close>: the conversation, task, tools, pending
  inputs and verification history of a session, replayed from its records. Evidence is the
  dictionary of its fields; the SHA-256 of a sorted dump and the ellipsis of a shortened
  title, which is no Latin-1 character, are fields of the environment.
\<close>

record replay_env = session_env +
  re_dump_sha :: "jdict \<Rightarrow> str"
  re_ellipsis :: str
  re_task_sha :: "str \<Rightarrow> str"

section \<open>Payloads and messages\<close>

text \<open>A payload is inline, or an artifact whose hash must match.\<close>

definition record_payload :: "('a session_env_scheme) \<Rightarrow> session_world \<Rightarrow> str \<Rightarrow> jdict \<Rightarrow> session_exn + jdict" where
  "record_payload env w path r =
     (case jget r ''payload'' of
        JObj p \<Rightarrow> Inr p
      | _ \<Rightarrow> (case jget r ''payload_ref'' of
          JObj reference \<Rightarrow>
            (let relative = str_of (se_pr env) (dict_get_or reference ''path'' (JStr []));
                 artifact = path_parent path @ ''/'' @ path_posix relative
             in guard (startswith relative ''/'' \<or> ''..'' \<in> set (path_parts relative)) (SessionCorrupt ''Unsafe session artifact path.'')
                (case dict_get (sw_files w) artifact of
                   None \<Rightarrow> Inl (SessionCorrupt (''Cannot read session artifact: '' @ artifact))
                 | Some f \<Rightarrow>
                     guard (sf_torn f \<or> se_sha env (sf_text f) \<noteq> str_of (se_pr env) (dict_get_or reference ''sha256'' (JStr [])))
                       (SessionCorrupt (''Session artifact hash mismatch: '' @ artifact))
                     (case se_loads env (sf_text f) of
                        None \<Rightarrow> Inl (PyError (ValueError ''JSONDecodeError''))
                      | Some (JObj p) \<Rightarrow> Inr p
                      | Some _ \<Rightarrow> Inl (SessionCorrupt (''Invalid session artifact payload: '' @ artifact)))))
        | _ \<Rightarrow> Inr []))"

definition message_from :: "jdict \<Rightarrow> session_exn + jdict" where
  "message_from payload = (case jget payload ''message'' of JObj m \<Rightarrow> Inr m
     | _ \<Rightarrow> Inl (SessionCorrupt ''Session message payload is invalid.''))"

definition block_ids :: "('a session_env_scheme) \<Rightarrow> str \<Rightarrow> str \<Rightarrow> json list \<Rightarrow> str list" where
  "block_ids env kind field blocks = List.map_filter (\<lambda>b. case b of
     JObj d \<Rightarrow> (if has_type d kind then Some (str_of (se_pr env) (jget d field)) else None) | _ \<Rightarrow> None) blocks"

definition assistant_has_tools :: "jdict \<Rightarrow> bool" where
  "assistant_has_tools m = (case jget m ''content'' of
     JList blocks \<Rightarrow> list_ex (\<lambda>b. case b of JObj d \<Rightarrow> has_type d ''tool_use'' | _ \<Rightarrow> False) blocks | _ \<Rightarrow> False)"

definition tool_pair_matches :: "('a session_env_scheme) \<Rightarrow> jdict \<Rightarrow> jdict \<Rightarrow> bool" where
  "tool_pair_matches env assistant result =
     (case (jget assistant ''content'', jget result ''content'') of
        (JList ab, JList rb) \<Rightarrow>
          (let requested = set (block_ids env ''tool_use'' ''id'' ab); completed = set (block_ids env ''tool_result'' ''tool_use_id'' rb)
           in requested \<noteq> {} \<and> requested = completed)
      | _ \<Rightarrow> False)"

definition shortened :: "replay_env \<Rightarrow> nat \<Rightarrow> str \<Rightarrow> str" where
  "shortened env n s = take n s @ (if n < length s then re_ellipsis env else [])"

definition message_title :: "replay_env \<Rightarrow> jdict \<Rightarrow> str" where
  "message_title env m =
     (if jget m ''role'' \<noteq> JStr ''user'' then []
      else (case jget m ''content'' of JStr content \<Rightarrow> shortened env 72 (py_join '' '' (split_ws content)) | _ \<Rightarrow> []))"

definition first_message_title :: "replay_env \<Rightarrow> jdict list \<Rightarrow> str" where
  "first_message_title env ms = (case find_opt (\<lambda>t. t \<noteq> []) (map (message_title env) ms) of None \<Rightarrow> [] | Some t \<Rightarrow> t)"

definition optional_string :: "('a session_env_scheme) \<Rightarrow> json \<Rightarrow> session_exn + str option" where
  "optional_string env v = (case v of
     JNull \<Rightarrow> Inr None | JStr s \<Rightarrow> Inr (if s = [] then None else Some s)
   | JList _ \<Rightarrow> Inl (PyError (TypeError ''unhashable type'')) | JObj _ \<Rightarrow> Inl (PyError (TypeError ''unhashable type''))
   | _ \<Rightarrow> Inr (Some (se_pr env v)))"

definition object_list :: "json \<Rightarrow> jdict list option" where
  "object_list v = (case v of
     JList vs \<Rightarrow> (if list_all (\<lambda>x. json_obj_opt x \<noteq> None) vs then Some (List.map_filter json_obj_opt vs) else None) | _ \<Rightarrow> None)"

definition lift_py :: "py_exn + 'a \<Rightarrow> session_exn + 'a" where
  "lift_py r = map_sum PyError id r"

definition payload_need :: "jdict \<Rightarrow> str \<Rightarrow> session_exn + json" where
  "payload_need d k = lift_py (need d k)"

section \<open>Evidence\<close>

text \<open>The fields of \<open>VerificationEvidence\<close> with their defaults; the first six have none.\<close>

definition evidence_fields :: "(str \<times> json option) list" where
  "evidence_fields =
     [(''command'', None), (''cwd'', None), (''exit_code'', None), (''duration_seconds'', None), (''timed_out'', None),
      (''workspace_revision'', None), (''diagnostic'', Some (JStr [])), (''environment_epoch'', Some (JInt 0)),
      (''coverage'', Some (JList [])), (''limitations'', Some (JList [])), (''stdin_sha256'', Some (JStr [])),
      (''evidence_valid'', Some (JBool True)), (''evidence_issues'', Some (JList [])), (''check_signature'', Some (JStr [])),
      (''requirement_ids'', Some (JList [])), (''asserted_requirement_ids'', Some (JList [])),
      (''verification_id'', Some (JStr [])), (''output_checks'', Some (JList [])), (''supersedes'', Some (JList [])),
      (''revision_reason'', Some (JStr [])), (''task_id'', Some (JStr [])), (''turn_id'', Some (JStr [])),
      (''freshness'', Some (JStr ''current'')), (''check_id'', Some (JStr [])), (''check_spec'', Some (JObj []))]"

definition tuple_fields :: "str list" where
  "tuple_fields = [''coverage'', ''limitations'', ''evidence_issues'', ''requirement_ids'', ''asserted_requirement_ids'',
     ''output_checks'', ''supersedes'']"

definition evidence_field :: "jdict \<Rightarrow> str \<times> json option \<Rightarrow> py_exn + str \<times> json" where
  "evidence_field d f = (case f of (name, fallback) \<Rightarrow>
     if name = ''freshness'' then Inr (name, JStr ''unknown'')
     else (case dict_get d name of
         Some v \<Rightarrow> (if name \<in> set tuple_fields
           then (case iter_of v of None \<Rightarrow> Inl (TypeError ''object is not iterable'') | Some vs \<Rightarrow> Inr (name, JList vs))
           else Inr (name, v))
       | None \<Rightarrow> (case fallback of None \<Rightarrow> Inl (TypeError ''missing required argument'') | Some v \<Rightarrow> Inr (name, v))))"

definition evidence_from_value :: "jdict \<Rightarrow> py_exn + jdict" where
  "evidence_from_value d = rmap (evidence_field d) evidence_fields"

section \<open>Tasks\<close>

definition sanitize_task_workspace_paths :: "active_task option \<Rightarrow> active_task option" where
  "sanitize_task_workspace_paths t = (case t of
     None \<Rightarrow> None
   | Some t \<Rightarrow> if at_scope_hints t = [] then Some t
       else Some (t\<lparr>at_workspace_paths := filter (\<lambda>p. \<not> startswith p ''@tool:''
         \<and> list_ex (task_path_matches p) (at_scope_hints t)) (at_workspace_paths t)\<rparr>))"

definition migrate_replayed_task_scope :: "active_task option \<Rightarrow> active_task option \<Rightarrow> active_task option" where
  "migrate_replayed_task_scope current previous =
     (case (current, previous) of
        (Some c, Some p) \<Rightarrow>
          (let same = at_id c = at_id p; inherit = at_scope_hints c = [] \<and> at_scope_hints p \<noteq> [] \<and> same in
           Some (c\<lparr>at_scope_hints := (if inherit then at_scope_hints p else at_scope_hints c),
             at_scope_source := (if inherit then at_scope_source p else at_scope_source c),
             at_workspace_paths := (if same \<and> at_workspace_paths c = [] \<and> at_workspace_paths p \<noteq> []
               then at_workspace_paths p else at_workspace_paths c)\<rparr>))
      | _ \<Rightarrow> current)"

definition task_from_payload :: "replay_env \<Rightarrow> jdict \<Rightarrow> session_exn + active_task option" where
  "task_from_payload env payload = (case jget payload ''task'' of
     JObj d \<Rightarrow> rbind (lift_py (task_from_dict (re_task_sha env) (se_pr env) d)) (\<lambda>t. Inr (Some t)) | _ \<Rightarrow> Inr None)"

section \<open>Replay\<close>

type_synonym tool_key = "str \<times> str"

record replay =
  rs_messages :: "jdict list"
  rs_assistant :: "jdict option"
  rs_task :: "active_task option"
  rs_started :: "(tool_key, jdict) dict"
  rs_completed :: "tool_key list"
  rs_name :: "str option"
  rs_prompt :: str
  rs_status :: str
  rs_indeterminate :: "(tool_key, jdict) dict"
  rs_turn :: str
  rs_verification :: "(str, jdict) dict"
  rs_inputs :: "(json, jdict) dict"
  rs_selection :: "(json \<times> json) option"

text \<open>Queued inputs.\<close>

definition hashable :: "json \<Rightarrow> session_exn + json" where
  "hashable v = (case v of JList _ \<Rightarrow> Inl (PyError (TypeError ''unhashable type''))
     | JObj _ \<Rightarrow> Inl (PyError (TypeError ''unhashable type'')) | _ \<Rightarrow> Inr v)"

definition defer_input :: "(json, jdict) dict \<Rightarrow> json \<Rightarrow> (json, jdict) dict" where
  "defer_input inputs i = (case dict_get inputs i of None \<Rightarrow> inputs
     | Some item \<Rightarrow> dict_set inputs i (dict_set item ''mode'' (JStr ''follow_up'')))"

definition replay_inputs :: "str \<Rightarrow> jdict \<Rightarrow> replay \<Rightarrow> session_exn + replay" where
  "replay_inputs kind payload s =
     (if kind = ''input_queued'' then
        rbind (payload_need payload ''id'') (\<lambda>i. rbind (hashable i) (\<lambda>i. Inr (s\<lparr>rs_inputs := dict_set (rs_inputs s) i payload\<rparr>)))
      else if kind = ''input_discarded'' then
        rbind (payload_need payload ''id'') (\<lambda>i. rbind (hashable i) (\<lambda>i. Inr (s\<lparr>rs_inputs := dict_pop (rs_inputs s) i\<rparr>)))
      else if kind = ''input_deferred'' then
        rbind (payload_need payload ''ids'') (\<lambda>ids. case iter_of ids of
            None \<Rightarrow> Inl (PyError (TypeError ''object is not iterable''))
          | Some vs \<Rightarrow> rbind (rmap hashable vs) (\<lambda>vs. Inr (s\<lparr>rs_inputs := foldl defer_input (rs_inputs s) vs\<rparr>)))
      else if kind = ''user_message'' \<and> json_truthy (jget payload ''input_id'') then
        rbind (hashable (jget payload ''input_id'')) (\<lambda>i. Inr (s\<lparr>rs_inputs := dict_pop (rs_inputs s) i\<rparr>))
      else Inr s)"

text \<open>Observed evidence, under the task and turn it belongs to.\<close>

definition observations :: "str \<Rightarrow> jdict \<Rightarrow> session_exn + json list" where
  "observations kind payload =
     (if kind = ''verification_recorded'' then Inr [jget payload ''evidence'']
      else if kind = ''turn_completed'' then
        (let history = jget payload ''verification_history'' in
         if json_truthy history
         then (case iter_of history of None \<Rightarrow> Inl (PyError (TypeError ''object is not iterable'')) | Some vs \<Rightarrow> Inr vs)
         else Inr [jget payload ''verification''])
      else Inr [])"

definition observed :: "replay_env \<Rightarrow> str \<Rightarrow> active_task option \<Rightarrow> str \<Rightarrow> jdict \<Rightarrow> session_exn + str \<times> jdict" where
  "observed env path task turn d =
     (case evidence_from_value d of
        Inl _ \<Rightarrow> Inl (SessionCorrupt (''Invalid verification evidence in '' @ path))
      | Inr ev \<Rightarrow>
          (let ev = dict_set ev ''task_id'' (first_truthy (jget ev ''task_id'') (JStr (case task of None \<Rightarrow> [] | Some t \<Rightarrow> at_id t)));
               ev = dict_set ev ''turn_id'' (first_truthy (jget ev ''turn_id'') (JStr turn));
               identity = first_truthy (jget ev ''verification_id'') (JStr (turn @ '':'' @ re_dump_sha env d))
           in Inr (str_of (se_pr env) (jget ev ''task_id'') @ '':'' @ str_of (se_pr env) identity, ev)))"

definition replay_observation :: "replay_env \<Rightarrow> str \<Rightarrow> replay \<Rightarrow> json \<Rightarrow> session_exn + replay" where
  "replay_observation env path s v = (case v of
     JObj d \<Rightarrow> rbind (observed env path (rs_task s) (rs_turn s) d) (\<lambda>(k, ev).
       Inr (s\<lparr>rs_verification := dict_set (rs_verification s) k ev\<rparr>))
   | _ \<Rightarrow> Inr s)"

text \<open>Messages: an assistant message with tool calls waits for the results that answer it.\<close>

definition add_user :: "replay_env \<Rightarrow> jdict \<Rightarrow> replay \<Rightarrow> replay" where
  "add_user env m s = s\<lparr>rs_messages := rs_messages s @ [m],
     rs_prompt := (if rs_prompt s = [] then message_title env m else rs_prompt s)\<rparr>"

definition add_assistant :: "jdict \<Rightarrow> replay \<Rightarrow> replay" where
  "add_assistant m s = (if assistant_has_tools m then s\<lparr>rs_assistant := Some m\<rparr> else s\<lparr>rs_messages := rs_messages s @ [m]\<rparr>)"

definition add_results :: "replay_env \<Rightarrow> jdict \<Rightarrow> replay \<Rightarrow> replay" where
  "add_results env m s =
     (let messages = (case rs_assistant s of
          Some a \<Rightarrow> if tool_pair_matches env a m then rs_messages s @ [a, m] else rs_messages s
        | None \<Rightarrow> rs_messages s)
      in s\<lparr>rs_messages := messages, rs_assistant := None\<rparr>)"

definition replace_messages :: "replay_env \<Rightarrow> json \<Rightarrow> replay \<Rightarrow> replay" where
  "replace_messages env v s = (case object_list v of
     None \<Rightarrow> s
   | Some ms \<Rightarrow> s\<lparr>rs_messages := ms, rs_prompt := (if rs_prompt s = [] then first_message_title env ms else rs_prompt s),
       rs_assistant := None\<rparr>)"

definition keyed_payload :: "tool_key \<Rightarrow> jdict \<Rightarrow> jdict" where
  "keyed_payload key payload = (if fst key \<noteq> [] then dict_set payload ''turn_id'' (JStr (fst key)) else payload)"

definition completed_paths :: "replay_env \<Rightarrow> jdict \<Rightarrow> active_task option \<Rightarrow> active_task option" where
  "completed_paths env payload task = (case (task, jget payload ''changed_paths'') of
     (Some t, JList changed) \<Rightarrow> sanitize_task_workspace_paths
       (Some (t\<lparr>at_workspace_paths := fromkeys (at_workspace_paths t @ map (str_of (se_pr env)) changed)\<rparr>))
   | _ \<Rightarrow> task)"

definition message_event :: "replay_env \<Rightarrow> str \<Rightarrow> jdict \<Rightarrow> replay \<Rightarrow> session_exn + replay" where
  "message_event env kind payload s =
     (if kind = ''user_message'' then rbind (message_from payload) (\<lambda>m. Inr (add_user env m s))
      else if kind = ''assistant_message'' then rbind (message_from payload) (\<lambda>m. Inr (add_assistant m s))
      else if kind = ''tool_result_message'' then rbind (message_from payload) (\<lambda>m. Inr (add_results env m s))
      else if kind = ''model_selected'' then
        rbind (payload_need payload ''alias'') (\<lambda>a. rbind (payload_need payload ''selection'') (\<lambda>sel.
          Inr (replace_messages env (jget payload ''messages'') (s\<lparr>rs_selection := Some (a, sel)\<rparr>))))
      else Inr (replace_messages env (jget payload ''messages'') s))"

definition lifecycle_event :: "replay_env \<Rightarrow> str \<Rightarrow> jdict \<Rightarrow> replay \<Rightarrow> session_exn + replay" where
  "lifecycle_event env kind payload s =
     (let tool_id = str_of (se_pr env) (dict_get_or payload ''tool_call_id'' (JStr []));
          key = (str_of (se_pr env) (first_truthy (jget payload ''turn_id'') (JStr (rs_turn s))), tool_id)
      in if kind = ''task_state'' then
        rbind (task_from_payload env payload) (\<lambda>t.
          Inr (s\<lparr>rs_task := sanitize_task_workspace_paths (migrate_replayed_task_scope t (rs_task s))\<rparr>))
      else if kind = ''tool_started'' then
        Inr (if tool_id = [] then s else s\<lparr>rs_started := dict_set (rs_started s) key (keyed_payload key payload)\<rparr>)
      else if kind = ''tool_completed'' then
        (let s = s\<lparr>rs_completed := add_key key (rs_completed s)\<rparr> in
         Inr (if jget payload ''status'' = JStr ''indeterminate'' \<and> tool_id \<noteq> []
           then s\<lparr>rs_indeterminate := dict_set (rs_indeterminate s) key (keyed_payload key payload)\<rparr> else s))
      else if kind = ''session_renamed'' then
        rbind (optional_string env (jget payload ''name'')) (\<lambda>n. Inr (s\<lparr>rs_name := n\<rparr>))
      else if kind = ''turn_completed'' then
        Inr (s\<lparr>rs_status := str_of (se_pr env) (dict_get_or payload ''status'' (JStr ''completed'')),
          rs_task := completed_paths env payload (rs_task s)\<rparr>)
      else if kind = ''session_stopped'' then Inr (s\<lparr>rs_status := ''stopped''\<rparr>)
      else if kind = ''session_resumed'' then Inr (s\<lparr>rs_status := ''active''\<rparr>)
      else Inr s)"

definition rewound_event :: "replay_env \<Rightarrow> jdict \<Rightarrow> replay \<Rightarrow> session_exn + replay" where
  "rewound_event env payload s =
     rbind (task_from_payload env payload) (\<lambda>t.
       Inr ((replace_messages env (jget payload ''messages'') (s\<lparr>rs_verification := []\<rparr>))\<lparr>rs_task := t\<rparr>))"

definition message_kinds :: "str list" where
  "message_kinds = [''user_message'', ''assistant_message'', ''tool_result_message'', ''context_compacted'',
     ''message_checkpoint'', ''model_selected'']"

definition replay_event :: "replay_env \<Rightarrow> str \<Rightarrow> jdict \<Rightarrow> replay \<Rightarrow> session_exn + replay" where
  "replay_event env kind payload s =
     (if kind \<in> set message_kinds then message_event env kind payload s
      else if kind = ''conversation_rewound'' then rewound_event env payload s
      else lifecycle_event env kind payload s)"

definition start_turn :: "replay_env \<Rightarrow> str \<Rightarrow> jdict \<Rightarrow> replay \<Rightarrow> replay" where
  "start_turn env kind r s =
     (if kind = ''turn_started''
      then s\<lparr>rs_turn := str_of (se_pr env) (first_truthy (jget r ''turn_id'') (dict_get_or r ''uuid'' (JStr []))), rs_status := ''active''\<rparr>
      else s)"

text \<open>One record. A type that is no string equals none of the event types.\<close>

definition replay_record :: "replay_env \<Rightarrow> session_world \<Rightarrow> str \<Rightarrow> replay \<Rightarrow> jdict \<Rightarrow> session_exn + replay" where
  "replay_record env w path s r =
     rbind (record_payload env w path r) (\<lambda>payload.
     rbind (payload_need r ''type'') (\<lambda>kind0.
       let kind = (case kind0 of JStr k \<Rightarrow> k | _ \<Rightarrow> []) in
     rbind (replay_inputs kind payload s) (\<lambda>s.
     rbind (observations kind payload) (\<lambda>vs.
     rbind (rfold (replay_observation env path) s vs) (\<lambda>s.
       replay_event env kind payload (start_turn env kind r s))))))"

definition empty_replay :: "str option \<Rightarrow> replay" where
  "empty_replay name = \<lparr>rs_messages = [], rs_assistant = None, rs_task = None, rs_started = [], rs_completed = [],
     rs_name = name, rs_prompt = [], rs_status = ''active'', rs_indeterminate = [], rs_turn = [], rs_verification = [],
     rs_inputs = [], rs_selection = None\<rparr>"

section \<open>The state of a session\<close>

record session_info =
  si_id :: str
  si_root :: str
  si_path :: str
  si_created :: str
  si_updated :: str
  si_model :: str
  si_name :: "str option"
  si_title :: str
  si_status :: str
  si_sequence :: int
  si_message_count :: nat
  si_provider :: str

record session_state =
  ss_info :: session_info
  ss_messages :: "jdict list"
  ss_task :: "active_task option"
  ss_indeterminate :: "jdict list"
  ss_verification :: "jdict list"
  ss_inputs :: "jdict list"
  ss_selection :: "(json \<times> json) option"

text \<open>Tools that started and did not complete, and those whose completion was recorded as unknown.\<close>

definition item_key :: "replay_env \<Rightarrow> jdict \<Rightarrow> tool_key" where
  "item_key env item = (str_of (se_pr env) (dict_get_or item ''turn_id'' (JStr [])),
     str_of (se_pr env) (dict_get_or item ''tool_call_id'' (JStr [])))"

definition unresolved_item :: "jdict \<Rightarrow> jdict" where
  "unresolved_item p = dict_set (dict_set p ''status'' (JStr ''indeterminate'')) ''resolution_required'' (JBool True)"

definition add_indeterminate :: "replay_env \<Rightarrow> jdict list \<Rightarrow> tool_key \<times> jdict \<Rightarrow> jdict list" where
  "add_indeterminate env items kp = (case kp of (key, p) \<Rightarrow>
     if key \<in> item_key env ` set items then items else items @ [dict_set p ''resolution_required'' (JBool True)])"

definition indeterminate_tools :: "replay_env \<Rightarrow> replay \<Rightarrow> jdict list" where
  "indeterminate_tools env s =
     foldl (add_indeterminate env)
       (map (\<lambda>kp. unresolved_item (snd kp)) (filter (\<lambda>kp. fst kp \<notin> set (rs_completed s)) (rs_started s)))
       (rs_indeterminate s)"

text \<open>\<open>model_selection['selection'][k]\<close>\<close>

definition selected_field :: "replay_env \<Rightarrow> replay \<Rightarrow> jdict \<Rightarrow> str \<Rightarrow> session_exn + str" where
  "selected_field env s first k =
     (case rs_selection s of
        None \<Rightarrow> Inr (str_of (se_pr env) (dict_get_or first k (JStr [])))
      | Some (_, JObj d) \<Rightarrow> rbind (payload_need d k) (\<lambda>v. Inr (str_of (se_pr env) v))
      | Some _ \<Rightarrow> Inl (PyError (TypeError ''indices must be integers'')))"

definition need_str :: "replay_env \<Rightarrow> jdict \<Rightarrow> str \<Rightarrow> session_exn + str" where
  "need_str env r k = rbind (payload_need r k) (\<lambda>v. Inr (str_of (se_pr env) v))"

definition need_int :: "jdict \<Rightarrow> str \<Rightarrow> session_exn + int" where
  "need_int r k = rbind (payload_need r k) (\<lambda>v. case int_of v of
     None \<Rightarrow> Inl (PyError (ValueError ''invalid literal for int()'')) | Some n \<Rightarrow> Inr n)"

definition session_info_of :: "replay_env \<Rightarrow> str \<Rightarrow> str \<Rightarrow> jdict \<Rightarrow> jdict \<Rightarrow> jdict \<Rightarrow> replay \<Rightarrow> session_exn + session_info" where
  "session_info_of env base path first first_payload lst s =
     rbind (need_str env first ''session_id'') (\<lambda>ident.
     rbind (need_str env first ''timestamp'') (\<lambda>created.
     rbind (need_str env lst ''timestamp'') (\<lambda>updated.
     rbind (selected_field env s first_payload ''model'') (\<lambda>model.
     rbind (need_int lst ''sequence'') (\<lambda>sequence.
     rbind (selected_field env s first_payload ''provider'') (\<lambda>provider.
       Inr \<lparr>si_id = ident, si_root = base, si_path = path, si_created = created, si_updated = updated, si_model = model,
            si_name = rs_name s,
            si_title = (case rs_name s of Some n \<Rightarrow> n | None \<Rightarrow> if rs_prompt s \<noteq> [] then rs_prompt s else ident),
            si_status = rs_status s, si_sequence = sequence, si_message_count = length (rs_messages s),
            si_provider = provider\<rparr>))))))"

definition build_state :: "replay_env \<Rightarrow> session_world \<Rightarrow> str \<Rightarrow> str \<Rightarrow> session_exn + session_state" where
  "build_state env w base path =
     rbind (read_records (session_env.truncate env) w path) (\<lambda>records.
     case records of
       [] \<Rightarrow> Inl (SessionCorrupt (''Empty session file: '' @ path))
     | first # rest \<Rightarrow>
         guard (jget first ''type'' \<noteq> JStr ''session_started'') (SessionCorrupt (''Session does not start with session_started: '' @ path))
         (rbind (record_payload env w path first) (\<lambda>first_payload.
          let expected = se_resolve env (str_of (se_pr env) (dict_get_or first_payload ''cwd'' (JStr []))) in
          guard (expected \<noteq> base) (SessionError (''The session belongs to a different project directory: '' @ expected))
          (rbind (optional_string env (jget first_payload ''name'')) (\<lambda>name.
           rbind (rfold (replay_record env w path) (empty_replay name) rest) (\<lambda>s.
           rbind (session_info_of env base path first first_payload (last records) s) (\<lambda>info.
           Inr \<lparr>ss_info = info, ss_messages = rs_messages s, ss_task = rs_task s,
                ss_indeterminate = indeterminate_tools env s, ss_verification = dict_values (rs_verification s),
                ss_inputs = dict_values (rs_inputs s), ss_selection = rs_selection s\<rparr>)))))))"

end
