(* ===== verification/Session_Store.thy ===== *)
theory Session_Store
  imports Session_Replay
begin

text \<open>
  \<open>SessionStore\<close> of \<open>forge/sessions/store.py\<close>: creating, forking, opening, listing and showing the
  sessions of a project. A directory exists when a file lies in it; \<open>glob\<close> gives the files in the
  order of the world. Operations that may write the index or a journal return the world they leave.
\<close>

record session_store =
  st_root :: str
  st_key :: str
  st_dir :: str
  st_index :: str

type_synonym 'a store_step = "(session_exn + 'a) \<times> session_world"

section \<open>Names and places\<close>

definition slug_char :: "char \<Rightarrow> bool" where
  "slug_char c \<longleftrightarrow> py_isalpha_ascii c \<or> py_isdigit c \<or> c \<in> {CHR ''.'', CHR ''_'', CHR ''-''}"

text \<open>\<open>re.sub(r'[^a-zA-Z0-9._-]+', '-', s)\<close>\<close>

fun slug_subst :: "bool \<Rightarrow> str \<Rightarrow> str" where
  "slug_subst inside [] = []"
| "slug_subst inside (c # s) =
     (if slug_char c then c # slug_subst False s else (if inside then [] else ''-'') @ slug_subst True s)"

definition project_storage_key :: "('a session_env_scheme) \<Rightarrow> str \<Rightarrow> str" where
  "project_storage_key env base =
     (let dash = [CHR ''-'']; slug = lstrip_chars dash (rstrip_chars dash (slug_subst False (path_name base)));
          slug = (if slug = [] then ''project'' else slug)
      in take 48 slug @ ''-'' @ take 16 (se_sha env (se_resolve env base)))"

definition new_store :: "('a session_env_scheme) \<Rightarrow> str \<Rightarrow> str \<Rightarrow> session_store" where
  "new_store env data_root base =
     (let base = se_resolve env base; key = project_storage_key env base; project = data_root @ ''/projects/'' @ key in
      \<lparr>st_root = base, st_key = key, st_dir = project @ ''/sessions'', st_index = project @ ''/index.json''\<rparr>)"

definition session_path :: "session_store \<Rightarrow> str \<Rightarrow> str" where
  "session_path st ident = st_dir st @ ''/'' @ ident @ ''.jsonl''"

definition is_session_id :: "str \<Rightarrow> bool" where
  "is_session_id s \<longleftrightarrow> startswith s ''session-'' \<and> length s = 32
     \<and> list_all (\<lambda>c. py_isdigit c \<or> c \<in> set ''abcdef'') (drop 8 s)"

text \<open>\<open>directory.glob('session-*.jsonl')\<close>\<close>

definition session_files :: "session_store \<Rightarrow> session_world \<Rightarrow> str list" where
  "session_files st w = filter (\<lambda>p. path_parent p = st_dir st
     \<and> (let n = path_name p in startswith n ''session-'' \<and> endswith n ''.jsonl'' \<and> 14 \<le> length n)) (map fst (sw_files w))"

definition session_stem :: "str \<Rightarrow> str" where
  "session_stem p = (let n = path_name p in take (length n - 6) n)"

section \<open>The index\<close>

text \<open>\<open>json.dumps(v, ensure_ascii=False, indent=2)\<close>; \<open>n\<close> is the indentation of the line.\<close>

definition break_indent :: "nat \<Rightarrow> str" where
  "break_indent n = NL # replicate n (CHR '' '')"

fun json_indent :: "(pyfloat \<Rightarrow> str) \<Rightarrow> nat \<Rightarrow> json \<Rightarrow> str" where
  "json_indent frepr n (JList []) = ''[]''"
| "json_indent frepr n (JObj []) = ''{}''"
| "json_indent frepr n (JList (v # vs)) =
     ''['' @ break_indent (n + 2) @ py_join ('','' @ break_indent (n + 2)) (map (json_indent frepr (n + 2)) (v # vs))
     @ break_indent n @ '']''"
| "json_indent frepr n (JObj (kv # kvs)) =
     ''{'' @ break_indent (n + 2) @ py_join ('','' @ break_indent (n + 2))
        (map (\<lambda>kv. json_quote (fst kv) @ '': '' @ json_indent frepr (n + 2) (snd kv)) (kv # kvs))
     @ break_indent n @ ''}''"
| "json_indent frepr n v = json_compact frepr v"

definition index_entry :: "session_world \<Rightarrow> session_info \<Rightarrow> session_exn + json" where
  "index_entry w i = (case dict_get (sw_files w) (si_path i) of
     None \<Rightarrow> Inl (PyError (OSError ''FileNotFoundError''))
   | Some f \<Rightarrow> Inr (JObj
       [(''session_id'', JStr (si_id i)), (''created_at'', JStr (si_created i)), (''updated_at'', JStr (si_updated i)),
        (''model'', JStr (si_model i)), (''name'', json_opt_str (si_name i)), (''title'', JStr (si_title i)),
        (''status'', JStr (si_status i)), (''sequence'', JInt (si_sequence i)),
        (''message_count'', JInt (int (si_message_count i))), (''mtime_ns'', JInt (sf_mtime f)),
        (''size_bytes'', JInt (int (utf8_len (sf_text f))))]))"

definition index_payload :: "session_store \<Rightarrow> json list \<Rightarrow> json" where
  "index_payload st entries = JObj
     [(''schema_version'', JInt SCHEMA_VERSION), (''project_root'', JStr (st_root st)), (''sessions'', JList entries)]"

definition write_index :: "('a session_env_scheme) \<Rightarrow> session_store \<Rightarrow> session_world \<Rightarrow> session_info list \<Rightarrow> unit store_step" where
  "write_index env st w sessions =
     (case rmap (index_entry w) sessions of
        Inl e \<Rightarrow> (Inl e, w)
      | Inr entries \<Rightarrow>
          (case put_file w (st_index st) (json_indent (se_frepr env) 0 (index_payload st entries) @ [NL]) of
             Inl e \<Rightarrow> (Inl e, w) | Inr w' \<Rightarrow> (Inr (), w')))"

text \<open>An entry of the index, if it still describes its file. Every exception means there is no index.\<close>

definition read_entry :: "('a session_env_scheme) \<Rightarrow> session_store \<Rightarrow> session_world \<Rightarrow> json \<Rightarrow> session_info option" where
  "read_entry env st w v = (case v of
     JObj e \<Rightarrow>
       (case dict_get e ''session_id'' of
          None \<Rightarrow> None
        | Some ident \<Rightarrow>
            (let path = session_path st (str_of (se_pr env) ident) in
             case dict_get (sw_files w) path of
               None \<Rightarrow> None
             | Some f \<Rightarrow>
                 if \<not> json_eq_int (jget e ''mtime_ns'') (sf_mtime f) \<or> \<not> json_eq_int (jget e ''size_bytes'') (int (utf8_len (sf_text f)))
                 then None
                 else (case (dict_get e ''created_at'', dict_get e ''updated_at'', optional_string env (jget e ''name''),
                     Option.bind (dict_get e ''sequence'') int_of, Option.bind (dict_get e ''message_count'') int_of) of
                   (Some created, Some updated, Inr name, Some sequence, Some n) \<Rightarrow>
                     Some \<lparr>si_id = str_of (se_pr env) ident, si_root = st_root st, si_path = path,
                       si_created = str_of (se_pr env) created, si_updated = str_of (se_pr env) updated,
                       si_model = str_of (se_pr env) (dict_get_or e ''model'' (JStr [])), si_name = name,
                       si_title = str_of (se_pr env) (first_truthy (jget e ''title'') ident),
                       si_status = str_of (se_pr env) (dict_get_or e ''status'' (JStr ''active'')),
                       si_sequence = sequence, si_message_count = nat n, si_provider = []\<rparr>
                 | _ \<Rightarrow> None)))
   | _ \<Rightarrow> None)"

fun all_some :: "'a option list \<Rightarrow> 'a list option" where
  "all_some [] = Some []"
| "all_some (None # xs) = None"
| "all_some (Some x # xs) = map_option ((#) x) (all_some xs)"

definition entry_id :: "json \<Rightarrow> json option" where
  "entry_id v = (case v of JObj e \<Rightarrow> Some (jget e ''session_id'') | _ \<Rightarrow> None)"

definition read_index :: "('a session_env_scheme) \<Rightarrow> session_store \<Rightarrow> session_world \<Rightarrow> session_info list option" where
  "read_index env st w =
     (case dict_get (sw_files w) (st_index st) of
        None \<Rightarrow> None
      | Some f \<Rightarrow> if sf_torn f then None else (case se_loads env (sf_text f) of
          Some (JObj payload) \<Rightarrow>
            (case jget payload ''sessions'' of
               JList entries \<Rightarrow>
                 if set (map (\<lambda>p. JStr (session_stem p)) (session_files st w)) \<noteq> set (List.map_filter entry_id entries) then None
                 else all_some (map (read_entry env st w) entries)
             | _ \<Rightarrow> None)
        | _ \<Rightarrow> None))"

section \<open>Listing and loading\<close>

text \<open>\<open>sort(key=updated_at, reverse=True)\<close> is stable.\<close>

definition newest_first :: "session_info list \<Rightarrow> session_info list" where
  "newest_first sessions = rev (sort_key si_updated (rev sessions))"

fun readable_sessions :: "replay_env \<Rightarrow> session_store \<Rightarrow> session_world \<Rightarrow> str list \<Rightarrow> session_exn + session_info list" where
  "readable_sessions env st w [] = Inr []"
| "readable_sessions env st w (p # ps) =
     (case build_state env w (st_root st) p of
        Inl (PyError e) \<Rightarrow> Inl (PyError e)
      | Inl _ \<Rightarrow> readable_sessions env st w ps
      | Inr s \<Rightarrow> rbind (readable_sessions env st w ps) (\<lambda>infos. Inr (ss_info s # infos)))"

definition directory_exists :: "session_store \<Rightarrow> session_world \<Rightarrow> bool" where
  "directory_exists st w \<longleftrightarrow> list_ex (\<lambda>p. path_parent p = st_dir st) (map fst (sw_files w))"

definition list_sessions :: "replay_env \<Rightarrow> session_store \<Rightarrow> session_world \<Rightarrow> session_info list store_step" where
  "list_sessions env st w =
     (if \<not> directory_exists st w then (Inr [], w)
      else (case read_index env st w of
          Some cached \<Rightarrow> (Inr cached, w)
        | None \<Rightarrow>
            (case readable_sessions env st w (session_files st w) of
               Inl e \<Rightarrow> (Inl e, w)
             | Inr infos \<Rightarrow>
                 (let sessions = newest_first infos in
                  case write_index env st w sessions of (Inl e, w') \<Rightarrow> (Inl e, w') | (Inr _, w') \<Rightarrow> (Inr sessions, w')))))"

definition load_session :: "replay_env \<Rightarrow> session_store \<Rightarrow> session_world \<Rightarrow> str \<Rightarrow> session_state store_step" where
  "load_session env st w identifier =
     (let ident = py_strip identifier in
      if ident = [] then (Inl (SessionNotFound ''Session identifier must not be empty.''), w)
      else if dict_get (sw_files w) (session_path st ident) \<noteq> None \<and> is_session_id ident
      then (build_state env w (st_root st) (session_path st ident), w)
      else (case list_sessions env st w of
          (Inl e, w') \<Rightarrow> (Inl e, w')
        | (Inr infos, w') \<Rightarrow>
            (case filter (\<lambda>i. si_name i = Some ident) infos of
               [] \<Rightarrow> (Inl (SessionNotFound (''Session not found in this project: '' @ ident)), w')
             | [i] \<Rightarrow> (build_state env w' (st_root st) (si_path i), w')
             | _ \<Rightarrow> (Inl (SessionError (''Multiple sessions are named '' @ py_repr ident @ ''; resume one by session ID.'')), w'))))"

fun first_conversation :: "replay_env \<Rightarrow> session_store \<Rightarrow> session_info list \<Rightarrow> session_world \<Rightarrow> session_state store_step" where
  "first_conversation env st [] w = (Inl (SessionNotFound (''No saved ForgeCode conversation for '' @ st_root st)), w)"
| "first_conversation env st (i # is) w =
     (case load_session env st w (si_id i) of
        (Inl e, w') \<Rightarrow> (Inl e, w')
      | (Inr s, w') \<Rightarrow> if ss_messages s \<noteq> [] \<or> ss_task s \<noteq> None then (Inr s, w') else first_conversation env st is w')"

definition latest_session :: "replay_env \<Rightarrow> session_store \<Rightarrow> session_world \<Rightarrow> session_state store_step" where
  "latest_session env st w = (case list_sessions env st w of
     (Inl e, w') \<Rightarrow> (Inl e, w') | (Inr infos, w') \<Rightarrow> first_conversation env st infos w')"

section \<open>Creating, forking, opening\<close>

text \<open>A step of a journal with the world, as \<open>jseq\<close> composes them.\<close>

definition create_session ::
  "('a session_env_scheme) \<Rightarrow> session_store \<Rightarrow> str \<Rightarrow> str option \<Rightarrow> str \<Rightarrow> bool \<Rightarrow> session_world \<Rightarrow> session_journal store_step" where
  "create_session env st model name provider deferred w =
     (let w = (if deferred then w else w\<lparr>sw_files := dict_pop (sw_files w) (st_index st)\<rparr>);
          ident = ''session-'' @ take 24 (uuid_hex w);
          w = w\<lparr>sw_tick := sw_tick w + 1\<rparr>;
          plain = session_env.truncate env
      in case rbind (new_journal plain w (session_path st ident) ident (st_root st) 0 None deferred) (\<lambda>j.
            map_sum id (Pair j) (clean_session_name name)) of
           Inl e \<Rightarrow> (Inl e, w)
         | Inr (j, cleaned) \<Rightarrow>
             (case journal_append plain ''session_started''
                 [(''cwd'', JStr (st_root st)), (''model'', JStr model), (''provider'', JStr provider),
                  (''name'', json_opt_str cleaned), (''project_key'', JStr (st_key st))] j w of
                (Inl e, _, w') \<Rightarrow> (Inl e, w')
              | (Inr _, j', w') \<Rightarrow> (Inr j', w')))"

definition forked_evidence :: "str \<Rightarrow> jdict \<Rightarrow> jdict" where
  "forked_evidence source_id ev =
     [(''evidence'', JObj (dict_set ev ''freshness'' (JStr ''unknown''))), (''source_session_id'', JStr source_id)]"

definition selection_payload :: "jdict list \<Rightarrow> json \<times> json \<Rightarrow> jdict" where
  "selection_payload messages sel = [(''alias'', fst sel), (''selection'', snd sel), (''messages'', messages_json messages)]"

definition fork_events ::
  "('a session_env_scheme) \<Rightarrow> session_state \<Rightarrow> jdict list \<Rightarrow> active_task option \<Rightarrow> str \<Rightarrow> str option \<Rightarrow> bool \<Rightarrow>
   session_journal \<Rightarrow> session_world \<Rightarrow> unit journal_step" where
  "fork_events env source messages task model provider keep =
     (let plain = session_env.truncate env; info = ss_info source in
      jseq (journal_append plain ''session_forked''
        [(''source_session_id'', JStr (si_id info)), (''source_sequence'', JInt (si_sequence info))]) (\<lambda>_.
      jseq (journal_append plain ''message_checkpoint'' [(''messages'', messages_json messages)]) (\<lambda>_.
      jseq (append_all plain ''model_selected''
        (case ss_selection source of
           Some sel \<Rightarrow> (if keep \<and> model = si_model info \<and> (provider = None \<or> provider = Some (si_provider info))
             then [selection_payload messages sel] else [])
         | None \<Rightarrow> [])) (\<lambda>_.
      jseq (record_task_state plain task) (\<lambda>_.
      append_all plain ''verification_recorded'' (map (forked_evidence (si_id info)) (ss_verification source)))))))"

definition fork_session ::
  "('a session_env_scheme) \<Rightarrow> session_store \<Rightarrow> session_state \<Rightarrow> jdict list \<Rightarrow> active_task option \<Rightarrow> str \<Rightarrow> str option \<Rightarrow>
   str option \<Rightarrow> bool \<Rightarrow> session_world \<Rightarrow> session_journal store_step" where
  "fork_session env st source messages task model name provider keep w =
     (case create_session env st model name
         (case provider of Some p \<Rightarrow> if p \<noteq> [] then p else si_provider (ss_info source) | None \<Rightarrow> si_provider (ss_info source)) False w of
        (Inl e, w') \<Rightarrow> (Inl e, w')
      | (Inr j, w') \<Rightarrow>
          (case fork_events env source messages task model provider keep j w' of
             (Inl e, _, w'') \<Rightarrow> (Inl e, w'') | (Inr _, j', w'') \<Rightarrow> (Inr j', w'')))"

definition open_session ::
  "replay_env \<Rightarrow> session_store \<Rightarrow> str option \<Rightarrow> session_world \<Rightarrow> (session_state \<times> session_journal) store_step" where
  "open_session env st identifier w =
     (case (case identifier of None \<Rightarrow> latest_session env st w | Some i \<Rightarrow> load_session env st w i) of
        (Inl e, w') \<Rightarrow> (Inl e, w')
      | (Inr s, w') \<Rightarrow>
          (let plain = session_env.truncate env; path = si_path (ss_info s) in
           (rbind (read_records plain w' path) (\<lambda>records.
            rbind (need_int (last records) ''sequence'') (\<lambda>n.
            rbind (need_str env (last records) ''uuid'') (\<lambda>u.
            rbind (new_journal plain w' path (si_id (ss_info s)) (st_root st) (nat n) (Some u) False) (\<lambda>j. Inr (s, j))))), w')))"

section \<open>Checkpoints and history\<close>

definition is_checkpoint :: "replay_env \<Rightarrow> session_world \<Rightarrow> str \<Rightarrow> str \<Rightarrow> jdict \<Rightarrow> session_exn + jdict option" where
  "is_checkpoint env w path checkpoint_id r =
     (if jget r ''type'' \<noteq> JStr ''checkpoint_created'' then Inr None
      else rbind (record_payload env w path r) (\<lambda>p.
        Inr (if jget p ''checkpoint_id'' = JStr checkpoint_id then Some p else None)))"

fun find_checkpoint :: "replay_env \<Rightarrow> session_world \<Rightarrow> str \<Rightarrow> str \<Rightarrow> jdict list \<Rightarrow> session_exn + jdict" where
  "find_checkpoint env w path checkpoint_id [] = Inl (SessionNotFound (''Conversation checkpoint not found: '' @ checkpoint_id))"
| "find_checkpoint env w path checkpoint_id (r # rs) =
     rbind (is_checkpoint env w path checkpoint_id r) (\<lambda>found.
       case found of Some p \<Rightarrow> Inr p | None \<Rightarrow> find_checkpoint env w path checkpoint_id rs)"

definition checkpoint_state ::
  "replay_env \<Rightarrow> session_store \<Rightarrow> str \<Rightarrow> str \<Rightarrow> session_world \<Rightarrow> (jdict list \<times> active_task option) store_step" where
  "checkpoint_state env st session_id checkpoint_id w =
     (case load_session env st w session_id of
        (Inl e, w') \<Rightarrow> (Inl e, w')
      | (Inr s, w') \<Rightarrow>
          (let path = si_path (ss_info s) in
           (rbind (read_records (session_env.truncate env) w' path) (\<lambda>records.
            rbind (find_checkpoint env w' path checkpoint_id (rev records)) (\<lambda>p.
            case object_list (jget p ''messages'') of
              None \<Rightarrow> Inl (SessionCorrupt (''Invalid checkpoint conversation: '' @ checkpoint_id))
            | Some ms \<Rightarrow> rbind (task_from_payload env p) (\<lambda>t. Inr (ms, t)))), w')))"

definition text_of_value :: "('a session_env_scheme) \<Rightarrow> jdict \<Rightarrow> str \<Rightarrow> str \<Rightarrow> str" where
  "text_of_value env d k fallback = str_of (se_pr env) (dict_get_or d k (JStr fallback))"

definition one_line :: "replay_env \<Rightarrow> nat \<Rightarrow> str \<Rightarrow> str" where
  "one_line env n s = shortened env n (py_strip (replace_char NL (CHR '' '') s))"

definition completed_summary :: "replay_env \<Rightarrow> jdict \<Rightarrow> str" where
  "completed_summary env p = py_join ''; ''
     ([''status='' @ text_of_value env p ''status'' ''unknown'']
      @ (case jget p ''changed_paths'' of
           JList (c # cs) \<Rightarrow> [''changed='' @ py_join '','' (map (str_of (se_pr env)) (c # cs))] | _ \<Rightarrow> [])
      @ (case jget p ''verification'' of
           JObj v \<Rightarrow> [''verify='' @ text_of_value env v ''command'' [] @ '' exit='' @ text_of_value env v ''exit_code'' ''?''] | _ \<Rightarrow> []))"

definition event_summary :: "replay_env \<Rightarrow> str \<Rightarrow> jdict \<Rightarrow> str" where
  "event_summary env kind p =
     (if kind = ''user_message'' then
        one_line env 120 (case jget p ''message'' of JObj m \<Rightarrow> str_of (se_pr env) (jget m ''content'') | _ \<Rightarrow> [])
      else if kind = ''task_state'' then
        (case jget p ''task'' of
           JObj t \<Rightarrow> text_of_value env t ''id'' ''task'' @ '' ['' @ text_of_value env t ''status'' ''unknown'' @ '']: ''
             @ text_of_value env t ''goal'' []
         | _ \<Rightarrow> ''no active task'')
      else if kind = ''turn_completed'' then completed_summary env p
      else if kind = ''checkpoint_created'' \<or> kind = ''conversation_rewound'' then text_of_value env p ''checkpoint_id'' []
      else if kind = ''context_compacted'' \<or> kind = ''message_checkpoint'' then
        nat_str (case jget p ''messages'' of JList ms \<Rightarrow> length ms | _ \<Rightarrow> 0) @ '' effective message(s)''
      else if kind = ''tool_started'' then
        text_of_value env p ''name'' ''tool'' @ '' ('' @ text_of_value env p ''tool_call_id'' [] @ '')''
      else if kind = ''tool_completed'' then
        text_of_value env p ''name'' ''tool'' @ '' success='' @ str_of (se_pr env) (dict_get_or p ''success'' (JBool False))
      else if kind = ''session_forked'' then ''source='' @ text_of_value env p ''source_session_id'' []
      else if kind = ''session_renamed'' then text_of_value env p ''name'' []
      else [])"

definition history_entry :: "replay_env \<Rightarrow> session_world \<Rightarrow> str \<Rightarrow> jdict \<Rightarrow> session_exn + jdict" where
  "history_entry env w path r =
     rbind (record_payload env w path r) (\<lambda>p. rbind (need_int r ''sequence'') (\<lambda>n. rbind (need_str env r ''timestamp'') (\<lambda>ts.
     rbind (need_str env r ''type'') (\<lambda>kind.
       Inr [(''sequence'', JInt n), (''timestamp'', JStr ts), (''type'', JStr kind), (''summary'', JStr (event_summary env kind p))]))))"

definition session_history :: "replay_env \<Rightarrow> session_store \<Rightarrow> str \<Rightarrow> session_world \<Rightarrow> jdict list store_step" where
  "session_history env st identifier w =
     (case load_session env st w identifier of
        (Inl e, w') \<Rightarrow> (Inl e, w')
      | (Inr s, w') \<Rightarrow> (let path = si_path (ss_info s) in
          (rbind (read_records (session_env.truncate env) w' path) (rmap (history_entry env w' path)), w')))"

section \<open>The transcript\<close>

text \<open>
  The visible history follows the sessions a branch was forked from. The recursion ends because
  the sessions already visited grow, and an ancestor met again is a \<open>SessionCorruptError\<close>; the index,
  which only caches, is the one the first look-up leaves.
\<close>

record transcript_state =
  tp_messages :: "json list"
  tp_notices :: "str list"
  tp_checkpoints :: "(json, nat) dict"
  tp_prompt :: bool
  tp_boundary :: nat

definition transcript_kinds :: "str list" where
  "transcript_kinds = [''session_forked'', ''turn_started'', ''user_message'', ''assistant_message'', ''tool_result_message'',
     ''message_checkpoint'', ''checkpoint_created'', ''conversation_rewound'']"

definition saved_messages :: "jdict \<Rightarrow> session_exn + json list" where
  "saved_messages p = (let v = jget p ''messages'' in
     if \<not> json_truthy v then Inr []
     else (case iter_of v of None \<Rightarrow> Inl (PyError (TypeError ''object is not iterable'')) | Some vs \<Rightarrow> Inr vs))"

definition add_notice :: "str \<Rightarrow> transcript_state \<Rightarrow> transcript_state" where
  "add_notice n t = t\<lparr>tp_notices := tp_notices t @ [n]\<rparr>"

text \<open>The parent's transcript, when the fork names its place in it.\<close>

definition fork_step ::
  "(str \<Rightarrow> int \<Rightarrow> session_exn + json list \<times> str list) \<Rightarrow> jdict \<Rightarrow> transcript_state \<Rightarrow> session_exn + transcript_state" where
  "fork_step parent p t =
     (case jget p ''source_sequence'' of
        JNull \<Rightarrow> Inr (add_notice ''Older branch has no historical boundary; showing its saved context.'' t)
      | JInt n \<Rightarrow> rbind (payload_need p ''source_session_id'') (\<lambda>v. case v of
            JStr ident \<Rightarrow>
              (case parent ident n of
                 Inl (PyError e) \<Rightarrow> Inl (PyError e)
               | Inl _ \<Rightarrow> Inr (add_notice ''Parent session history is unavailable; showing saved branch context.'' t)
               | Inr (ms, ns) \<Rightarrow> Inr (t\<lparr>tp_messages := ms, tp_notices := tp_notices t @ ns\<rparr>))
          | _ \<Rightarrow> Inl (PyError (AttributeError ''strip'')))
      | _ \<Rightarrow> Inl (PyError (TypeError ''source_sequence'')))"

definition message_step :: "str \<Rightarrow> jdict \<Rightarrow> transcript_state \<Rightarrow> session_exn + transcript_state" where
  "message_step kind p t =
     rbind (message_from p) (\<lambda>m.
       Inr (if kind = ''user_message'' \<and> tp_prompt t \<and> tp_messages t \<noteq> [] \<and> last (tp_messages t) = JObj m
            then t\<lparr>tp_prompt := False\<rparr>
            else t\<lparr>tp_messages := tp_messages t @ [JObj m], tp_prompt := False\<rparr>))"

definition rewind_step :: "jdict \<Rightarrow> transcript_state \<Rightarrow> session_exn + transcript_state" where
  "rewind_step p t =
     rbind (hashable (dict_get_or p ''checkpoint_id'' (JStr []))) (\<lambda>c.
     case dict_get (tp_checkpoints t) c of
        Some boundary \<Rightarrow> Inr (t\<lparr>tp_messages := take boundary (tp_messages t), tp_prompt := False\<rparr>)
      | None \<Rightarrow> rbind (saved_messages p) (\<lambda>ms.
          Inr (add_notice ''Rewind history boundary unavailable; showing saved context.''
            (t\<lparr>tp_messages := ms, tp_prompt := False\<rparr>))))"

definition transcript_event ::
  "(str \<Rightarrow> int \<Rightarrow> session_exn + json list \<times> str list) \<Rightarrow> str \<Rightarrow> jdict \<Rightarrow> transcript_state \<Rightarrow> session_exn + transcript_state" where
  "transcript_event parent kind p t =
     (if kind = ''session_forked'' then fork_step parent p t
      else if kind = ''turn_started'' then
        Inr (t\<lparr>tp_boundary := length (tp_messages t),
          tp_messages := tp_messages t @ [JObj [(''role'', JStr ''user''), (''content'', dict_get_or p ''prompt'' (JStr []))]],
          tp_prompt := True\<rparr>)
      else if kind = ''user_message'' \<or> kind = ''assistant_message'' \<or> kind = ''tool_result_message'' then message_step kind p t
      else if kind = ''message_checkpoint'' then
        (if tp_messages t = [] then rbind (saved_messages p) (\<lambda>ms. Inr (t\<lparr>tp_messages := ms\<rparr>)) else Inr t)
      else if kind = ''checkpoint_created'' then
        rbind (payload_need p ''checkpoint_id'') (\<lambda>c. rbind (hashable c) (\<lambda>c.
          Inr (t\<lparr>tp_checkpoints := dict_set (tp_checkpoints t) c (tp_boundary t)\<rparr>)))
      else if kind = ''conversation_rewound'' then rewind_step p t
      else Inr t)"

text \<open>The records up to the boundary.\<close>

definition up_to :: "int option \<Rightarrow> jdict \<Rightarrow> bool" where
  "up_to through r \<longleftrightarrow> (case through of None \<Rightarrow> True | Some n \<Rightarrow> record_seq r \<le> n)"

definition transcript_record ::
  "replay_env \<Rightarrow> session_world \<Rightarrow> str \<Rightarrow> (str \<Rightarrow> int \<Rightarrow> session_exn + json list \<times> str list) \<Rightarrow>
   transcript_state \<Rightarrow> jdict \<Rightarrow> session_exn + transcript_state" where
  "transcript_record env w path parent t r =
     rbind (payload_need r ''type'') (\<lambda>kind. case kind of
         JStr k \<Rightarrow> (if k \<in> set transcript_kinds
           then rbind (record_payload env w path r) (\<lambda>p. transcript_event parent k p t) else Inr t)
       | _ \<Rightarrow> Inr t)"

text \<open>The session ids a world can show: those its files start with.\<close>

definition world_ids :: "replay_env \<Rightarrow> session_world \<Rightarrow> str set" where
  "world_ids env w = (\<lambda>p. case read_records (session_env.truncate env) w p of
     Inr (r # _) \<Rightarrow> str_of (se_pr env) (jget r ''session_id'') | _ \<Rightarrow> []) ` fst ` set (sw_files w)"

lemma finite_world_ids: "finite (world_ids env w)"
  by (simp add: world_ids_def)

lemma session_info_id:
  "session_info_of env base path first p lst replayed = Inr info \<Longrightarrow>
   si_id info = str_of (se_pr env) (jget first ''session_id'')"
  by (auto simp: session_info_of_def need_str_def payload_need_def lift_py_def need_def jget_def dict_get_or_def map_sum_def
      split: option.splits sum.splits)

lemma build_state_id:
  assumes "build_state env w base path = Inr s"
  shows "si_id (ss_info s) \<in> world_ids env w"
proof -
  from assms obtain records where read: "read_records (session_env.truncate env) w path = Inr records"
    by (auto simp: build_state_def)
  with assms obtain first rest where records: "records = first # rest"
    by (cases records) (auto simp: build_state_def)
  obtain p last replayed where "session_info_of env base path first p last replayed = Inr (ss_info s)"
    using assms read records by (auto simp: build_state_def Let_def)
  then have "si_id (ss_info s) = str_of (se_pr env) (jget first ''session_id'')"
    by (rule session_info_id)
  moreover have "path \<in> fst ` set (sw_files w)"
    using read dict_get_None_iff[of "sw_files w" path]
    by (cases "dict_get (sw_files w) path") (simp_all add: read_records_def)
  ultimately show ?thesis using read records by (force simp: world_ids_def image_iff)
qed

definition shown_ids :: "replay_env \<Rightarrow> session_store \<Rightarrow> session_world \<Rightarrow> str set" where
  "shown_ids env st w = world_ids env w \<union> world_ids env (snd (list_sessions env st w))"

lemma load_session_id:
  assumes "fst (load_session env st w ident) = Inr s"
  shows "si_id (ss_info s) \<in> shown_ids env st w"
  using assms build_state_id
  by (auto simp: load_session_def shown_ids_def Let_def split: prod.splits sum.splits list.splits if_splits)

function transcript ::
  "replay_env \<Rightarrow> session_store \<Rightarrow> session_world \<Rightarrow> str list \<Rightarrow> int option \<Rightarrow> str \<Rightarrow> session_exn + json list \<times> str list" where
  "transcript env st w ancestors through identifier =
     (case fst (load_session env st w identifier) of
        Inl e \<Rightarrow> Inl e
      | Inr s \<Rightarrow>
          if si_id (ss_info s) \<in> set ancestors then Inl (SessionCorrupt ''Session ancestry contains a cycle.'')
          else rbind (read_records (session_env.truncate env) w (si_path (ss_info s))) (\<lambda>records.
            rbind (rfold (transcript_record env w (si_path (ss_info s))
                (\<lambda>ident n. transcript env st w (si_id (ss_info s) # ancestors) (Some n) ident))
              \<lparr>tp_messages = [], tp_notices = [], tp_checkpoints = [], tp_prompt = False, tp_boundary = 0\<rparr>
              (takeWhile (up_to through) records)) (\<lambda>t. Inr (tp_messages t, fromkeys (tp_notices t)))))"
  by pat_completeness auto
termination
proof (relation "measure (\<lambda>(env, st, w, ancestors, _). card (shown_ids env st w - set ancestors))", goal_cases)
  case (2 env st w ancestors through i s)
  then have "si_id (ss_info s) \<in> shown_ids env st w - set ancestors" using load_session_id by simp
  then show ?case unfolding in_measure prod.case
    by (intro psubset_card_mono) (auto simp: shown_ids_def finite_world_ids)
qed simp

declare transcript.simps [simp del]

end
