(* ===== verification/Session_Ledger.thy ===== *)
theory Session_Ledger
  imports Session_Chain
begin

text \<open>
  Writing and reading a session fit together: a journal in step with its file appends to the end,
  stays in step, and everything appended is read back in order. What the code relies on is that
  \<open>json.loads\<close> inverts \<open>json.dumps\<close> on the records, that \<open>uuid4\<close> is fresh, and (tacitly) that no
  text holds U+0085, which \<open>json.dumps\<close> leaves as it is and \<open>str.splitlines\<close> takes for a line end.
\<close>

section \<open>The text of a record is one line\<close>

fun json_strings :: "json \<Rightarrow> str list" where
  "json_strings (JStr s) = [s]"
| "json_strings (JList vs) = concat (map json_strings vs)"
| "json_strings (JObj kvs) = concat (map (\<lambda>kv. fst kv # json_strings (snd kv)) kvs)"
| "json_strings _ = []"

definition clean_json :: "json \<Rightarrow> bool" where
  "clean_json v \<longleftrightarrow> (\<forall>s\<in>set (json_strings v). CHR 0x85 \<notin> set s)"

text \<open>Everything but the control characters and U+0085.\<close>

definition wide :: "char \<Rightarrow> bool" where
  "wide c \<longleftrightarrow> 32 \<le> (of_char c :: nat) \<and> of_char c \<noteq> (133 :: nat)"

lemma wide_no_linebreak: "wide c \<Longrightarrow> \<not> is_linebreak c"
  by (auto simp: wide_def is_linebreak_def)

abbreviation all_wide :: "str \<Rightarrow> bool" where
  "all_wide s \<equiv> list_all wide s"

lemma wide_no_break: "all_wide s \<Longrightarrow> no_break s"
  by (auto simp: no_break_def list_all_iff wide_no_linebreak)

lemma wide_chars [simp]:
  "wide DQ" "wide BSL" "wide (CHR 0x6E)" "wide (CHR 0x72)" "wide (CHR 0x74)" "wide (CHR 0x62)" "wide (CHR 0x66)"
  "wide (CHR 0x75)" "wide (CHR 0x30)" "wide (CHR '','')" "wide (CHR '':'')" "wide (CHR ''['')" "wide (CHR '']'')"
  "wide (CHR 0x7B)" "wide (CHR 0x7D)" "wide (CHR 0x2D)" "wide (CHR ''u'')" "wide (CHR ''l'')" "wide (CHR ''e'')"
  "wide (CHR ''a'')" "wide (CHR ''s'')"
  by (simp_all add: wide_def)

lemma wide_hex: "n < 16 \<Longrightarrow> wide (hex_digit n)"
  by (auto simp: wide_def hex_digit_def)

lemma all_wide_if: "(b \<Longrightarrow> all_wide x) \<Longrightarrow> (\<not> b \<Longrightarrow> all_wide y) \<Longrightarrow> all_wide (if b then x else y)"
  by simp

lemma wide_json_escape: "c \<noteq> CHR 0x85 \<Longrightarrow> all_wide (json_escape c)"
proof -
  assume c: "c \<noteq> CHR 0x85"
  have "(of_char c :: nat) \<noteq> of_char (CHR 0x85)" using c by (simp only: of_char_eq_iff) simp
  then have other: "\<not> c < CHR 0x20 \<Longrightarrow> wide c" by (simp add: wide_def less_char_def)
  have "(of_char c :: nat) < 256" by simp
  then have hex: "wide (hex_digit (of_char c div 16))" "wide (hex_digit (of_char c mod 16))"
    by (auto intro!: wide_hex less_mult_imp_div_less)
  show ?thesis unfolding json_escape_def
    by (intro all_wide_if) (simp_all only: list.pred_inject wide_chars hex other simp_thms)
qed

lemma wide_json_quote: "CHR 0x85 \<notin> set s \<Longrightarrow> all_wide (json_quote s)"
proof -
  assume s: "CHR 0x85 \<notin> set s"
  have "all_wide (json_escape c)" if "c \<in> set s" for c
    using s that by (intro wide_json_escape) (rule notI, simp only:)
  then show ?thesis by (simp add: json_quote_def list_all_iff)
qed

lemma wide_nat_str: "all_wide (nat_str n)"
proof -
  have "wide c" if "py_isdigit c" for c
    using that by (auto simp: py_isdigit_def wide_def less_eq_char_def)
  then show ?thesis using nat_str_digits[of n] by (auto simp: list_all_iff)
qed

lemma wide_py_join: "all_wide sep \<Longrightarrow> (\<And>x. x \<in> set xs \<Longrightarrow> all_wide x) \<Longrightarrow> all_wide (py_join sep xs)"
  by (induction xs rule: induct_list012) auto

lemma json_compact_wide:
  assumes "\<And>q. all_wide (frepr q)"
  shows "clean_json v \<Longrightarrow> all_wide (json_compact frepr v)"
proof (induction v)
  case (JInt i)
  then show ?case using wide_nat_str by (simp add: int_str_def)
next
  case (JList vs)
  then have "all_wide (py_join '','' (map (json_compact frepr) vs))"
    by (intro wide_py_join) (auto simp: clean_json_def)
  then show ?case by simp
next
  case (JObj kvs)
  have "all_wide (py_join '','' (map (\<lambda>kv. json_quote (fst kv) @ '':'' @ json_compact frepr (snd kv)) kvs))"
  proof (rule wide_py_join)
    fix x
    assume "x \<in> set (map (\<lambda>kv. json_quote (fst kv) @ '':'' @ json_compact frepr (snd kv)) kvs)"
    then obtain kv where kv: "kv \<in> set kvs" "x = json_quote (fst kv) @ '':'' @ json_compact frepr (snd kv)" by auto
    have clean: "clean_json (snd kv)" "CHR 0x85 \<notin> set (fst kv)" using JObj.prems kv(1) by (auto simp: clean_json_def)
    then have "all_wide (json_compact frepr (snd kv))" using JObj.IH[OF kv(1), of "snd kv"] by (cases kv) auto
    then show "all_wide x" using wide_json_quote[OF clean(2)] kv(2) by simp
  qed simp
  then show ?case by simp
qed (auto simp: clean_json_def wide_json_quote assms)

section \<open>Ledgers\<close>

text \<open>The records a journal has written, in order, and the line each takes in the file.\<close>

definition record_line :: "session_env \<Rightarrow> jdict \<Rightarrow> str" where
  "record_line env r = json_compact (se_frepr env) (JObj r)"

definition ledger_text :: "session_env \<Rightarrow> jdict list \<Rightarrow> str" where
  "ledger_text env rs = concat (map (\<lambda>r. record_line env r @ [NL]) rs)"

definition readable :: "session_env \<Rightarrow> jdict \<Rightarrow> bool" where
  "readable env r \<longleftrightarrow> se_loads env (record_line env r) = Some (JObj r) \<and> clean_json (JObj r)"

definition next_record :: "session_env \<Rightarrow> jdict list \<Rightarrow> jdict \<Rightarrow> bool" where
  "next_record env rs r \<longleftrightarrow>
     (\<exists>u. jget r ''uuid'' = JStr u \<and> u \<noteq> [] \<and> py_strip u = u \<and> u \<notin> record_uuid env ` set rs)
     \<and> jget r ''sequence'' = JInt (int (length rs) + 1)
     \<and> jget r ''parent_uuid'' = json_opt_str (if rs = [] then None else Some (record_uuid env (last rs)))
     \<and> readable env r"

inductive ledger :: "session_env \<Rightarrow> jdict list \<Rightarrow> bool" for env where
  ledger_Nil: "ledger env []"
| ledger_snoc: "ledger env rs \<Longrightarrow> next_record env rs r \<Longrightarrow> ledger env (rs @ [r])"

inductive_cases ledger_snocE: "ledger env (rs @ [r])"

lemma next_record_uuid: "next_record env rs r \<Longrightarrow> jget r ''uuid'' = JStr (record_uuid env r) \<and> record_uuid env r \<noteq> []
    \<and> record_uuid env r \<notin> record_uuid env ` set rs"
  by (auto simp: next_record_def record_uuid_def jget_def dict_get_or_def str_of_def split: option.splits)

lemma ledger_readable: "ledger env rs \<Longrightarrow> r \<in> set rs \<Longrightarrow> readable env r"
  by (induction rule: ledger.induct) (auto simp: next_record_def)

lemma ledger_seq_last: "ledger env rs \<Longrightarrow> rs \<noteq> [] \<Longrightarrow> record_seq (last rs) = int (length rs)"
  by (induction rule: ledger.induct) (auto simp: next_record_def json_eq_int_def intro!: json_eq_int_seq)

lemma ledger_seq: "ledger env rs \<Longrightarrow> i < length rs \<Longrightarrow> record_seq (rs ! i) = int i + 1"
  by (induction rule: ledger.induct)
    (auto simp: next_record_def nth_append less_Suc_eq json_eq_int_def intro!: json_eq_int_seq)

text \<open>The loop over a ledger keeps every record, and has one root.\<close>

lemma ledger_chain:
  "ledger env rs \<Longrightarrow> map fst records = rs \<Longrightarrow>
   \<exists>st. rfold (chain_step env path) \<lparr>cs_by = [], cs_roots = [], cs_refs = []\<rparr> records = Inr st
     \<and> cs_by st = map (\<lambda>r. (record_uuid env r, r)) rs
     \<and> cs_roots st = (if rs = [] then [] else [record_uuid env (hd rs)])"
proof (induction arbitrary: records rule: ledger.induct)
  case ledger_Nil
  then show ?case by simp
next
  case (ledger_snoc rs r)
  obtain rec0 n where records: "records = rec0 @ [(r, n)]" "map fst rec0 = rs"
    using ledger_snoc.prems by (cases records rule: rev_cases) auto
  obtain st where st: "rfold (chain_step env path) \<lparr>cs_by = [], cs_roots = [], cs_refs = []\<rparr> rec0 = Inr st"
    "cs_by st = map (\<lambda>r. (record_uuid env r, r)) rs" "cs_roots st = (if rs = [] then [] else [record_uuid env (hd rs)])"
    using ledger_snoc.IH[OF records(2)] by blast
  have new: "record_uuid env r \<noteq> []" "record_uuid env r \<notin> fst ` set (cs_by st)"
    using next_record_uuid[OF ledger_snoc.hyps(2)] st(2) by auto
  have seq: "json_eq_int (jget r ''sequence'') (int (length rs) + 1)"
    using ledger_snoc.hyps(2) by (simp add: next_record_def json_eq_int_def)
  have "\<exists>st'. chain_step env path st (r, n) = Inr st' \<and> cs_by st' = cs_by st @ [(record_uuid env r, r)]
    \<and> cs_roots st' = (if rs = [] then [record_uuid env r] else cs_roots st)"
  proof (cases "rs = []")
    case True
    then show ?thesis using st new seq ledger_snoc.hyps(2)
      by (simp add: chain_step_def Let_def dict_get_None_iff dict_set_fresh next_record_def json_opt_str_def)
  next
    case False
    have parent: "dict_get (cs_by st) (record_uuid env (last rs)) = Some (last rs)"
    proof -
      have "distinct (map (record_uuid env) rs)"
        using ledger_snoc.hyps(1) by (induction rule: ledger.induct) (auto dest: next_record_uuid)
      then have "dict_wf (cs_by st)" by (simp add: st(2) dict_wf_def comp_def)
      then show ?thesis using False by (auto simp: dict_get_Some_iff st(2))
    qed
    have "record_seq (last rs) = int (length rs)" using ledger_seq_last[OF ledger_snoc.hyps(1)] False by simp
    then show ?thesis using False new seq parent ledger_snoc.hyps(2)
      by (simp add: chain_step_def Let_def dict_get_None_iff dict_set_fresh next_record_def json_opt_str_def str_of_def)
  qed
  then show ?case using st by (auto simp: records(1) rfold_snoc simp del: rbind_Inr_iff)
qed

lemma ledger_selected:
  assumes "ledger env rs" "map fst records = rs"
  shows "select_valid_record_chain env path records = Inr rs"
proof (cases "records = []")
  case True
  then show ?thesis using assms(2) by (simp add: select_valid_record_chain_def)
next
  case False
  obtain st where "rfold (chain_step env path) \<lparr>cs_by = [], cs_roots = [], cs_refs = []\<rparr> records = Inr st"
    "length (cs_roots st) = 1"
    using ledger_chain[OF assms, of path] False assms(2) by fastforce
  then obtain sel where sel: "select_valid_record_chain env path records = Inr sel"
    using False by (simp add: select_valid_record_chain_def del: rbind_Inr_iff)
  have image: "fst ` set records = set rs" using assms(2) by (metis list.set_map)
  note b = selected_branch[OF sel False, unfolded image]
  have in_rs: "sel ! i \<in> set rs" "record_seq (sel ! i) = int i + 1" if "i < length sel" for i
    using b that nth_mem[OF that] by (auto simp: branch_def)
  have at: "r = rs ! i" if "r \<in> set rs" "record_seq r = int i + 1" for r i
  proof -
    obtain k where "k < length rs" "r = rs ! k" using \<open>r \<in> set rs\<close> by (auto simp: in_set_conv_nth)
    then show ?thesis using ledger_seq[OF assms(1), of k] that(2) by simp
  qed
  have rs: "rs \<noteq> []" using False assms(2) by auto
  then have "int (length rs) \<le> int (length sel)"
    using b ledger_seq_last[OF assms(1) rs] last_in_set[OF rs] by metis
  moreover have "length sel \<le> length rs"
  proof -
    have "sel \<noteq> []" using b by (auto simp: branch_def)
    then have "last sel \<in> set rs" "record_seq (last sel) = int (length sel)"
      using b branch_seq_last last_in_set by blast+
    then obtain k where "k < length rs" "record_seq (rs ! k) = int (length sel)" by (auto simp: in_set_conv_nth)
    then show ?thesis using ledger_seq[OF assms(1), of k] by simp
  qed
  ultimately have len: "length sel = length rs" by simp
  have "sel ! i = rs ! i" if "i < length sel" for i by (rule at[OF in_rs(1)[OF that] in_rs(2)[OF that]])
  then have "sel = rs" by (rule nth_equalityI[OF len])
  then show ?thesis using sel by simp
qed

section \<open>Reading the file\<close>

lemma record_line_shape: "\<exists>m. record_line env r = CHR 0x7B # m @ [CHR 0x7D]"
  by (simp add: record_line_def)

lemma record_line_no_break:
  assumes "\<And>q. all_wide (se_frepr env q)" "readable env r"
  shows "no_break (record_line env r)"
  unfolding record_line_def
  by (rule wide_no_break, rule json_compact_wide[OF assms(1)]) (use assms(2) in \<open>simp add: readable_def\<close>)

lemma record_line_visible: "py_strip (record_line env r) \<noteq> []"
proof -
  obtain m where m: "record_line env r = CHR 0x7B # m @ [CHR 0x7D]" using record_line_shape by blast
  show ?thesis unfolding m by (simp add: py_strip_def py_lstrip_def py_rstrip_def py_isspace_def)
qed

text \<open>Floats are written without line ends, which holds of every \<open>repr\<close> of a float.\<close>

definition plain_floats :: "session_env \<Rightarrow> bool" where
  "plain_floats env \<longleftrightarrow> (\<forall>q. all_wide (se_frepr env q))"

lemma splitlines_ledger:
  assumes "plain_floats env"
  shows "\<forall>r\<in>set rs. readable env r \<Longrightarrow> splitlines (ledger_text env rs) = map (record_line env) rs"
proof (induction rs)
  case Nil
  show ?case by (simp add: ledger_text_def splitlines_def)
next
  case (Cons r rs)
  have "no_break (record_line env r)"
    using assms Cons.prems by (auto simp: plain_floats_def intro: record_line_no_break)
  then show ?case using Cons by (simp add: ledger_text_def splitlines_line)
qed

lemma parse_ledger:
  "\<forall>r\<in>set rs. readable env r \<Longrightarrow> \<exists>records. parse_lines env path n (map (record_line env) rs) = Inr records \<and> map fst records = rs"
proof (induction rs arbitrary: n)
  case (Cons r rs)
  obtain records where "parse_lines env path (n + 1) (map (record_line env) rs) = Inr records" "map fst records = rs"
    using Cons by force
  then show ?case using Cons.prems record_line_visible[of env r] by (simp add: readable_def)
qed simp

lemma read_ledger:
  assumes "plain_floats env" "ledger env rs" "dict_get (sw_files w) path = Some f" "\<not> sf_torn f" "sf_text f = ledger_text env rs"
  shows "read_records env w path = Inr rs"
proof -
  have readable: "\<forall>r\<in>set rs. readable env r" using ledger_readable[OF assms(2)] by blast
  obtain records where "parse_lines env path 1 (map (record_line env) rs) = Inr records" "map fst records = rs"
    using parse_ledger[OF readable] by blast
  then show ?thesis
    using assms(3-5) ledger_selected[OF assms(2)] splitlines_ledger[OF assms(1) readable]
    by (simp add: read_records_def del: rbind_Inr_iff)
qed

lemma last_line_ledger:
  assumes "plain_floats env" "\<forall>r\<in>set (rs @ [r]). readable env r"
  shows "last_line (ledger_text env (rs @ [r])) = record_line env r"
proof -
  obtain m where m: "record_line env r = CHR 0x7B # m @ [CHR 0x7D]" using record_line_shape by blast
  have "no_break (record_line env r)"
    using assms by (auto simp: plain_floats_def intro: record_line_no_break)
  then have no_nl: "NL \<notin> set (record_line env r)" by (auto simp: no_break_def)
  let ?x = "ledger_text env rs"
  have "rstrip_chars [CHR '' '', TAB, CR, NL] (?x @ record_line env r @ [NL]) = ?x @ record_line env r"
    by (simp add: rstrip_chars_def m)
  moreover have "takeWhile (\<lambda>c. c \<noteq> NL) (rev (?x @ record_line env r)) = rev (record_line env r)"
    using no_nl by (cases rs rule: rev_cases) (auto simp: ledger_text_def takeWhile_append)
  ultimately show ?thesis by (simp add: last_line_def ledger_text_def)
qed

section \<open>A journal in step with its file\<close>

definition in_step :: "session_env \<Rightarrow> session_journal \<Rightarrow> session_world \<Rightarrow> jdict list \<Rightarrow> bool" where
  "in_step env j w rs \<longleftrightarrow> ledger env rs \<and> sj_sequence j = length rs \<and> endswith (sj_path j) ''.jsonl''
     \<and> sj_parent j = (if rs = [] then None else Some (record_uuid env (last rs)))
     \<and> (case dict_get (sw_files w) (sj_path j) of None \<Rightarrow> rs = []
        | Some f \<Rightarrow> rs \<noteq> [] \<and> \<not> sf_torn f \<and> sf_text f = ledger_text env rs)"

definition fresh_uuid :: "session_env \<Rightarrow> session_world \<Rightarrow> jdict list \<Rightarrow> bool" where
  "fresh_uuid env w rs \<longleftrightarrow> (let u = sw_uuid w (sw_tick w) in u \<noteq> [] \<and> py_strip u = u \<and> u \<notin> record_uuid env ` set rs)"

lemma in_step_head:
  assumes "plain_floats env" "in_step env j w rs"
  shows "assert_append_head env j w = Inr ()"
proof (cases rs rule: rev_cases)
  case Nil
  then show ?thesis using assms(2) by (auto simp: in_step_def assert_append_head_def split: option.splits)
next
  case (snoc rs' r)
  then obtain f where f: "dict_get (sw_files w) (sj_path j) = Some f" "\<not> sf_torn f" "sf_text f = ledger_text env rs"
    using assms(2) by (auto simp: in_step_def split: option.splits)
  have ledger: "ledger env (rs' @ [r])" using assms(2) snoc by (simp add: in_step_def)
  then have readable: "\<forall>x\<in>set (rs' @ [r]). readable env x" using ledger_readable by blast
  have next_r: "next_record env rs' r" using ledger by (auto elim: ledger_snocE)
  have "last (sf_text f) = NL" "sf_text f \<noteq> []" using f(3) snoc by (simp_all add: ledger_text_def)
  moreover have "se_loads env (last_line (sf_text f)) = Some (JObj r)"
    using last_line_ledger[OF assms(1) readable] readable f(3) snoc by (simp add: readable_def)
  moreover have "jget r ''uuid'' = json_opt_str (sj_parent j)" "jget r ''sequence'' = JInt (int (sj_sequence j))"
    using assms(2) next_r next_record_uuid[OF next_r] snoc by (auto simp: in_step_def json_opt_str_def next_record_def)
  ultimately show ?thesis using f(1,2) by (simp add: assert_append_head_def Let_def json_eq_int_def)
qed

text \<open>
  One append. The record gets the next number, names the last record, and lands at the end of the
  file, whether its payload is inline or in an artifact.
\<close>

lemma artifact_is_no_journal:
  "endswith (sj_path j) ''.jsonl'' \<Longrightarrow> path_parent (sj_path j) @ ''/'' @ artifact_path j u \<noteq> sj_path j"
  by (auto simp: endswith_iff_suffix suffix_def artifact_path_def)

lemma file_text_put:
  "put_file w p text = Inr w' \<Longrightarrow> dict_get (sw_files w') q =
     (if q = p then Some \<lparr>sf_text = text, sf_torn = False, sf_mtime = sw_mtime w (sw_tick w)\<rparr> else dict_get (sw_files w) q)"
  by (auto simp: put_file_def dict_get_set split: option.splits)

lemma stored_record_cases:
  assumes "stored_record env j w u head payload = Inr (r, w')"
  shows "(\<exists>extra. r = head @ [extra])
    \<and> (w' = w \<or> (\<exists>content. put_file w (path_parent (sj_path j) @ ''/'' @ artifact_path j u) content = Inr w'))"
  using assms by (auto simp: stored_record_def write_artifact_def Let_def split: if_splits simp del: json_compact.simps)

lemma event_head_next:
  assumes "in_step env j w rs" "fresh_uuid env w rs" "readable env r"
    and "r = event_head (j\<lparr>sj_sequence := sj_sequence j + 1\<rparr>) w' (sw_uuid w (sw_tick w)) kind payload @ [extra]"
  shows "next_record env rs r" "record_uuid env r = sw_uuid w (sw_tick w)"
  using assms
  by (auto simp: next_record_def event_head_def in_step_def fresh_uuid_def Let_def jget_def dict_get_or_def dict_get_Cons
      record_uuid_def str_of_def json_opt_str_def)

lemma append_in_step:
  assumes "plain_floats env" "in_step env j w rs" "sj_pending j = None" "fresh_uuid env w rs" "readable env r"
    and "journal_append env kind payload j w = (Inr r, j', w')"
  shows "in_step env j' w' (rs @ [r])" "sj_path j' = sj_path j" "sj_pending j' = None" "sw_uuid w' = sw_uuid w"
proof -
  let ?u = "sw_uuid w (sw_tick w)"
  let ?j1 = "j\<lparr>sj_sequence := sj_sequence j + 1\<rparr>"
  let ?w1 = "w\<lparr>sw_tick := sw_tick w + 1\<rparr>"
  from assms(3,6) have "append_locked env kind payload j w = (Inr r, j', w')"
    by (simp add: journal_append_def split: if_splits)
  then obtain w2 where
    stored: "stored_record env ?j1 ?w1 ?u (event_head ?j1 ?w1 ?u kind (with_turn j payload)) (with_turn j payload) = Inr (r, w2)"
    and put: "put_file w2 (sj_path j) (file_text w2 (sj_path j) @ record_line env r @ [NL]) = Inr w'"
    and j': "j' = ?j1\<lparr>sj_parent := Some ?u, sj_capture := map_option (\<lambda>c. c @ [r]) (sj_capture ?j1)\<rparr>"
    by (auto simp: append_locked_def Let_def record_line_def simp del: json_compact.simps split: sum.splits prod.splits)
  obtain extra where r: "r = event_head ?j1 ?w1 ?u kind (with_turn j payload) @ [extra]"
    using stored_record_cases[OF stored] by blast
  have other: "dict_get (sw_files w2) (sj_path j) = dict_get (sw_files w) (sj_path j)" "sw_uuid w2 = sw_uuid w"
    using stored_record_cases[OF stored] artifact_is_no_journal[of ?j1 ?u] assms(2)
    by (auto simp: in_step_def put_file_def dict_get_set split: option.splits)
  then have contents: "file_text w2 (sj_path j) = ledger_text env rs"
    using assms(2) by (auto simp: file_text_def in_step_def ledger_text_def split: option.splits)
  note head = event_head_next[OF assms(2,4,5) r]
  have "ledger env (rs @ [r])" using assms(2) head(1) by (auto simp: in_step_def intro: ledger_snoc)
  then show "in_step env j' w' (rs @ [r])"
    using assms(2) head(2) put contents by (simp add: in_step_def j' file_text_put[OF put] ledger_text_def)
  show "sj_path j' = sj_path j" "sj_pending j' = None" using assms(3) by (simp_all add: j')
  show "sw_uuid w' = sw_uuid w" using put other(2) by (auto simp: put_file_def split: option.splits)
qed

text \<open>
  C23: What is appended is read back, if the new record can be read at all. From a journal that is in
  step with its file and has no append pending, a successful append under an id that no record has
  keeps it in step, and reading the file gives the earlier records and the new one after them. The
  record has to be readable: \<open>json.loads\<close> inverts \<open>json.dumps\<close> on its line, and none of its texts has
  a U+0085, at which the reader ends a line and the writer does not (\<open>next_line_character_corrupts\<close>
  is what happens otherwise); the text of a float has no control character.
\<close>

theorem append_reads_back:
  assumes "plain_floats env" "in_step env j w rs" "sj_pending j = None" "fresh_uuid env w rs"
    and "journal_append env kind payload j w = (Inr r, j', w')" "readable env r"
  shows "in_step env j' w' (rs @ [r]) \<and> read_records env w' (sj_path j) = Inr (rs @ [r])"
proof -
  note step = append_in_step[OF assms(1-4,6,5)]
  then obtain f where "dict_get (sw_files w') (sj_path j) = Some f" "\<not> sf_torn f" "sf_text f = ledger_text env (rs @ [r])"
    by (auto simp: in_step_def split: option.splits)
  then show ?thesis using step read_ledger[OF assms(1)] by (simp add: in_step_def)
qed

subsection \<open>The first event\<close>

definition first_event :: jdict where
  "first_event =
     [(''schema_version'', JInt 2), (''uuid'', JStr ''u''), (''parent_uuid'', JNull), (''session_id'', JStr ''s''),
      (''sequence'', JInt 1), (''timestamp'', JStr ''t''), (''type'', JStr ''session_started''), (''turn_id'', JStr []),
      (''payload'', JObj [(''cwd'', JStr ''/w'')])]"

definition first_env :: session_env where
  "first_env = \<lparr>se_loads = (\<lambda>l. if l = json_compact (\<lambda>_. ''0'') (JObj first_event) then Some (JObj first_event) else None),
     se_frepr = (\<lambda>_. ''0''), se_pr = (\<lambda>_. ''?''), se_sha = (\<lambda>_. []), se_resolve = (\<lambda>p. p)\<rparr>"

definition first_world :: session_world where
  "first_world = \<lparr>sw_files = [], sw_uuid = (\<lambda>_. ''u''), sw_now = (\<lambda>_. ''t''), sw_mtime = (\<lambda>_. 0), sw_tick = 0,
     sw_locked = (\<lambda>_. False), sw_write_error = (\<lambda>_. None)\<rparr>"

definition first_journal :: session_journal where
  "first_journal = \<lparr>sj_path = ''/d/s.jsonl'', sj_id = ''s'', sj_root = ''/w'', sj_sequence = 0, sj_parent = None,
     sj_inline = 1000, sj_turn = [], sj_started = [], sj_completed = [], sj_read_only = False, sj_pending = None, sj_capture = None\<rparr>"

lemma append_reads_back_witness:
  "\<exists>j w. in_step first_env j w [first_event] \<and> read_records first_env w ''/d/s.jsonl'' = Inr [first_event]"
proof -
  have floats: "plain_floats first_env"
    by (simp add: plain_floats_def first_env_def)
  have step: "in_step first_env first_journal first_world []"
    by (simp add: in_step_def first_journal_def first_world_def ledger_Nil endswith_def)
  have fresh: "fresh_uuid first_env first_world []" by code_simp
  have "fst (journal_append first_env ''session_started'' [(''cwd'', JStr ''/w'')] first_journal first_world) = Inr first_event"
    by code_simp
  then obtain j w where run: "journal_append first_env ''session_started'' [(''cwd'', JStr ''/w'')] first_journal first_world
    = (Inr first_event, j, w)" by (cases "journal_append first_env ''session_started'' [(''cwd'', JStr ''/w'')] first_journal first_world") auto
  have "clean_json (JObj first_event)" by code_simp
  then have readable: "readable first_env first_event"
    by (simp add: readable_def record_line_def first_env_def del: json_compact.simps)
  have "sj_pending first_journal = None" "sj_path first_journal = ''/d/s.jsonl''" by (simp_all add: first_journal_def)
  then show ?thesis using append_reads_back[OF floats step _ fresh run readable] by auto
qed

end
