(* ===== verification/Session_Facts.thy ===== *)
theory Session_Facts
  imports Session_Store Session_Ledger
begin

text \<open>
  What a replayed session satisfies: its conversation never leaves a tool call without its results,
  and a line separator in a text makes the whole journal unreadable.
\<close>

section \<open>Answered conversations\<close>

text \<open>Every message with tool calls is followed by the results of exactly these calls.\<close>

fun answered :: "('a session_env_scheme) \<Rightarrow> jdict list \<Rightarrow> bool" where
  "answered env [] = True"
| "answered env [m] = (\<not> assistant_has_tools m)"
| "answered env (m # r # ms) =
     (if assistant_has_tools m then tool_pair_matches env m r \<and> answered env ms else answered env (r # ms))"

lemma answered_append: "answered env xs \<Longrightarrow> answered env ys \<Longrightarrow> answered env (xs @ ys)"
proof (induction env xs rule: answered.induct)
  case (2 env m)
  then show ?case by (cases ys) simp_all
qed (auto split: if_splits)

definition answered_replay :: "replay_env \<Rightarrow> replay \<Rightarrow> bool" where
  "answered_replay env s \<longleftrightarrow> answered env (rs_messages s) \<and> (\<forall>a. rs_assistant s = Some a \<longrightarrow> assistant_has_tools a)"

text \<open>What the journal must hold: user messages call no tools, and stored conversations are answered.\<close>

definition event_wf :: "('a session_env_scheme) \<Rightarrow> str \<Rightarrow> jdict \<Rightarrow> bool" where
  "event_wf env kind p \<longleftrightarrow>
     (case message_from p of Inr m \<Rightarrow> kind = ''user_message'' \<longrightarrow> \<not> assistant_has_tools m | Inl _ \<Rightarrow> True)
     \<and> (case object_list (jget p ''messages'') of Some ms \<Rightarrow> answered env ms | None \<Rightarrow> True)"

lemma replay_inputs_same: "replay_inputs kind p s = Inr s' \<Longrightarrow> rs_messages s' = rs_messages s \<and> rs_assistant s' = rs_assistant s"
  by (auto simp: replay_inputs_def split: if_splits option.splits)

lemma replay_observations_same:
  "rfold (replay_observation env path) s vs = Inr s' \<Longrightarrow> rs_messages s' = rs_messages s \<and> rs_assistant s' = rs_assistant s"
proof (induction vs arbitrary: s)
  case (Cons v vs)
  then obtain u where "replay_observation env path s v = Inr u" "rfold (replay_observation env path) u vs = Inr s'" by auto
  moreover from this(1) have "rs_messages u = rs_messages s \<and> rs_assistant u = rs_assistant s"
    by (auto simp: replay_observation_def split: json.splits)
  ultimately show ?case using Cons.IH by simp
qed simp

lemma replace_messages_answered:
  "answered_replay env s \<Longrightarrow> (\<forall>ms. object_list v = Some ms \<longrightarrow> answered env ms) \<Longrightarrow> answered_replay env (replace_messages env v s)"
  by (auto simp: replace_messages_def answered_replay_def split: option.split)

lemma add_message_answered:
  assumes "answered_replay env s"
  shows "\<not> assistant_has_tools m \<Longrightarrow> answered_replay env (add_user env m s)"
    and "answered_replay env (add_assistant m s)"
    and "answered_replay env (add_results env m s)"
  using assms
  by (auto simp: answered_replay_def add_user_def add_assistant_def add_results_def Let_def intro!: answered_append split: option.splits)

text \<open>Which branch was taken does not matter to what the conversation keeps.\<close>

lemma if_InrE: "(if b then x else y) = Inr z \<Longrightarrow> (x = Inr z \<Longrightarrow> P) \<Longrightarrow> (y = Inr z \<Longrightarrow> P) \<Longrightarrow> P"
  by (simp split: if_splits)

lemma lifecycle_event_same:
  assumes "lifecycle_event env kind p s = Inr s'"
  shows "rs_messages s' = rs_messages s \<and> rs_assistant s' = rs_assistant s"
  using assms unfolding lifecycle_event_def Let_def
  by (elim if_InrE) auto

lemma answered_same:
  "answered_replay env s \<Longrightarrow> rs_messages t = rs_messages s \<Longrightarrow> rs_assistant t = rs_assistant s \<Longrightarrow> answered_replay env t"
  by (simp add: answered_replay_def)

lemma message_event_answered:
  assumes "answered_replay env s" "event_wf env kind p" "message_event env kind p s = Inr s'"
  shows "answered_replay env s'"
proof (cases "kind = ''user_message''")
  case True
  then obtain m where m: "message_from p = Inr m" "s' = add_user env m s"
    using assms(3) by (simp add: message_event_def) blast
  have "\<not> assistant_has_tools m" using assms(2) m(1) True by (simp add: event_wf_def)
  then show ?thesis unfolding m(2) by (rule add_message_answered(1)[OF assms(1)])
next
  case False
  have replace: "answered_replay env (replace_messages env (jget p ''messages'') t)"
    if "rs_messages t = rs_messages s" "rs_assistant t = rs_assistant s" for t
    using assms(2) by (intro replace_messages_answered[OF answered_same[OF assms(1) that]]) (auto simp: event_wf_def split: option.splits)
  note add = add_message_answered(2,3)[OF assms(1)]
  show ?thesis using assms(3) unfolding message_event_def if_not_P[OF False]
    by (elim if_InrE) (use replace add in auto)
qed

lemma replay_event_answered:
  assumes "answered_replay env s" "event_wf env kind p" "replay_event env kind p s = Inr s'"
  shows "answered_replay env s'"
proof -
  have "answered_replay env (replace_messages env (jget p ''messages'') (s\<lparr>rs_verification := []\<rparr>))"
    using assms(2) by (intro replace_messages_answered answered_same[OF assms(1)]) (auto simp: event_wf_def split: option.splits)
  then have rewound: "answered_replay env s'" if "rewound_event env p s = Inr s'"
    using that by (auto simp: rewound_event_def answered_replay_def)
  show ?thesis using assms(3) unfolding replay_event_def
    by (elim if_InrE) (use message_event_answered[OF assms(1,2)] rewound lifecycle_event_same answered_same[OF assms(1)] in blast)+
qed

lemma replay_record_answered:
  assumes "answered_replay env s" "replay_record env w path s r = Inr s'"
    and "\<And>p k. record_payload env w path r = Inr p \<Longrightarrow> jget r ''type'' = JStr k \<Longrightarrow> event_wf env k p"
  shows "answered_replay env s'"
proof -
  from assms(2) obtain p v t vs u where p: "record_payload env w path r = Inr p" and v: "payload_need r ''type'' = Inr v"
    and t: "replay_inputs (case v of JStr k \<Rightarrow> k | _ \<Rightarrow> []) p s = Inr t"
    and u: "rfold (replay_observation env path) t vs = Inr u"
    and s': "replay_event env (case v of JStr k \<Rightarrow> k | _ \<Rightarrow> []) p (start_turn env (case v of JStr k \<Rightarrow> k | _ \<Rightarrow> []) r u) = Inr s'"
    by (auto simp: replay_record_def Let_def)
  have before: "answered_replay env (start_turn env kind r u)" for kind
    using answered_same[OF assms(1)] replay_inputs_same[OF t] replay_observations_same[OF u] by (simp add: start_turn_def)
  show ?thesis
  proof (cases "\<exists>k. v = JStr k")
    case True
    then obtain k where "v = JStr k" by blast
    then have "jget r ''type'' = JStr k"
      using v by (auto simp: payload_need_def lift_py_def need_def jget_def dict_get_or_def map_sum_def split: option.splits)
    then show ?thesis using replay_event_answered[OF before assms(3)[OF p]] s' \<open>v = JStr k\<close> by simp
  next
    case False
    then have "lifecycle_event env [] p (start_turn env [] r u) = Inr s'"
      using s' by (cases v) (simp_all add: replay_event_def message_kinds_def)
    then show ?thesis using lifecycle_event_same answered_same[OF before[of "[]"]] by blast
  qed
qed

text \<open>
  C24: a replayed conversation never holds a tool call without its results. If the journal's user
  messages call no tools and its stored conversations (compaction, checkpoint, rewind, model
  selection) are answered, then in the state that \<open>_build_state\<close> returns every assistant message
  with tool calls is directly followed by the message with the results of exactly these calls,
  however the turns were interrupted.
\<close>

theorem replayed_conversation_answered:
  assumes "build_state env w base path = Inr s"
    and "read_records (session_env.truncate env) w path = Inr records"
    and "\<forall>r\<in>set records. \<forall>p k. record_payload env w path r = Inr p \<and> jget r ''type'' = JStr k \<longrightarrow> event_wf env k p"
  shows "answered env (ss_messages s)"
proof -
  from assms(1,2) obtain first rest where records: "records = first # rest" by (cases records) (auto simp: build_state_def)
  from assms(1,2) obtain name t where run: "rfold (replay_record env w path) (empty_replay name) rest = Inr t"
    and s: "ss_messages s = rs_messages t"
    by (auto simp: build_state_def records Let_def)
  have "answered_replay env t"
  proof (rule rfold_invariant[OF run, where P = "\<lambda>_. answered_replay env"])
    show "answered_replay env (empty_replay name)" by (simp add: answered_replay_def empty_replay_def)
  next
    fix ys r u u'
    assume "answered_replay env u" "r \<in> set rest" "replay_record env w path u r = Inr u'"
    then show "answered_replay env u'" using replay_record_answered[of env u w path r u'] assms(3) by (auto simp: records)
  qed
  then show ?thesis by (simp add: s answered_replay_def)
qed

section \<open>A session\<close>

definition sample_head :: "nat \<Rightarrow> str \<Rightarrow> jdict \<Rightarrow> jdict" where
  "sample_head n kind payload =
     [(''uuid'', JStr (nat_str n)), (''parent_uuid'', json_opt_str (if n = 1 then None else Some (nat_str (n - 1)))),
      (''session_id'', JStr ''s''), (''sequence'', JInt (int n)), (''timestamp'', JStr ''t''), (''type'', JStr kind),
      (''payload'', JObj payload)]"

definition sample_call_message :: jdict where
  "sample_call_message = [(''role'', JStr ''assistant''),
     (''content'', JList [JObj [(''type'', JStr ''tool_use''), (''id'', JStr ''c'')]])]"

definition sample_result_message :: jdict where
  "sample_result_message = [(''role'', JStr ''user''),
     (''content'', JList [JObj [(''type'', JStr ''tool_result''), (''tool_use_id'', JStr ''c'')]])]"

definition sample_session :: "jdict list" where
  "sample_session =
     [sample_head 1 ''session_started'' [(''cwd'', JStr ''/w'')],
      sample_head 2 ''user_message'' [(''message'', JObj [(''role'', JStr ''user''), (''content'', JStr ''hi'')])],
      sample_head 3 ''assistant_message'' [(''message'', JObj sample_call_message)],
      sample_head 4 ''tool_result_message'' [(''message'', JObj sample_result_message)],
      sample_head 5 ''assistant_message'' [(''message'', JObj sample_call_message)]]"

text \<open>A decoder that knows the sample's lines.\<close>

definition sample_env :: replay_env where
  "sample_env = \<lparr>se_loads = (\<lambda>l. map_option JObj (find_opt (\<lambda>r. json_compact (\<lambda>_. ''0'') (JObj r) = l) sample_session)),
     se_frepr = (\<lambda>_. ''0''), se_pr = (\<lambda>_. ''?''), se_sha = (\<lambda>_. []), se_resolve = (\<lambda>p. p),
     re_dump_sha = (\<lambda>_. []), re_ellipsis = [], re_task_sha = (\<lambda>_. [])\<rparr>"

definition sample_sessions :: session_world where
  "sample_sessions = \<lparr>sw_files = [(''/s.jsonl'',
       \<lparr>sf_text = concat (map (\<lambda>r. json_compact (\<lambda>_. ''0'') (JObj r) @ [NL]) sample_session), sf_torn = False, sf_mtime = 0\<rparr>)],
     sw_uuid = nat_str, sw_now = (\<lambda>_. ''t''), sw_mtime = (\<lambda>_. 0), sw_tick = 6, sw_locked = (\<lambda>_. False),
     sw_write_error = (\<lambda>_. None)\<rparr>"

lemma sample_records:
  "read_records (session_env.truncate sample_env) sample_sessions ''/s.jsonl'' = Inr sample_session"
  by code_simp

lemma sample_state:
  "map_sum id ss_messages (build_state sample_env sample_sessions ''/w'' ''/s.jsonl'')
   = Inr [[(''role'', JStr ''user''), (''content'', JStr ''hi'')], sample_call_message, sample_result_message]"
  by code_simp

lemma replayed_conversation_answered_witness:
  "\<exists>s. build_state sample_env sample_sessions ''/w'' ''/s.jsonl'' = Inr s \<and> answered sample_env (ss_messages s)"
proof -
  obtain s where s: "build_state sample_env sample_sessions ''/w'' ''/s.jsonl'' = Inr s"
    using sample_state by (cases "build_state sample_env sample_sessions ''/w'' ''/s.jsonl''") auto
  have "\<forall>r\<in>set sample_session. case record_payload sample_env sample_sessions ''/s.jsonl'' r of
      Inr p \<Rightarrow> (case jget r ''type'' of JStr k \<Rightarrow> event_wf sample_env k p | _ \<Rightarrow> True) | Inl _ \<Rightarrow> True"
    by code_simp
  then have "\<forall>r\<in>set sample_session. \<forall>p k. record_payload sample_env sample_sessions ''/s.jsonl'' r = Inr p
      \<and> jget r ''type'' = JStr k \<longrightarrow> event_wf sample_env k p"
    by (auto split: sum.splits)
  from replayed_conversation_answered[OF s sample_records this] s show ?thesis by blast
qed

section \<open>Line separators\<close>

text \<open>
  \<open>json.dumps(ensure_ascii=False)\<close> writes U+0085 as it is and \<open>str.splitlines\<close> ends a line there.
  A record with that character in a text is two lines to the reader; the first is no JSON, and
  since it is not the last line the whole session is refused.
\<close>

lemma splitlines_acc_nel:
  "no_break l \<Longrightarrow> s \<noteq> [] \<Longrightarrow> splitlines_acc acc (l @ CHR 0x85 # s) = (rev acc @ l) # splitlines_acc [] s"
proof (induction l arbitrary: acc)
  case Nil
  then show ?case by (cases s) (simp_all add: is_linebreak_def)
next
  case (Cons c l)
  then have c: "\<not> is_linebreak c" "c \<noteq> CR" and l: "no_break l" by (auto simp: no_break_def is_linebreak_def)
  have "splitlines_acc acc ((c # l) @ CHR 0x85 # s) = splitlines_acc (c # acc) (l @ CHR 0x85 # s)"
    using c by (cases "l @ CHR 0x85 # s") simp_all
  then show ?case using Cons.IH[OF l Cons.prems(2)] by simp
qed

lemma next_line_character_corrupts:
  assumes "dict_get (sw_files w) path = Some f" "\<not> sf_torn f"
    and "sf_text f = l @ CHR 0x85 # s" "no_break l" "py_strip l \<noteq> []" "se_loads env l = None" "s \<noteq> []" "splitlines s \<noteq> []"
  shows "read_records env w path = Inl (corrupt_at ''Invalid JSON'' path 1)"
  using assms splitlines_acc_nel[OF assms(4,7), of "[]"] by (simp add: read_records_def splitlines_def)

end
