(* ===== verification/Protocol.thy ===== *)
theory Protocol
  imports Session_Journal
begin

text \<open>
  \<open>forge/protocol.py\<close>: the bounds of a JSON tree, the canonical hash of a configuration, the
  contracts of requests and events, and the nesting scan in front of the platform parser. The
  generated JSON schemas and the \<open>jsonschema\<close> package are the field \<open>pe_contract\<close>, which gives the
  message of the first violation; \<open>pe_methods\<close> and \<open>pe_events\<close> are the generated catalogs. The
  strings of the model hold no surrogates, so the check for them is always passed.
\<close>

datatype engine_exn = ContractError str str | IntegrityError str | StoreRuntime str

definition invalid_params :: "str \<Rightarrow> engine_exn" where
  "invalid_params m = ContractError ''INVALID_PARAMS'' m"

definition MAX_DEPTH :: nat where "MAX_DEPTH = 32"
definition MAX_SAFE_INTEGER :: int where "MAX_SAFE_INTEGER = 2 ^ 53 - 1"
definition MAX_FRAME_BYTES :: nat where "MAX_FRAME_BYTES = 1024 * 1024"

record method_entry =
  me_audience :: str
  me_mutation :: bool
  me_request_schema :: str
  me_result_schema :: str

record protocol_env =
  pe_sha :: "str \<Rightarrow> str"
  pe_frepr :: "pyfloat \<Rightarrow> str"
  pe_contract :: "str \<Rightarrow> json \<Rightarrow> str option"
  pe_methods :: "str \<Rightarrow> method_entry option"
  pe_events :: "str \<Rightarrow> str option"

section \<open>The bounds of a tree\<close>

text \<open>A loop that may raise on an element and keeps nothing.\<close>

fun rall :: "('a \<Rightarrow> 'e + unit) \<Rightarrow> 'a list \<Rightarrow> 'e + unit" where
  "rall f [] = Inr ()"
| "rall f (x # xs) = rbind (f x) (\<lambda>_. rall f xs)"

lemma rall_Inr_iff [simp]: "rall f xs = Inr () \<longleftrightarrow> (\<forall>x\<in>set xs. f x = Inr ())"
  by (induction xs) auto

lemma rall_cong [fundef_cong]:
  "xs = ys \<Longrightarrow> (\<And>x. x \<in> set ys \<Longrightarrow> f x = g x) \<Longrightarrow> rall f xs = rall g ys"
  by (induction xs arbitrary: ys) auto

fun check_tree :: "nat \<Rightarrow> json \<Rightarrow> engine_exn + unit" where
  "check_tree depth (JObj kvs) =
     guard (MAX_DEPTH \<le> depth) (invalid_params ''JSON nesting exceeds 32 containers'')
       (rall (\<lambda>kv. check_tree (depth + 1) (snd kv)) kvs)"
| "check_tree depth (JList vs) =
     guard (MAX_DEPTH \<le> depth) (invalid_params ''JSON nesting exceeds 32 containers'')
       (rall (check_tree (depth + 1)) vs)"
| "check_tree depth (JInt i) =
     guard (MAX_SAFE_INTEGER < \<bar>i\<bar>) (invalid_params ''JSON integer exceeds interoperable range'') (Inr ())"
| "check_tree depth (JFloat q) =
     guard (q = of_int \<lfloor>q\<rfloor> \<and> of_int MAX_SAFE_INTEGER < \<bar>q\<bar>)
       (invalid_params ''JSON integer exceeds interoperable range'') (Inr ())"
| "check_tree depth _ = Inr ()"

section \<open>The canonical hash\<close>

fun rmap_list :: "('a \<Rightarrow> 'e + 'b) \<Rightarrow> 'a list \<Rightarrow> 'e + 'b list" where
  "rmap_list f [] = Inr []"
| "rmap_list f (x # xs) = rbind (f x) (\<lambda>y. rbind (rmap_list f xs) (\<lambda>ys. Inr (y # ys)))"

lemma rmap_list_cong [fundef_cong]:
  "xs = ys \<Longrightarrow> (\<And>x. x \<in> set ys \<Longrightarrow> f x = g x) \<Longrightarrow> rmap_list f xs = rmap_list g ys"
  by (induction xs arbitrary: ys) auto

lemma rmap_list_eq: "(\<And>x. x \<in> set xs \<Longrightarrow> f x = Inr (g x)) \<Longrightarrow> rmap_list f xs = Inr (map g xs)"
  by (induction xs) auto

fun normalize :: "json \<Rightarrow> engine_exn + json" where
  "normalize (JFloat q) =
     (if q = of_int \<lfloor>q\<rfloor> then Inr (JInt \<lfloor>q\<rfloor>)
      else Inl (invalid_params ''Canonical configuration decimals must use normalized strings''))"
| "normalize (JObj kvs) =
     rbind (rmap_list (\<lambda>kv. rbind (normalize (snd kv)) (\<lambda>v. Inr (fst kv, v))) kvs) (\<lambda>kvs. Inr (JObj kvs))"
| "normalize (JList vs) = rbind (rmap_list normalize vs) (\<lambda>vs. Inr (JList vs))"
| "normalize v = Inr v"

text \<open>\<open>sort_keys=True\<close>\<close>

fun sort_tree :: "json \<Rightarrow> json" where
  "sort_tree (JObj kvs) = JObj (sort_key fst (map (\<lambda>kv. (fst kv, sort_tree (snd kv))) kvs))"
| "sort_tree (JList vs) = JList (map sort_tree vs)"
| "sort_tree v = v"

text \<open>\<open>encoded\<close> of \<open>forge/engine/persistence.py\<close>: the text every table keeps of a JSON value.\<close>

definition encoded :: "('a protocol_env_scheme) \<Rightarrow> json \<Rightarrow> str" where
  "encoded env v = json_compact (pe_frepr env) (sort_tree v)"

definition canonical_hash :: "('a protocol_env_scheme) \<Rightarrow> json \<Rightarrow> engine_exn + str" where
  "canonical_hash env v =
     rbind (check_tree 0 v) (\<lambda>_. rbind (normalize v) (\<lambda>n. Inr (pe_sha env (encoded env n))))"

section \<open>Contracts\<close>

definition jint :: "json \<Rightarrow> int" where
  "jint v = (case v of JInt i \<Rightarrow> i | _ \<Rightarrow> 0)"

definition jobj :: "json \<Rightarrow> jdict" where
  "jobj v = (case v of JObj d \<Rightarrow> d | _ \<Rightarrow> [])"

definition jlist :: "json \<Rightarrow> json list" where
  "jlist v = (case v of JList vs \<Rightarrow> vs | _ \<Rightarrow> [])"

definition jstr :: "json \<Rightarrow> str" where
  "jstr v = (case v of JStr s \<Rightarrow> s | _ \<Rightarrow> [])"

text \<open>The rules of \<open>_validate_contract\<close> that no schema can state.\<close>

definition run_spec_rules :: "jdict \<Rightarrow> engine_exn + unit" where
  "run_spec_rules v =
     guard (set (map jstr (jlist (jget (jobj (jget v ''dataset'')) ''task_ids'')))
          \<noteq> fst ` set (jobj (jget (jobj (jget v ''dataset'')) ''task_revisions'')))
       (invalid_params ''Task revisions must match the selected task set'')
     (guard (jint (jget (jobj (jget v ''budget'')) ''trial_wall_seconds'')
          < jint (jget (jobj (jget v ''budget'')) ''attempt_wall_seconds''))
       (invalid_params ''Trial wall budget cannot be smaller than attempt budget'') (Inr ()))"

definition bundle_rules :: "jdict \<Rightarrow> engine_exn + unit" where
  "bundle_rules v =
     (let entries = map jobj (jlist (jget v ''contents''));
          paths = map (\<lambda>e. py_lower (jstr (jget e ''path''))) entries in
      guard (\<not> distinct paths) (invalid_params ''Bundle content paths conflict'')
      (guard (sum_list (map (\<lambda>e. jint (jget e ''size_bytes'')) entries) \<noteq> jint (jget v ''total_size_bytes''))
        (invalid_params ''Bundle total size differs from content inventory'') (Inr ())))"

definition contract :: "('a protocol_env_scheme) \<Rightarrow> str \<Rightarrow> json \<Rightarrow> engine_exn + unit" where
  "contract env key v =
     (case pe_contract env key v of Some m \<Rightarrow> Inl (invalid_params m) | None \<Rightarrow> Inr ())"

text \<open>UTF-8 length: a character of the upper half of the range takes two bytes.\<close>

definition utf8_length :: "str \<Rightarrow> nat" where
  "utf8_length s = length s + length (filter (\<lambda>c. CHR 0x80 \<le> c) s)"

definition validate_contract :: "('a protocol_env_scheme) \<Rightarrow> str \<Rightarrow> json \<Rightarrow> engine_exn + unit" where
  "validate_contract env key v =
     rbind (contract env key v) (\<lambda>_.
     if key = ''run-spec'' then run_spec_rules (jobj v)
     else if key = ''bundle-manifest'' then bundle_rules (jobj v)
     else if key = ''evaluation.validate.request'' \<or> key = ''evaluation.create_run.request'' then
       rbind (check_tree 0 (jget (jobj v) ''spec'')) (\<lambda>_.
       rbind (contract env ''run-spec'' (jget (jobj v) ''spec'')) (\<lambda>_. run_spec_rules (jobj (jget (jobj v) ''spec''))))
     else if key = ''bundle.export.result'' then
       rbind (check_tree 0 (jget (jobj v) ''manifest'')) (\<lambda>_.
       rbind (contract env ''bundle-manifest'' (jget (jobj v) ''manifest'')) (\<lambda>_. bundle_rules (jobj (jget (jobj v) ''manifest''))))
     else if key = ''event-notification'' then
       guard (65536 < utf8_length (json_compact (pe_frepr env) v)) (invalid_params ''Event batch exceeds 64 KiB'') (Inr ())
     else Inr ())"

definition validate :: "('a protocol_env_scheme) \<Rightarrow> str \<Rightarrow> json \<Rightarrow> engine_exn + unit" where
  "validate env key v = rbind (check_tree 0 v) (\<lambda>_. validate_contract env key v)"

definition validate_request :: "('a protocol_env_scheme) \<Rightarrow> jdict \<Rightarrow> str \<Rightarrow> engine_exn + unit" where
  "validate_request env request who =
     rbind (validate env ''rpc-request'' (JObj request)) (\<lambda>_.
     case pe_methods env (jstr (jget request ''method'')) of
       None \<Rightarrow> Inl (ContractError ''NOT_FOUND'' ''Unknown RPC method'')
     | Some m \<Rightarrow>
         guard ((who \<noteq> ''main'' \<and> who \<noteq> ''renderer'') \<or> (me_audience m = ''main'' \<and> who \<noteq> ''main''))
           (ContractError ''UNAUTHORIZED'' ''Method requires a trusted Main channel'')
         (guard (me_mutation m \<and> dict_get request ''id'' = None) (invalid_params ''Mutation requires a request ID'')
         (validate env (me_request_schema m) (jget request ''params''))))"

definition validate_event :: "('a protocol_env_scheme) \<Rightarrow> jdict \<Rightarrow> engine_exn + unit" where
  "validate_event env v =
     rbind (check_tree 0 (JObj v)) (\<lambda>_.
     rbind (validate_contract env ''event-envelope'' (JObj v)) (\<lambda>_.
     case pe_events env (jstr (jget v ''event_type'')) of
       None \<Rightarrow> Inl (invalid_params ''Unknown event type'')
     | Some payload \<Rightarrow> validate_contract env payload (jget v ''attributes'')))"

section \<open>The nesting scan of \<open>strict_loads\<close>\<close>

record scan_state =
  sc_depth :: int
  sc_quoted :: bool
  sc_escaped :: bool

definition nesting_step :: "scan_state \<Rightarrow> char \<Rightarrow> engine_exn + scan_state" where
  "nesting_step s c =
     (if sc_quoted s then
        Inr (if sc_escaped s then s\<lparr>sc_escaped := False\<rparr>
             else if c = BSL then s\<lparr>sc_escaped := True\<rparr>
             else if c = DQ then s\<lparr>sc_quoted := False\<rparr> else s)
      else if c = DQ then Inr (s\<lparr>sc_quoted := True\<rparr>)
      else if c = CHR ''['' \<or> c = CHR ''{'' then
        guard (32 < sc_depth s + 1) (invalid_params ''JSON nesting exceeds 32 containers'')
          (Inr (s\<lparr>sc_depth := sc_depth s + 1\<rparr>))
      else if c = CHR '']'' \<or> c = CHR ''}'' then Inr (s\<lparr>sc_depth := sc_depth s - 1\<rparr>)
      else Inr s)"

definition nesting_scan :: "str \<Rightarrow> engine_exn + scan_state" where
  "nesting_scan s = rfold nesting_step \<lparr>sc_depth = 0, sc_quoted = False, sc_escaped = False\<rparr> s"

end
