(* ===== verification/Protocol_Facts.thy ===== *)
theory Protocol_Facts
  imports Protocol
begin

text \<open>
  The scan in front of the platform parser measures the nesting of the tree the parser would
  build: on the text of a JSON value it stops exactly when the value nests deeper than the limit,
  and it never counts a bracket inside a string.
\<close>

fun json_depth :: "json \<Rightarrow> nat" where
  "json_depth (JObj kvs) = Suc (foldr (\<lambda>kv m. max (json_depth (snd kv)) m) kvs 0)"
| "json_depth (JList vs) = Suc (foldr (\<lambda>v m. max (json_depth v) m) vs 0)"
| "json_depth _ = 0"

lemma foldr_max_le: "foldr (\<lambda>x m. max (f x) m) xs 0 \<le> n \<longleftrightarrow> (\<forall>x\<in>set xs. f x \<le> (n :: nat))"
  by (induction xs) auto

lemma depth_list_le: "Suc d + foldr (\<lambda>x m. max (f x) m) xs 0 \<le> n \<longleftrightarrow> Suc d \<le> n \<and> (\<forall>x\<in>set xs. Suc d + f x \<le> (n :: nat))"
  using foldr_max_le [of f xs "n - Suc d"] by (cases "Suc d \<le> n") auto

lemma foldr_max_sort: "foldr (\<lambda>x m. max (f x) m) xs (0 :: nat) = foldr (\<lambda>x m. max (f x) m) ys 0" if "set xs = set ys"
  using foldr_max_le [of f xs] foldr_max_le [of f ys] that by (metis order_antisym order_refl)

lemma json_depth_sort: "json_depth (sort_tree v) = json_depth v"
proof (induction v)
  case (JObj kvs)
  have IH: "json_depth (sort_tree (snd kv)) = json_depth (snd kv)" if "kv \<in> set kvs" for kv
    using JObj that by (cases kv) (auto simp: snds.simps)
  have "foldr (\<lambda>kv m. max (json_depth (snd kv)) m) (map (\<lambda>kv. (fst kv, sort_tree (snd kv))) kvs) 0
      = foldr (\<lambda>kv m. max (json_depth (snd kv)) m) kvs 0"
    using IH by (induction kvs) auto
  moreover have "foldr (\<lambda>kv m. max (json_depth (snd kv)) m) (sort_key fst (map (\<lambda>kv. (fst kv, sort_tree (snd kv))) kvs)) 0
      = foldr (\<lambda>kv m. max (json_depth (snd kv)) m) (map (\<lambda>kv. (fst kv, sort_tree (snd kv))) kvs) 0"
    by (rule foldr_max_sort) simp
  ultimately show ?case by simp
next
  case (JList vs)
  then have "foldr (\<lambda>v m. max (json_depth v) m) (map sort_tree vs) 0 = foldr (\<lambda>v m. max (json_depth v) m) vs 0"
    by (induction vs) auto
  then show ?case by simp
qed simp_all

section \<open>Scanning pieces of text\<close>

definition neutral :: "char \<Rightarrow> bool" where
  "neutral c \<longleftrightarrow> c \<noteq> DQ \<and> c \<noteq> CHR ''['' \<and> c \<noteq> CHR '']'' \<and> c \<noteq> CHR ''{'' \<and> c \<noteq> CHR ''}''"

abbreviation scanning :: "nat \<Rightarrow> bool \<Rightarrow> bool \<Rightarrow> scan_state" where
  "scanning n q e \<equiv> \<lparr>sc_depth = int n, sc_quoted = q, sc_escaped = e\<rparr>"

abbreviation too_deep :: "engine_exn + scan_state" where
  "too_deep \<equiv> Inl (invalid_params ''JSON nesting exceeds 32 containers'')"

lemma scan_neutral:
  "list_all neutral s \<Longrightarrow> rfold nesting_step (scanning n False False) (s @ r) = rfold nesting_step (scanning n False False) r"
  by (induction s) (auto simp: nesting_step_def neutral_def)

lemma quoted_plain: "c \<noteq> DQ \<Longrightarrow> c \<noteq> BSL \<Longrightarrow> nesting_step (scanning n True False) c = Inr (scanning n True False)"
  by (simp add: nesting_step_def)

lemma quoted_escape: "nesting_step (scanning n True False) BSL = Inr (scanning n True True)"
  "nesting_step (scanning n True True) c = Inr (scanning n True False)"
  by (simp_all add: nesting_step_def)

lemma hex_digit_plain: "n < 16 \<Longrightarrow> hex_digit n \<noteq> DQ \<and> hex_digit n \<noteq> BSL"
proof -
  assume "n < 16"
  then have "of_char (hex_digit n) = (if n < 10 then 48 + n else 87 + n)" by (simp add: hex_digit_def)
  moreover have "of_char DQ = (34 :: nat)" "of_char BSL = (92 :: nat)" by simp_all
  ultimately show ?thesis using \<open>n < 16\<close> by (auto split: if_splits)
qed

lemma scan_json_escape:
  "rfold nesting_step (scanning n True False) (json_escape c @ r) = rfold nesting_step (scanning n True False) r"
proof (cases "c \<in> {DQ, BSL, NL, CR, TAB, CHR 0x08, CHR 0x0C}")
  case True
  then show ?thesis by (auto simp: json_escape_def quoted_escape)
next
  case False
  have "(of_char c :: nat) div 16 < 16" using nat_of_char_less_256 [of c] by (simp add: div_less_iff_less_mult)
  then have hex: "hex_digit (of_char c div 16) \<noteq> DQ" "hex_digit (of_char c div 16) \<noteq> BSL"
    "hex_digit (of_char c mod 16) \<noteq> DQ" "hex_digit (of_char c mod 16) \<noteq> BSL"
    by (simp_all add: hex_digit_plain)
  show ?thesis
  proof (cases "c < CHR 0x20")
    case True
    then have "json_escape c = [BSL, CHR 0x75, CHR 0x30, CHR 0x30, hex_digit (of_char c div 16), hex_digit (of_char c mod 16)]"
      using False by (simp add: json_escape_def)
    then show ?thesis using hex by (simp add: quoted_escape quoted_plain)
  next
    case no: False
    then have "json_escape c = [c]" using False by (simp add: json_escape_def)
    then show ?thesis using False by (simp add: quoted_plain)
  qed
qed

lemma scan_quote:
  "rfold nesting_step (scanning n False False) (json_quote s @ r) = rfold nesting_step (scanning n False False) r"
proof -
  have body: "rfold nesting_step (scanning n True False) (concat (map json_escape s) @ r') = rfold nesting_step (scanning n True False) r'" for r'
    by (induction s) (simp_all add: scan_json_escape)
  have "nesting_step (scanning n False False) DQ = Inr (scanning n True False)"
    "nesting_step (scanning n True False) DQ = Inr (scanning n False False)"
    by (simp_all add: nesting_step_def)
  then show ?thesis using body [of "DQ # r"] by (simp add: json_quote_def)
qed

lemma int_str_neutral: "list_all neutral (int_str i)"
proof -
  have "neutral c" if "py_isdigit c" for c
    using that by (auto simp: py_isdigit_def neutral_def)
  then show ?thesis using nat_str_digits by (auto simp: int_str_def list_all_iff neutral_def)
qed

section \<open>Scanning a value\<close>

text \<open>
  \<open>scans f d t\<close>: from nesting \<open>n\<close> the text \<open>t\<close> of something \<open>d\<close> deep is passed over when it fits
  the limit and refused when it does not.
\<close>

definition scans :: "nat \<Rightarrow> nat \<Rightarrow> str \<Rightarrow> bool" where
  "scans n d t \<longleftrightarrow> (\<forall>r. rfold nesting_step (scanning n False False) (t @ r)
     = (if n + d \<le> 32 then rfold nesting_step (scanning n False False) r else too_deep))"

lemma scans_neutral: "n \<le> 32 \<Longrightarrow> list_all neutral t \<Longrightarrow> scans n 0 t"
  by (simp add: scans_def scan_neutral)

lemma scans_quote: "n \<le> 32 \<Longrightarrow> scans n 0 (json_quote t)"
  by (simp add: scans_def scan_quote)

lemma scans_prefix: "n \<le> 32 \<Longrightarrow> scans n 0 t \<Longrightarrow> scans n d u \<Longrightarrow> scans n d (t @ u)"
  by (simp add: scans_def)

lemma scans_join:
  assumes "n \<le> 32" "\<forall>x\<in>set xs. scans n (f x) (g x)"
  shows "rfold nesting_step (scanning n False False) (py_join '','' (map g xs) @ r)
    = (if \<forall>x\<in>set xs. n + f x \<le> 32 then rfold nesting_step (scanning n False False) r else too_deep)"
  using assms(2)
proof (induction "'',''" "map g xs" arbitrary: xs rule: py_join.induct)
  case (2 t)
  then show ?case by (auto simp: scans_def)
next
  case (3 t u ts)
  then obtain x y zs where xs: "xs = x # y # zs" "t = g x" "u = g y" "ts = map g zs" by (auto simp: Cons_eq_map_conv)
  have first: "scans n (f x) (g x)" using 3(3) xs by simp
  have IH: "rfold nesting_step (scanning n False False) (py_join '','' (map g (y # zs)) @ r)
      = (if \<forall>x\<in>set (y # zs). n + f x \<le> 32 then rfold nesting_step (scanning n False False) r else too_deep)"
    using 3 xs by (intro 3) auto
  have comma: "rfold nesting_step (scanning n False False) ('','' @ t') = rfold nesting_step (scanning n False False) t'" for t'
    by (rule scan_neutral) (simp add: neutral_def)
  have "rfold nesting_step (scanning n False False) (g x @ t') = (if n + f x \<le> 32 then rfold nesting_step (scanning n False False) t' else too_deep)" for t'
    using first unfolding scans_def by blast
  then show ?case using IH comma by (simp add: xs(1))
qed simp

lemma scans_bracket:
  assumes "n \<le> 32" "(a = CHR ''['' \<and> b = CHR '']'') \<or> (a = CHR ''{'' \<and> b = CHR ''}'')"
    and "n < 32 \<Longrightarrow> \<forall>x\<in>set xs. scans (Suc n) (f x) (g x)"
  shows "scans n (Suc (foldr (\<lambda>x m. max (f x) m) xs 0)) ([a] @ py_join '','' (map g xs) @ [b])"
proof (cases "n < 32")
  case False
  then have "rbind (nesting_step (scanning n False False) a) k = too_deep" for k
    using assms(1,2) by (auto simp: nesting_step_def)
  then show ?thesis using False assms(1) by (simp add: scans_def)
next
  case True
  then have opens: "nesting_step (scanning n False False) a = Inr (scanning (Suc n) False False)"
    and closes: "nesting_step (scanning (Suc n) False False) b = Inr (scanning n False False)"
    using assms(2) by (auto simp: nesting_step_def)
  have "n + Suc (foldr (\<lambda>x m. max (f x) m) xs 0) \<le> 32 \<longleftrightarrow> (\<forall>x\<in>set xs. Suc n + f x \<le> 32)"
    using depth_list_le [of n f xs 32] True by simp
  then show ?thesis
    using scans_join [of "Suc n" xs f g] True assms(3) by (auto simp: scans_def opens closes simp del: of_nat_Suc)
qed

lemma scans_value:
  assumes "\<forall>q. list_all neutral (frepr q)" "n \<le> 32"
  shows "scans n (json_depth v) (json_compact frepr v)"
  using assms(2)
proof (induction v arbitrary: n)
  case (JList vs)
  then have "\<forall>v\<in>set vs. scans (Suc n) (json_depth v) (json_compact frepr v)" if "n < 32" using that by auto
  with JList.prems show ?case using scans_bracket [of n "CHR ''[''" "CHR '']''" vs json_depth "json_compact frepr"] by simp
next
  case (JObj kvs)
  let ?g = "\<lambda>kv. json_quote (fst kv) @ '':'' @ json_compact frepr (snd kv)"
  have "scans (Suc n) (json_depth (snd kv)) (?g kv)" if "kv \<in> set kvs" "n < 32" for kv
  proof -
    have "scans (Suc n) (json_depth (snd kv)) (json_compact frepr (snd kv))"
      using JObj.IH [of kv "snd kv" "Suc n"] that by (cases kv) (auto simp: snds.simps)
    moreover have "scans (Suc n) 0 (json_quote (fst kv))" "scans (Suc n) 0 '':''"
      using that by (simp_all add: scans_quote scans_neutral neutral_def)
    ultimately show ?thesis using that scans_prefix [of "Suc n"] by (metis Suc_leI)
  qed
  with JObj.prems show ?case using scans_bracket [of n "CHR ''{''" "CHR ''}''" kvs "\<lambda>kv. json_depth (snd kv)" ?g] by simp
qed (simp_all add: scans_neutral scans_quote int_str_neutral neutral_def assms(1))

lemma check_tree_depth: "check_tree n v = Inr () \<Longrightarrow> n \<le> 32 \<Longrightarrow> n + json_depth v \<le> 32"
proof (induction v arbitrary: n)
  case (JList vs)
  then have "n < 32" and ok: "\<forall>v\<in>set vs. check_tree (Suc n) v = Inr ()" by (auto simp: MAX_DEPTH_def)
  have "\<forall>v\<in>set vs. Suc n + json_depth v \<le> 32" using JList.IH ok \<open>n < 32\<close> by (metis Suc_leI)
  then show ?case using \<open>n < 32\<close> depth_list_le [of n json_depth vs 32] by simp
next
  case (JObj kvs)
  then have "n < 32" and ok: "\<forall>kv\<in>set kvs. check_tree (Suc n) (snd kv) = Inr ()" by (auto simp: MAX_DEPTH_def)
  have "Suc n + json_depth (snd kv) \<le> 32" if "kv \<in> set kvs" for kv
    using JObj.IH [of kv "snd kv" "Suc n"] ok that \<open>n < 32\<close> by (cases kv) (auto simp: snds.simps)
  then show ?case using \<open>n < 32\<close> depth_list_le [of n "\<lambda>kv. json_depth (snd kv)" kvs 32] by simp
qed simp_all

text \<open>
  C25: The nesting scan of \<open>strict_loads\<close> agrees with the tree it stands in front of: on the
  encoded text of any JSON value it ends balanced and outside strings when the value nests at most
  32 containers deep, and it refuses the text exactly when the value is deeper, whatever brackets,
  quotes and escapes its strings hold; and a value \<open>check_tree\<close> accepts is never refused by it.
\<close>

theorem nesting_scan_measures_depth:
  assumes "\<forall>q. list_all neutral (pe_frepr env q)"
  shows "nesting_scan (encoded env v)
      = (if json_depth v \<le> 32 then Inr \<lparr>sc_depth = 0, sc_quoted = False, sc_escaped = False\<rparr> else too_deep)
    \<and> (check_tree 0 v = Inr () \<longrightarrow> nesting_scan (encoded env v) = Inr \<lparr>sc_depth = 0, sc_quoted = False, sc_escaped = False\<rparr>)"
proof -
  have "scans 0 (json_depth v) (encoded env v)"
    using scans_value [of "pe_frepr env" 0 "sort_tree v"] assms by (simp add: encoded_def json_depth_sort)
  then have "rfold nesting_step (scanning 0 False False) (encoded env v @ [])
      = (if json_depth v \<le> 32 then rfold nesting_step (scanning 0 False False) [] else too_deep)"
    unfolding scans_def by (metis add_0)
  then have "nesting_scan (encoded env v)
      = (if json_depth v \<le> 32 then Inr \<lparr>sc_depth = 0, sc_quoted = False, sc_escaped = False\<rparr> else too_deep)"
    by (simp add: nesting_scan_def)
  then show ?thesis using check_tree_depth [of 0 v] by simp
qed

definition sample_protocol :: protocol_env where
  "sample_protocol = \<lparr>pe_sha = (\<lambda>s. s), pe_frepr = (\<lambda>q. int_str \<lfloor>q\<rfloor> @ ''.0''), pe_contract = (\<lambda>_ _. None),
     pe_methods = (\<lambda>_. None), pe_events = (\<lambda>_. None)\<rparr>"

lemma sample_floats: "\<forall>q. list_all neutral (pe_frepr sample_protocol q)"
  using int_str_neutral by (simp add: sample_protocol_def neutral_def)

lemma nesting_scan_measures_depth_witness:
  "nesting_scan (encoded sample_protocol (JObj [(''a]'', JStr [DQ, CHR ''['', BSL]), (''b'', JList [JFloat 2, JNull])]))
   = Inr \<lparr>sc_depth = 0, sc_quoted = False, sc_escaped = False\<rparr>"
  using nesting_scan_measures_depth [OF sample_floats, of "JObj [(''a]'', JStr [DQ, CHR ''['', BSL]), (''b'', JList [JFloat 2, JNull])]"]
  by simp

end
