(* ===== verification/Engine_Store.thy ===== *)
theory Engine_Store
  imports Protocol
begin

text \<open>
  \<open>Store\<close> of \<open>forge/engine/persistence.py\<close>: the single-writer database of the engine. A table is
  the list of its rows in \<open>rowid\<close> order; the constraints of the migrations that can refuse a write
  (primary keys, the index that admits one running work item, the checks and the transition trigger
  of \<open>turns\<close>) are part of the statements that write. A JSON column holds the value its text
  denotes. A transaction either commits or leaves the database as it was; the identities a failed
  transaction drew are never seen, so the model may draw them again. The derived query tables of
  \<open>forge/observability\<close> appear only through \<open>ee_project\<close>, which says whether they refuse an event.
\<close>

section \<open>Rows\<close>

datatype work_state = WQueued | WRunning | WCancelRequested | WReconciling | WFinished
datatype turn_status = TQueued | TRunning | TAwaiting | TCancelRequested | TReconciling | TFinished
datatype cancel_status = CNone | CRequested | CConfirmed | CIndeterminate
datatype cleanup_status = KPending | KRunning | KClean | KResidual | KUnknown
datatype exec_state = XPlanned | XQueued | XRunning | XFinished | XCancelled | XError | XBlocked
datatype approval_state = APending | AApproved | ADenied | AExpired | AConsumed

record work_row =
  wk_id :: str
  wk_kind :: str
  wk_business :: str
  wk_state :: work_state
  wk_owner :: "str option"
  wk_deadline :: "str option"
  wk_version :: nat

record turn_row =
  tu_id :: str
  tu_session :: str
  tu_state :: turn_status
  tu_outcome :: "str option"
  tu_config :: json
  tu_input :: json
  tu_native :: "str option"

record lifecycle_row =
  lc_turn :: str
  lc_owner :: str
  lc_agent_deadline :: "str option"
  lc_grader_deadline :: "str option"
  lc_env_deadline :: "str option"
  lc_cancel :: cancel_status
  lc_cleanup :: cleanup_status
  lc_report :: "json option"
  lc_finished :: "str option"

record action_row =
  ac_id :: str
  ac_profile :: str
  ac_method :: str
  ac_client :: str
  ac_hash :: str
  ac_result :: json

record session_row =
  es_id :: str
  es_workspace :: str
  es_legacy :: "str option"
  es_created :: str

record workspace_row =
  ew_id :: str
  ew_path :: str
  ew_identity :: str
  ew_trust :: str
  ew_revision :: nat

record event_row =
  er_seq :: nat
  er_id :: str
  er_source :: str
  er_source_seq :: nat
  er_body :: jdict
  er_hash :: str

record conflict_row =
  ko_id :: str
  ko_event :: str
  ko_source :: str
  ko_source_seq :: nat
  ko_existing :: str
  ko_incoming :: str
  ko_at :: str

record trace_row =
  tt_turn :: str
  tt_trace :: str
  tt_span :: str
  tt_epoch :: str

record recovery_row =
  rv_turn :: str
  rv_epoch :: str
  rv_trace :: str
  rv_span :: str
  rv_original :: "str option"

record execution_row =
  ex_id :: str
  ex_turn :: str
  ex_trace :: str
  ex_span :: str
  ex_parent :: "str option"

text \<open>\<open>attempts\<close> joined with \<open>attempt_details\<close>: \<open>queue_attempt\<close> inserts both rows together.\<close>

record attempt_row =
  at_id :: str
  at_trial :: str
  at_number :: nat
  at_state :: exec_state
  at_error :: "str option"
  at_cleanup :: cleanup_status
  at_work :: str
  at_owner :: "str option"
  at_heartbeat :: "str option"
  at_started :: "str option"
  at_ended :: "str option"
  at_elapsed :: "nat option"
  at_start_ns :: nat
  at_trace :: "str option"
  at_span :: "str option"
  at_outcome :: "str option"
  at_grade :: "str option"
  at_reason :: "str option"
  at_deadline :: "str option"
  at_recovery :: "str option"

record trial_row =
  tl_id :: str
  tl_run :: str
  tl_task :: str
  tl_selected :: "str option"

record run_row =
  rn_id :: str
  rn_profile :: str
  rn_hash :: str
  rn_spec :: json
  rn_state :: str
  rn_config :: json

record grade_row =
  gr_id :: str
  gr_attempt :: str
  gr_state :: str
  gr_result :: "str option"

record approval_row =
  ap_id :: str
  ap_turn :: str
  ap_execution :: str
  ap_binding :: str
  ap_expires :: str
  ap_decision :: "str option"
  ap_consumed :: "str option"
  ap_owner :: str
  ap_view :: jdict
  ap_revision :: nat
  ap_environment :: nat
  ap_state :: approval_state

record attempt_recovery_row =
  av_attempt :: str
  av_epoch :: str
  av_trace :: str
  av_span :: str
  av_original :: "str option"

record engine_db =
  db_read_only :: bool
  db_in_tx :: bool
  db_tick :: nat
  db_producer :: str
  db_work :: "work_row list"
  db_turns :: "turn_row list"
  db_life :: "lifecycle_row list"
  db_results :: "(str \<times> json) list"
  db_actions :: "action_row list"
  db_sessions :: "session_row list"
  db_workspaces :: "workspace_row list"
  db_snapshots :: "(str \<times> str \<times> json) list"
  db_turn_profiles :: "(str \<times> str) list"
  db_turn_observation :: "(str \<times> json \<times> str) list"
  db_events :: "event_row list"
  db_last_seq :: nat
  db_producers :: "(str, str) dict"
  db_conflicts :: "conflict_row list"
  db_traces :: "trace_row list"
  db_executions :: "execution_row list"
  db_recoveries :: "recovery_row list"
  db_attempts :: "attempt_row list"
  db_attempt_recoveries :: "attempt_recovery_row list"
  db_trials :: "trial_row list"
  db_runs :: "run_row list"
  db_grades :: "grade_row list"
  db_approvals :: "approval_row list"
  db_nonces :: "str list"

text \<open>
  The epoch of this engine process, the supplies of \<open>uuid4\<close> and of the clocks (drawn by
  \<open>db_tick\<close>), and the observation options of the process.
\<close>

record engine_env = protocol_env +
  ee_epoch :: str
  ee_uuid :: "nat \<Rightarrow> str"
  ee_now :: "nat \<Rightarrow> str"
  ee_ns :: "nat \<Rightarrow> nat"
  ee_prices :: "(json \<times> str) option"
  ee_capture :: str
  ee_project :: "engine_db \<Rightarrow> jdict \<Rightarrow> engine_exn option"

type_synonym 'a db_step = "engine_db \<Rightarrow> engine_exn + ('a \<times> engine_db)"

section \<open>Statements\<close>

text \<open>A body in one write transaction.\<close>

definition transaction :: "'a db_step \<Rightarrow> engine_db \<Rightarrow> (engine_exn + 'a) \<times> engine_db" where
  "transaction body db =
     (if db_read_only db then
        (Inl (ContractError ''INCOMPATIBLE_PROTOCOL'' ''Database is in read-only diagnostic mode''), db)
      else if db_in_tx db then (Inl (StoreRuntime ''Nested write transactions are not supported''), db)
      else (case body (db\<lparr>db_in_tx := True\<rparr>) of
          Inl e \<Rightarrow> (Inl e, db)
        | Inr (x, db') \<Rightarrow> (Inr x, db'\<lparr>db_in_tx := False\<rparr>)))"

definition tick :: "engine_db \<Rightarrow> engine_db" where
  "tick db = db\<lparr>db_tick := db_tick db + 1\<rparr>"

definition new_id :: "('a engine_env_scheme) \<Rightarrow> str \<Rightarrow> engine_db \<Rightarrow> str" where
  "new_id env kind db = kind @ ''-'' @ ee_uuid env (db_tick db)"

definition utc_now :: "('a engine_env_scheme) \<Rightarrow> engine_db \<Rightarrow> str" where
  "utc_now env db = ee_now env (db_tick db)"

text \<open>The trigger \<open>valid_turn_transition\<close> and the checks that exactly a finished turn has an outcome, one of
  the seven.\<close>

fun turn_transition :: "turn_status \<Rightarrow> turn_status \<Rightarrow> bool" where
  "turn_transition TQueued new = (new \<in> {TQueued, TRunning, TCancelRequested, TReconciling, TFinished})"
| "turn_transition TRunning new = (new \<in> {TRunning, TAwaiting, TCancelRequested, TReconciling, TFinished})"
| "turn_transition TAwaiting new = (new \<in> {TAwaiting, TRunning, TCancelRequested, TReconciling, TFinished})"
| "turn_transition TCancelRequested new = (new \<in> {TCancelRequested, TReconciling, TFinished})"
| "turn_transition TReconciling new = (new \<in> {TReconciling, TRunning, TFinished})"
| "turn_transition TFinished new = False"

definition OUTCOMES :: "str list" where
  "OUTCOMES = [''completed'', ''failed'', ''cancelled'', ''timed_out'', ''budget_exhausted'', ''blocked'', ''indeterminate'']"

definition turn_update_ok :: "turn_row \<Rightarrow> turn_row \<Rightarrow> bool" where
  "turn_update_ok old new \<longleftrightarrow> turn_transition (tu_state old) (tu_state new)
     \<and> (tu_state old = tu_state new \<longrightarrow> tu_outcome old = tu_outcome new)
     \<and> (tu_state new = TFinished \<longleftrightarrow> tu_outcome new \<noteq> None)
     \<and> (case tu_outcome new of None \<Rightarrow> True | Some r \<Rightarrow> r \<in> set OUTCOMES)"

definition update_turns :: "(turn_row \<Rightarrow> bool) \<Rightarrow> turn_status \<Rightarrow> str option \<Rightarrow> engine_db \<Rightarrow> engine_exn + engine_db" where
  "update_turns P state outcome db =
     (let f = (\<lambda>t. t\<lparr>tu_state := state, tu_outcome := outcome\<rparr>) in
      guard (\<exists>t\<in>set (db_turns db). P t \<and> \<not> turn_update_ok t (f t)) (IntegrityError ''invalid turn state transition'')
        (Inr (db\<lparr>db_turns := map (\<lambda>t. if P t then f t else t) (db_turns db)\<rparr>)))"

definition update_work :: "(work_row \<Rightarrow> bool) \<Rightarrow> (work_row \<Rightarrow> work_row) \<Rightarrow> engine_db \<Rightarrow> engine_exn + engine_db" where
  "update_work P f db =
     (let rows = map (\<lambda>w. if P w then f w else w) (db_work db) in
      guard (1 < length (filter (\<lambda>w. wk_state w = WRunning) rows)) (IntegrityError ''UNIQUE constraint failed: single_active_work_item'')
        (Inr (db\<lparr>db_work := rows\<rparr>)))"

definition insert_work :: "work_row \<Rightarrow> engine_db \<Rightarrow> engine_exn + engine_db" where
  "insert_work w db =
     guard (wk_id w \<in> wk_id ` set (db_work db) \<or> wk_business w \<in> wk_business ` set (db_work db))
       (IntegrityError ''UNIQUE constraint failed: work_items'')
       (Inr (db\<lparr>db_work := db_work db @ [w]\<rparr>))"

definition insert_turn :: "turn_row \<Rightarrow> engine_db \<Rightarrow> engine_exn + engine_db" where
  "insert_turn t db =
     guard (tu_id t \<in> tu_id ` set (db_turns db)) (IntegrityError ''UNIQUE constraint failed: turns.id'')
       (Inr (db\<lparr>db_turns := db_turns db @ [t]\<rparr>))"

definition insert_action :: "action_row \<Rightarrow> engine_db \<Rightarrow> engine_exn + engine_db" where
  "insert_action a db =
     guard (\<exists>b\<in>set (db_actions db). ac_id b = ac_id a
          \<or> (ac_profile b = ac_profile a \<and> ac_method b = ac_method a \<and> ac_client b = ac_client a))
       (IntegrityError ''UNIQUE constraint failed: actions'')
       (Inr (db\<lparr>db_actions := db_actions db @ [a]\<rparr>))"

definition work_of :: "engine_db \<Rightarrow> str \<Rightarrow> work_row option" where
  "work_of db i = find_opt (\<lambda>w. wk_id w = i) (db_work db)"

definition work_for :: "engine_db \<Rightarrow> str \<Rightarrow> work_row option" where
  "work_for db b = find_opt (\<lambda>w. wk_business w = b) (db_work db)"

definition turn_of :: "engine_db \<Rightarrow> str \<Rightarrow> turn_row option" where
  "turn_of db i = find_opt (\<lambda>t. tu_id t = i) (db_turns db)"

definition session_of :: "engine_db \<Rightarrow> str \<Rightarrow> session_row option" where
  "session_of db i = find_opt (\<lambda>s. es_id s = i) (db_sessions db)"

definition not_found :: "str \<Rightarrow> engine_exn" where
  "not_found m = ContractError ''NOT_FOUND'' m"

definition stale :: "str \<Rightarrow> engine_exn" where
  "stale m = ContractError ''STALE_REVISION'' m"

definition indeterminate :: "str \<Rightarrow> engine_exn" where
  "indeterminate m = ContractError ''INDETERMINATE'' m"

definition event_conflict :: "str \<Rightarrow> engine_exn" where
  "event_conflict m = ContractError ''EVENT_CONFLICT'' m"

end
