(* ===== verification/Engine_Events.thy ===== *)
theory Engine_Events
  imports Engine_Store
begin

text \<open>
  The event log of \<open>forge/engine/persistence.py\<close>: trace identities, event bodies, the idempotent
  insertion of an event, bounded reads, imported observations and the quarantine of conflicts.
\<close>

definition opt_json :: "str option \<Rightarrow> json" where
  "opt_json v = (case v of None \<Rightarrow> JNull | Some s \<Rightarrow> JStr s)"

definition in_tx :: "str \<Rightarrow> engine_db \<Rightarrow> engine_exn + 'a \<Rightarrow> engine_exn + 'a" where
  "in_tx m db k = guard (\<not> db_in_tx db) (StoreRuntime m) k"

section \<open>Trace identities\<close>

definition trace_of :: "engine_db \<Rightarrow> str \<Rightarrow> trace_row option" where
  "trace_of db t = find_opt (\<lambda>r. tt_turn r = t) (db_traces db)"

text \<open>\<open>uuid4().hex\<close> and its first 16 characters.\<close>

definition hex_id :: "('a engine_env_scheme) \<Rightarrow> engine_db \<Rightarrow> str" where
  "hex_id env db = filter (\<lambda>c. c \<noteq> CHR ''-'') (ee_uuid env (db_tick db))"

definition ensure_trace :: "('a engine_env_scheme) \<Rightarrow> str \<Rightarrow> trace_row db_step" where
  "ensure_trace env turn db =
     (case trace_of db turn of
        Some r \<Rightarrow> Inr (r, db)
      | None \<Rightarrow>
          in_tx ''Trace creation belongs in the acceptance transaction'' db
          (let db1 = tick db;
               r = \<lparr>tt_turn = turn, tt_trace = hex_id env db, tt_span = take 16 (hex_id env db1), tt_epoch = ee_epoch env\<rparr> in
           guard (tt_trace r \<in> tt_trace ` set (db_traces db)) (IntegrityError ''UNIQUE constraint failed: turn_traces.trace_id'')
             (Inr (r, (tick db1)\<lparr>db_traces := db_traces db @ [r]\<rparr>))))"

text \<open>\<open>trace_scope(...).as_dict()\<close>\<close>

definition trace_scope :: "('a engine_env_scheme) \<Rightarrow> str \<Rightarrow> str option \<Rightarrow> jdict db_step" where
  "trace_scope env turn execution db =
     rbind (ensure_trace env turn db) (\<lambda>(r, db).
     case turn_of db turn of
       None \<Rightarrow> Inl (StoreRuntime ''NoneType object is not subscriptable'')
     | Some t \<Rightarrow>
         (let ex = (case execution of None \<Rightarrow> None
            | Some e \<Rightarrow> find_opt (\<lambda>x. ex_id x = e \<and> ex_turn x = turn) (db_executions db)) in
          Inr ([(''turn_id'', JStr turn), (''session_id'', JStr (tu_session t)),
                (''workspace_id'', opt_json (map_option es_workspace (session_of db (tu_session t)))),
                (''trace_id'', JStr (tt_trace r)),
                (''span_id'', JStr (case ex of None \<Rightarrow> tt_span r | Some x \<Rightarrow> ex_span x)),
                (''parent_span_id'', opt_json (case ex of None \<Rightarrow> None | Some x \<Rightarrow> ex_parent x)),
                (''execution_id'', opt_json execution)], db)))"

definition register_execution_scope :: "('a engine_env_scheme) \<Rightarrow> execution_row \<Rightarrow> engine_db \<Rightarrow> (engine_exn + unit) \<times> engine_db" where
  "register_execution_scope env x =
     transaction (\<lambda>db. rbind (trace_scope env (ex_turn x) None db) (\<lambda>(scope, db).
       guard (jget scope ''trace_id'' \<noteq> JStr (ex_trace x)) (event_conflict ''Execution trace identity changed'')
       (guard (\<exists>y\<in>set (db_executions db). ex_id y = ex_id x \<or> (ex_trace y = ex_trace x \<and> ex_span y = ex_span x))
         (IntegrityError ''UNIQUE constraint failed: execution_spans'')
         (Inr ((), db\<lparr>db_executions := db_executions db @ [x]\<rparr>)))))"

section \<open>Event bodies\<close>

definition identity_keys :: "str list" where
  "identity_keys = [''workspace_id'', ''session_id'', ''turn_id'', ''run_id'', ''trial_id'', ''attempt_id'',
     ''execution_id'', ''trace_id'', ''span_id'', ''parent_span_id'']"

definition merge_dict :: "jdict \<Rightarrow> jdict \<Rightarrow> jdict" where
  "merge_dict d e = fold (\<lambda>kv d. dict_set d (fst kv) (snd kv)) e d"

definition scoped_identities :: "('a engine_env_scheme) \<Rightarrow> jdict \<Rightarrow> jdict db_step" where
  "scoped_identities env ids db =
     (if json_truthy (jget ids ''turn_id'') then
        rbind (trace_scope env (jstr (jget ids ''turn_id'')) (jget_str ids ''execution_id'') db) (\<lambda>(scope, db).
        Inr (merge_dict scope (filter (\<lambda>kv. snd kv \<noteq> JNull) ids), db))
      else Inr (ids, db))"

definition event_body :: "('a engine_env_scheme) \<Rightarrow> str \<Rightarrow> str \<Rightarrow> nat \<Rightarrow> jdict \<Rightarrow> jdict \<Rightarrow> jdict db_step" where
  "event_body env kind producer sequence attributes ids db =
     rbind (scoped_identities env ids db) (\<lambda>(ids, db).
     Inr (merge_dict
       [(''schema_version'', JStr ''forge.events.v1''), (''event_id'', JStr (new_id env ''evt'' db)), (''event_type'', JStr kind),
        (''origin'', JStr ''trusted_engine''), (''producer_id'', JStr producer), (''producer_seq'', JStr (nat_str sequence)),
        (''occurred_at_utc'', JStr (utc_now env db)),
        (''monotonic_ns'', if kind = ''journal.projected'' then JNull else JStr (nat_str (ee_ns env (db_tick db)))),
        (''attributes'', JObj attributes), (''artifact_refs'', JList []), (''redaction_version'', JStr ''metadata-v1'')]
       (map (\<lambda>k. (k, jget ids k)) identity_keys), tick db))"

definition next_source_seq :: "engine_db \<Rightarrow> str \<Rightarrow> nat" where
  "next_source_seq db source =
     foldr (\<lambda>e m. max (er_source_seq e) m) (filter (\<lambda>e. er_source e = source) (db_events db)) 0 + 1"

section \<open>Insertion\<close>

definition stored_view :: "event_row \<Rightarrow> jdict" where
  "stored_view e = dict_set (er_body e) ''store_seq'' (JStr (nat_str (er_seq e)))"

definition same_event :: "event_row \<Rightarrow> str \<Rightarrow> str \<Rightarrow> nat \<Rightarrow> bool" where
  "same_event e event source seq \<longleftrightarrow> er_id e = event \<or> (er_source e = source \<and> er_source_seq e = seq)"

definition expected_producer :: "engine_db \<Rightarrow> str \<Rightarrow> str" where
  "expected_producer db source = dict_get_or (db_producers db) source source"

definition projection_refusal :: "engine_exn \<Rightarrow> engine_exn" where
  "projection_refusal x = (case x of
     IntegrityError m \<Rightarrow> event_conflict ''Derived event identity conflicts with an existing fact'' | _ \<Rightarrow> x)"

definition insert_event :: "('a engine_env_scheme) \<Rightarrow> jdict \<Rightarrow> str \<Rightarrow> nat \<Rightarrow> jdict db_step" where
  "insert_event env body source seq db =
     in_tx ''Events must be inserted within a write transaction'' db
     (guard (jget body ''producer_seq'' \<noteq> JStr (nat_str seq) \<or> jget body ''producer_id'' \<noteq> JStr (expected_producer db source))
        (event_conflict ''Event producer identity differs from its assigned source'')
     (let candidate = dict_pop body ''store_seq'' in
      rbind (validate_event env (candidate @ [(''store_seq'', JStr ''0'')])) (\<lambda>_.
      rbind (canonical_hash env (JObj candidate)) (\<lambda>digest.
      case filter (\<lambda>e. same_event e (jstr (jget body ''event_id'')) source seq) (db_events db) of
        [] \<Rightarrow>
          (let e = \<lparr>er_seq = db_last_seq db + 1, er_id = jstr (jget body ''event_id''), er_source = source,
                 er_source_seq = seq, er_body = jobj (sort_tree (JObj candidate)), er_hash = digest\<rparr>;
               db1 = db\<lparr>db_events := db_events db @ [e], db_last_seq := db_last_seq db + 1\<rparr> in
           case ee_project env db1 candidate of
             Some x \<Rightarrow> Inl (projection_refusal x)
           | None \<Rightarrow> Inr (candidate @ [(''store_seq'', JStr (nat_str (er_seq e)))], db1))
      | e # others \<Rightarrow>
          guard (others \<noteq> [] \<or> er_hash e \<noteq> digest \<or> er_source e \<noteq> source \<or> er_source_seq e \<noteq> seq)
            (event_conflict ''Event identity has conflicting content'')
            (Inr (stored_view e, db))))))"

definition emit_event :: "('a engine_env_scheme) \<Rightarrow> str \<Rightarrow> jdict \<Rightarrow> jdict \<Rightarrow> jdict db_step" where
  "emit_event env kind attributes ids db =
     (let seq = next_source_seq db (db_producer db) in
      rbind (event_body env kind (db_producer db) seq attributes ids db) (\<lambda>(body, db).
      insert_event env (dict_set body ''monotonic_ns'' (JStr (nat_str (ee_ns env (db_tick db))))) (db_producer db) seq (tick db)))"

definition turn_event :: "('a engine_env_scheme) \<Rightarrow> str \<Rightarrow> str \<Rightarrow> jdict \<Rightarrow> jdict db_step" where
  "turn_event env kind turn attributes db =
     (case turn_of db turn of
        None \<Rightarrow> Inl (not_found ''Turn not found'')
      | Some t \<Rightarrow>
          (case session_of db (tu_session t) of
             None \<Rightarrow> Inl (not_found ''Turn not found'')
           | Some s \<Rightarrow>
               (let seq = next_source_seq db (db_producer db) in
                rbind (event_body env kind (db_producer db) seq attributes
                  [(''workspace_id'', JStr (es_workspace s)), (''session_id'', JStr (tu_session t)), (''turn_id'', JStr turn)] db)
                (\<lambda>(body, db). insert_event env body (db_producer db) seq db))))"

definition recovery_event :: "('a engine_env_scheme) \<Rightarrow> str \<Rightarrow> str \<Rightarrow> str \<Rightarrow> jdict db_step" where
  "recovery_event env kind turn reason db =
     (case find_opt (\<lambda>r. rv_turn r = turn \<and> rv_epoch r = ee_epoch env) (db_recoveries db) of
        None \<Rightarrow> Inl (StoreRuntime ''NoneType object is not subscriptable'')
      | Some r \<Rightarrow>
          (let links = (case (rv_original r, trace_of db turn) of
                 (Some t, Some o') \<Rightarrow> [JObj [(''trace_id'', JStr t), (''span_id'', JStr (tt_span o'))]]
               | _ \<Rightarrow> []);
               seq = next_source_seq db (db_producer db) in
           rbind (event_body env kind (db_producer db) seq
             [(''original_turn_id'', JStr turn), (''original_attempt_id'', JNull), (''unknown_side_effects'', JBool True),
              (''reason'', JStr reason), (''cleanup_state'', JStr ''unknown''), (''trace_links'', JList links)]
             [(''turn_id'', JStr turn), (''trace_id'', JStr (rv_trace r)), (''span_id'', JStr (rv_span r)), (''parent_span_id'', JNull)] db)
           (\<lambda>(body, db). insert_event env body (db_producer db) seq db)))"

section \<open>Reading, importing, quarantine\<close>

definition events_after :: "engine_db \<Rightarrow> nat \<Rightarrow> nat \<Rightarrow> engine_exn + jdict list" where
  "events_after db after limit =
     guard (limit < 1 \<or> 100 < limit) (invalid_params ''Invalid event query bounds'')
       (Inr (map stored_view (take limit (filter (\<lambda>e. after < er_seq e) (sort_key er_seq (db_events db))))))"

definition quarantine_event :: "('a engine_env_scheme) \<Rightarrow> jdict \<Rightarrow> str \<Rightarrow> nat \<Rightarrow> engine_db \<Rightarrow> (engine_exn + unit) \<times> engine_db" where
  "quarantine_event env body source seq db =
     (case canonical_hash env (JObj (dict_pop body ''store_seq'')) of
        Inl e \<Rightarrow> (Inl e, db)
      | Inr incoming \<Rightarrow>
          transaction (\<lambda>db.
            (let existing = find_opt (\<lambda>e. same_event e (jstr (jget body ''event_id'')) source seq) (db_events db);
                 row = \<lparr>ko_id = new_id env ''conflict'' db, ko_event = jstr (jget body ''event_id''), ko_source = source,
                   ko_source_seq = seq, ko_existing = (case existing of None \<Rightarrow> ''missing'' | Some e \<Rightarrow> er_hash e),
                   ko_incoming = incoming, ko_at = utc_now env db\<rparr> in
             guard (ko_id row \<in> ko_id ` set (db_conflicts db)) (IntegrityError ''UNIQUE constraint failed: event_conflicts.id'')
               (Inr ((), (tick db)\<lparr>db_conflicts := db_conflicts db @ [row]\<rparr>)))) db)"

definition append_event :: "('a engine_env_scheme) \<Rightarrow> jdict \<Rightarrow> str \<Rightarrow> nat \<Rightarrow> engine_db \<Rightarrow> (engine_exn + jdict) \<times> engine_db" where
  "append_event env body source seq db =
     (case transaction (insert_event env body source seq) db of
        (Inr x, db1) \<Rightarrow> (Inr x, db1)
      | (Inl e, db1) \<Rightarrow>
          (case e of
             ContractError kind m \<Rightarrow>
               (if kind = ''EVENT_CONFLICT'' then
                  (case quarantine_event env body source seq db1 of
                     (Inl e', db2) \<Rightarrow> (Inl e', db2)
                   | (Inr _, db2) \<Rightarrow> (Inl e, db2))
                else (Inl e, db1))
           | _ \<Rightarrow> (Inl e, db1)))"

definition import_observation :: "('a engine_env_scheme) \<Rightarrow> jdict \<Rightarrow> str \<Rightarrow> nat \<Rightarrow> engine_db \<Rightarrow> (engine_exn + jdict) \<times> engine_db" where
  "import_observation env body source seq db =
     (if seq < 1 \<or> 2 ^ 63 \<le> seq \<or> source = [] \<or> 128 < length source
      then (Inl (invalid_params ''Imported observation source bounds are invalid''), db)
      else (let key = ''import:'' @ source in
        case transaction (\<lambda>db.
            (let db1 = (if dict_get (db_producers db) key = None
               then (tick db)\<lparr>db_producers := dict_set (db_producers db) key (new_id env ''producer'' db)\<rparr> else db) in
             Inr (expected_producer db1 key, db1))) db of
          (Inl e, db1) \<Rightarrow> (Inl e, db1)
        | (Inr producer, db1) \<Rightarrow>
            append_event env (merge_dict body [(''origin'', JStr ''imported''), (''producer_id'', JStr producer),
              (''producer_seq'', JStr (nat_str seq))]) key seq db1))"

end
