(* ===== verification/Engine_Turns.thy ===== *)
theory Engine_Turns
  imports Engine_Events
begin

text \<open>
  Turns as durable work: acceptance, the claim of a queued item, cancellation, the end of an
  execution and the reconciliation a new engine process starts with (\<open>Store\<close> of
  \<open>forge/engine/persistence.py\<close>, \<open>ApplicationServices\<close> of \<open>forge/application/services.py\<close>,
  \<open>TurnScheduler\<close> of \<open>forge/engine/scheduler.py\<close>). Each operation is one or two transactions; what
  runs between them (the harness, the sandbox, the asyncio tasks) appears as arguments.
\<close>

section \<open>Actions and snapshots\<close>

definition existing_action :: "str \<Rightarrow> str \<Rightarrow> str \<Rightarrow> str \<Rightarrow> engine_db \<Rightarrow> engine_exn + jdict option" where
  "existing_action profile method client hash db =
     (case find_opt (\<lambda>a. ac_profile a = profile \<and> ac_method a = method \<and> ac_client a = client) (db_actions db) of
        None \<Rightarrow> Inr None
      | Some a \<Rightarrow> guard (ac_hash a \<noteq> hash) (ContractError ''IDEMPOTENCY_CONFLICT'' ''Action ID has different parameters'')
          (Inr (Some (jobj (ac_result a)))))"

definition record_action :: "('a engine_env_scheme) \<Rightarrow> str \<Rightarrow> str \<Rightarrow> str \<Rightarrow> str \<Rightarrow> jdict \<Rightarrow> engine_db \<Rightarrow> engine_exn + engine_db" where
  "record_action env profile method client hash result db =
     insert_action \<lparr>ac_id = new_id env ''action'' db, ac_profile = profile, ac_method = method, ac_client = client,
       ac_hash = hash, ac_result = sort_tree (JObj result)\<rparr> (tick db)"

definition configuration_snapshot :: "('a engine_env_scheme) \<Rightarrow> json \<Rightarrow> str \<Rightarrow> jdict db_step" where
  "configuration_snapshot env configuration digest db =
     (case find_opt (\<lambda>(i, h, v). h = digest) (db_snapshots db) of
        Some (i, _, _) \<Rightarrow> Inr ([(''snapshot_id'', JStr i), (''sha256'', JStr digest)], db)
      | None \<Rightarrow>
          (let i = new_id env ''snap'' db in
           guard (i \<in> fst ` set (db_snapshots db)) (IntegrityError ''UNIQUE constraint failed: configuration_snapshots.id'')
             (Inr ([(''snapshot_id'', JStr i), (''sha256'', JStr digest)],
               (tick db)\<lparr>db_snapshots := db_snapshots db @ [(i, digest, sort_tree configuration)]\<rparr>))))"

definition budget_summary :: "json \<Rightarrow> json \<Rightarrow> json \<Rightarrow> json" where
  "budget_summary m t w = JObj [(''model_calls_remaining'', m), (''tool_calls_remaining'', t), (''wall_seconds_remaining'', w)]"

section \<open>Acceptance\<close>

text \<open>The session with its workspace, at the revision the client expects.\<close>

definition accepting_session :: "jdict \<Rightarrow> engine_db \<Rightarrow> engine_exn + session_row" where
  "accepting_session params db =
     (case session_of db (jstr (jget params ''session_id'')) of
        None \<Rightarrow> Inl (not_found ''Session not found'')
      | Some s \<Rightarrow>
         (case find_opt (\<lambda>w. ew_id w = es_workspace s) (db_workspaces db) of
            None \<Rightarrow> Inl (not_found ''Session not found'')
          | Some ws \<Rightarrow>
              guard (\<not> json_eq_int (jget params ''expected_workspace_revision'') (int (ew_revision ws)))
                (stale ''Workspace revision changed'') (Inr s)))"

definition price_snapshot :: "('a engine_env_scheme) \<Rightarrow> json db_step" where
  "price_snapshot env db =
     (case ee_prices env of
        None \<Rightarrow> Inr (JNull, db)
      | Some (v, sha) \<Rightarrow> rbind (configuration_snapshot env v sha db) (\<lambda>(r, db). Inr (sort_tree (JObj r), db)))"

definition accept_rows ::
    "('a engine_env_scheme) \<Rightarrow> str \<Rightarrow> jdict \<Rightarrow> session_row \<Rightarrow> jdict \<Rightarrow> str \<Rightarrow> str \<Rightarrow> jdict db_step" where
  "accept_rows env profile params s reference method hash db =
     (let turn = new_id env ''turn'' db;
          result = [(''turn_id'', JStr turn), (''state'', JStr ''queued''), (''accepted'', JBool True),
            (''reused_existing_action'', JBool False)] in
      rbind (insert_turn \<lparr>tu_id = turn, tu_session = es_id s, tu_state = TQueued, tu_outcome = None,
          tu_config = sort_tree (JObj reference), tu_input = sort_tree (jget params ''input''), tu_native = None\<rparr> (tick db)) (\<lambda>db.
      rbind (price_snapshot env db) (\<lambda>(prices, db).
      let db = db\<lparr>db_turn_profiles := db_turn_profiles db @ [(turn, profile)],
            db_turn_observation := db_turn_observation db @ [(turn, prices, ee_capture env)]\<rparr> in
      rbind (insert_work \<lparr>wk_id = new_id env ''work'' db, wk_kind = ''turn'', wk_business = turn, wk_state = WQueued,
          wk_owner = None, wk_deadline = None, wk_version = 0\<rparr> (tick db)) (\<lambda>db.
      rbind (record_action env profile method (jstr (jget params ''client_action_id'')) hash result db) (\<lambda>db.
      Inr (result, db))))))"

definition accepted_event :: "('a engine_env_scheme) \<Rightarrow> jdict \<Rightarrow> jdict \<Rightarrow> session_row \<Rightarrow> json \<Rightarrow> engine_db \<Rightarrow> engine_exn + engine_db" where
  "accepted_event env configuration reference s turn db =
     (let seq = next_source_seq db (db_producer db) in
      rbind (event_body env ''turn.accepted'' (db_producer db) seq
          [(''configuration'', JObj reference), (''budget_summary'', budget_summary (jget configuration ''max_model_calls'')
             (jget configuration ''max_tool_calls'') (jget configuration ''wall_seconds''))]
          [(''workspace_id'', JStr (es_workspace s)), (''session_id'', JStr (es_id s)), (''turn_id'', turn)] db) (\<lambda>(body, db).
      rbind (insert_event env body (db_producer db) seq db) (\<lambda>(_, db). Inr db)))"

definition accept_body ::
    "('a engine_env_scheme) \<Rightarrow> str \<Rightarrow> jdict \<Rightarrow> jdict \<Rightarrow> str \<Rightarrow> str \<Rightarrow> jdict db_step" where
  "accept_body env profile params configuration method hash db =
     rbind (existing_action profile method (jstr (jget params ''client_action_id'')) hash db) (\<lambda>existing.
     case existing of
       Some r \<Rightarrow> Inr (dict_set r ''reused_existing_action'' (JBool True), db)
     | None \<Rightarrow>
         rbind (canonical_hash env (JObj configuration)) (\<lambda>digest.
         rbind (configuration_snapshot env (JObj configuration) digest db) (\<lambda>(reference, db).
         rbind (accepting_session params db) (\<lambda>s.
         rbind (accept_rows env profile params s reference method hash db) (\<lambda>(result, db).
         rbind (accepted_event env configuration reference s (jget result ''turn_id'') db) (\<lambda>db.
         Inr (result, db)))))))"

definition accept_turn ::
    "('a engine_env_scheme) \<Rightarrow> str \<Rightarrow> jdict \<Rightarrow> jdict \<Rightarrow> str \<Rightarrow> jdict \<Rightarrow> engine_db \<Rightarrow> (engine_exn + jdict) \<times> engine_db" where
  "accept_turn env profile params configuration method action_params db =
     (case rbind (validate env ''start-turn'' (JObj params)) (\<lambda>_. canonical_hash env (JObj action_params)) of
        Inl e \<Rightarrow> (Inl e, db)
      | Inr hash \<Rightarrow> transaction (accept_body env profile params configuration method hash) db)"

section \<open>The claim\<close>

text \<open>The two queries of \<open>cleanup_blocked\<close>; \<open>NULL != ?\<close> is not true in SQL.\<close>

definition foreign_owner :: "('a engine_env_scheme) \<Rightarrow> work_row \<Rightarrow> bool" where
  "foreign_owner env w \<longleftrightarrow> (case wk_owner w of None \<Rightarrow> False | Some e \<Rightarrow> e \<noteq> ee_epoch env)"

definition cleanup_blocked :: "('a engine_env_scheme) \<Rightarrow> engine_db \<Rightarrow> bool" where
  "cleanup_blocked env db \<longleftrightarrow>
     (\<exists>l\<in>set (db_life db). \<exists>w\<in>set (db_work db). wk_business w = lc_turn l \<and> lc_cleanup l \<noteq> KClean
        \<and> (wk_state w = WFinished \<or> foreign_owner env w))
   \<or> (\<exists>a\<in>set (db_attempts db). \<exists>w\<in>set (db_work db). wk_id w = at_work a \<and> at_cleanup a \<noteq> KClean
        \<and> (wk_state w = WFinished \<or> foreign_owner env w))"

definition any_work :: "work_state list \<Rightarrow> engine_db \<Rightarrow> bool" where
  "any_work states db \<longleftrightarrow> (\<exists>w\<in>set (db_work db). wk_state w \<in> set states)"

definition start_claimed :: "('a engine_env_scheme) \<Rightarrow> bool \<Rightarrow> work_row \<Rightarrow> work_row db_step" where
  "start_claimed env emit row db =
     (if wk_kind row = ''turn'' then
        rbind (update_turns (\<lambda>t. tu_id t = wk_business row \<and> tu_state t = TQueued) TRunning None db) (\<lambda>db.
        if emit then
          (case turn_of db (wk_business row) of
             None \<Rightarrow> Inl (StoreRuntime ''NoneType object is not subscriptable'')
           | Some t \<Rightarrow>
               rbind (turn_event env ''turn.started'' (wk_business row)
                 [(''configuration'', tu_config t), (''budget_summary'', budget_summary JNull JNull JNull)] db) (\<lambda>(_, db). Inr (row, db)))
        else Inr (row, db))
      else Inr (row, db))"

definition claim_body :: "('a engine_env_scheme) \<Rightarrow> str \<Rightarrow> nat \<Rightarrow> bool \<Rightarrow> work_row db_step" where
  "claim_body env i version emit db =
     guard (cleanup_blocked env db) (indeterminate ''Previous cleanup remains unconfirmed'')
     (guard (any_work [WReconciling] db) (indeterminate ''Previous execution requires reconciliation'')
     (guard (any_work [WRunning] db) (indeterminate ''Another execution owns the local worker'')
     (guard (\<not> (\<exists>w\<in>set (db_work db). wk_id w = i \<and> wk_state w = WQueued \<and> wk_version w = version))
        (stale ''Work item state or version changed'')
     (rbind (update_work (\<lambda>w. wk_id w = i \<and> wk_state w = WQueued \<and> wk_version w = version)
         (\<lambda>w. w\<lparr>wk_state := WRunning, wk_owner := Some (ee_epoch env), wk_version := wk_version w + 1\<rparr>) db) (\<lambda>db.
      case work_of db i of
        None \<Rightarrow> Inl (StoreRuntime ''NoneType object is not subscriptable'')
      | Some row \<Rightarrow>
          start_claimed env emit row db)))))"

definition claim_work_item :: "('a engine_env_scheme) \<Rightarrow> str \<Rightarrow> nat \<Rightarrow> bool \<Rightarrow> engine_db \<Rightarrow> (engine_exn + work_row) \<times> engine_db" where
  "claim_work_item env i version emit = transaction (claim_body env i version emit)"

text \<open>What the scheduler dispatches, when it dispatches anything.\<close>

definition next_dispatch :: "('a engine_env_scheme) \<Rightarrow> engine_db \<Rightarrow> (str \<times> str) option" where
  "next_dispatch env db =
     (case find_opt (\<lambda>w. (wk_kind w = ''turn'' \<or> wk_kind w = ''attempt'') \<and> wk_state w = WQueued) (db_work db) of
        None \<Rightarrow> None
      | Some w \<Rightarrow> if any_work [WReconciling] db \<or> any_work [WRunning] db \<or> cleanup_blocked env db then None
          else Some (wk_kind w, wk_business w))"

section \<open>The end of an execution\<close>

definition mark_indeterminate_body :: "('a engine_env_scheme) \<Rightarrow> str \<Rightarrow> nat \<Rightarrow> unit db_step" where
  "mark_indeterminate_body env i version db =
     (case work_of db i of
        None \<Rightarrow> Inl (stale ''Reconciliation state changed'')
      | Some row \<Rightarrow>
          guard (wk_state row \<noteq> WReconciling \<or> wk_version row \<noteq> version) (stale ''Reconciliation state changed'')
          (rbind (if wk_kind row = ''turn'' then
               rbind (if \<exists>r\<in>set (db_recoveries db). rv_turn r = wk_business row \<and> rv_epoch r = ee_epoch env
                  then rbind (recovery_event env ''recovery.finished'' (wk_business row) ''unknown_result_retained_without_replay'' db) (\<lambda>(_, db). Inr db)
                  else Inr db) (\<lambda>db.
               update_turns (\<lambda>t. tu_id t = wk_business row) TFinished (Some ''indeterminate'') db)
             else Inr db) (\<lambda>db.
           rbind (update_work (\<lambda>w. wk_id w = i) (\<lambda>w. w\<lparr>wk_state := WFinished, wk_version := wk_version w + 1\<rparr>) db) (\<lambda>db.
           Inr ((), db)))))"

definition mark_indeterminate :: "('a engine_env_scheme) \<Rightarrow> str \<Rightarrow> nat \<Rightarrow> engine_db \<Rightarrow> (engine_exn + unit) \<times> engine_db" where
  "mark_indeterminate env i version = transaction (mark_indeterminate_body env i version)"

definition active :: "work_row \<Rightarrow> bool" where
  "active w \<longleftrightarrow> wk_state w = WRunning \<or> wk_state w = WCancelRequested"

definition finish_work_body :: "str \<Rightarrow> nat \<Rightarrow> str \<Rightarrow> str \<Rightarrow> unit db_step" where
  "finish_work_body i version owner outcome db =
     (case work_of db i of
        None \<Rightarrow> Inl (stale ''Work item state or version changed'')
      | Some row \<Rightarrow>
          guard (wk_version row \<noteq> version \<or> wk_owner row \<noteq> Some owner \<or> \<not> active row) (stale ''Work item state or version changed'')
          (rbind (if wk_kind row = ''turn'' then update_turns (\<lambda>t. tu_id t = wk_business row) TFinished (Some outcome) db else Inr db) (\<lambda>db.
           rbind (update_work (\<lambda>w. wk_id w = i) (\<lambda>w. w\<lparr>wk_state := WFinished, wk_version := wk_version w + 1\<rparr>) db) (\<lambda>db.
           Inr ((), db)))))"

definition finish_work_item ::
    "('a engine_env_scheme) \<Rightarrow> str \<Rightarrow> nat \<Rightarrow> str \<Rightarrow> str \<Rightarrow> engine_db \<Rightarrow> (engine_exn + unit) \<times> engine_db" where
  "finish_work_item env i version owner outcome db =
     (if owner \<noteq> ee_epoch env then (Inl (indeterminate ''Execution owner epoch expired''), db)
      else transaction (finish_work_body i version owner outcome) db)"

text \<open>A lifecycle row is inserted, or updated where its turn has one already (\<open>ON CONFLICT DO UPDATE\<close>).\<close>

definition upsert_life :: "lifecycle_row \<Rightarrow> (lifecycle_row \<Rightarrow> lifecycle_row) \<Rightarrow> engine_db \<Rightarrow> engine_db" where
  "upsert_life row f db =
     (if \<exists>l\<in>set (db_life db). lc_turn l = lc_turn row
      then db\<lparr>db_life := map (\<lambda>l. if lc_turn l = lc_turn row then f l else l) (db_life db)\<rparr>
      else db\<lparr>db_life := db_life db @ [row]\<rparr>)"

definition update_life :: "(lifecycle_row \<Rightarrow> bool) \<Rightarrow> (lifecycle_row \<Rightarrow> lifecycle_row) \<Rightarrow> engine_db \<Rightarrow> engine_db" where
  "update_life P f db = db\<lparr>db_life := map (\<lambda>l. if P l then f l else l) (db_life db)\<rparr>"

definition start_deadline :: "('a engine_env_scheme) \<Rightarrow> str \<Rightarrow> str \<Rightarrow> engine_db \<Rightarrow> (engine_exn + unit) \<times> engine_db" where
  "start_deadline env turn expires =
     transaction (\<lambda>db. Inr ((), upsert_life
       \<lparr>lc_turn = turn, lc_owner = ee_epoch env, lc_agent_deadline = Some expires, lc_grader_deadline = None,
        lc_env_deadline = Some expires, lc_cancel = CNone, lc_cleanup = KPending, lc_report = None, lc_finished = None\<rparr>
       (\<lambda>l. l\<lparr>lc_agent_deadline := Some expires, lc_env_deadline := Some expires\<rparr>) db))"

text \<open>The journal of the harness the turn runs on becomes the session's and the turn's.\<close>

definition bind_native :: "str \<Rightarrow> str \<Rightarrow> str \<Rightarrow> engine_db \<Rightarrow> (engine_exn + unit) \<times> engine_db" where
  "bind_native session turn ref =
     transaction (\<lambda>db. Inr ((), db\<lparr>
       db_sessions := map (\<lambda>s. if es_id s = session then s\<lparr>es_legacy := Some ref\<rparr> else s) (db_sessions db),
       db_turns := map (\<lambda>t. if tu_id t = turn then t\<lparr>tu_native := Some ref\<rparr> else t) (db_turns db)\<rparr>))"

definition start_cleanup :: "('a engine_env_scheme) \<Rightarrow> str \<Rightarrow> engine_db \<Rightarrow> (engine_exn + unit) \<times> engine_db" where
  "start_cleanup env turn =
     transaction (\<lambda>db. Inr ((), update_life (\<lambda>l. lc_turn l = turn \<and> lc_owner l = ee_epoch env) (\<lambda>l. l\<lparr>lc_cleanup := KRunning\<rparr>) db))"

text \<open>
  The cleanup report a turn ends with. Closing the adapter or the backend gives a report, no report,
  or an exception (by name); a backend may be absent or have no \<open>close\<close>.
\<close>

datatype close_result = Reported jdict | NoReport | Raised str

definition report_status :: "jdict \<Rightarrow> cleanup_status option" where
  "report_status r = (case jget r ''state'' of
     JStr s \<Rightarrow> if s = ''clean'' then Some KClean else if s = ''residual'' then Some KResidual
       else if s = ''unknown'' then Some KUnknown else if s = ''running'' then Some KRunning
       else if s = ''pending'' then Some KPending else None
   | _ \<Rightarrow> None)"

text \<open>The check on \<open>cleanup_state\<close> refuses a report of any other state.\<close>

definition set_cleanup ::
    "(lifecycle_row \<Rightarrow> bool) \<Rightarrow> jdict \<Rightarrow> (lifecycle_row \<Rightarrow> lifecycle_row) \<Rightarrow> engine_db \<Rightarrow> engine_exn + engine_db" where
  "set_cleanup P cleanup f db =
     (case report_status cleanup of
        None \<Rightarrow> guard (\<exists>l\<in>set (db_life db). P l) (IntegrityError ''CHECK constraint failed: cleanup_state'') (Inr db)
      | Some k \<Rightarrow> Inr (update_life P (\<lambda>l. f (l\<lparr>lc_cleanup := k, lc_report := Some (sort_tree (JObj cleanup))\<rparr>)) db))"

definition known_report :: "jdict \<Rightarrow> bool" where
  "known_report r \<longleftrightarrow> jget r ''state'' \<in> {JStr ''clean'', JStr ''residual'', JStr ''unknown''}"

definition backend_cleanup :: "str \<Rightarrow> close_result option \<Rightarrow> jdict \<Rightarrow> jdict" where
  "backend_cleanup mode backend cleanup =
     (case backend of
        Some (Reported r) \<Rightarrow> if known_report r then r
          else [(''state'', JStr ''unknown''), (''reason'', JStr ''invalid_backend_cleanup_report'')]
      | Some NoReport \<Rightarrow> [(''state'', JStr ''unknown''), (''reason'', JStr ''invalid_backend_cleanup_report'')]
      | Some (Raised e) \<Rightarrow> [(''state'', JStr ''unknown''), (''reason'', JStr e)]
      | None \<Rightarrow> if mode \<noteq> ''local-trusted'' \<and> \<not> json_truthy (jget cleanup ''reports'')
          then [(''state'', JStr ''unknown''), (''reason'', JStr ''native_cleanup_observation_unavailable'')] else cleanup)"

definition merged_cleanup :: "str \<Rightarrow> close_result option \<Rightarrow> close_result option \<Rightarrow> jdict \<Rightarrow> jdict" where
  "merged_cleanup mode adapter backend cleanup =
     (let runtime = (case adapter of Some (Reported r) \<Rightarrow> if r \<noteq> [] \<and> jget r ''state'' \<noteq> JStr ''clean'' then Some r else None | _ \<Rightarrow> None);
          model_error = (case adapter of Some (Raised e) \<Rightarrow> JStr e
            | _ \<Rightarrow> (case runtime of Some r \<Rightarrow> jget r ''model_cleanup_error'' | None \<Rightarrow> JNull));
          cleanup = backend_cleanup mode backend cleanup in
      if json_truthy model_error then [(''state'', JStr ''unknown''), (''model_cleanup_error'', model_error), (''backend'', JObj cleanup)]
      else case runtime of
          Some r \<Rightarrow> [(''state'', JStr ''unknown''), (''runtime'', JObj r), (''backend'', JObj cleanup)]
        | None \<Rightarrow> cleanup)"

definition settled_outcome :: "jdict \<Rightarrow> str \<times> str \<Rightarrow> str \<times> str" where
  "settled_outcome cleanup = (\<lambda>(outcome, reason).
     if (outcome = ''cancelled'' \<or> outcome = ''timed_out'') \<and> jget cleanup ''state'' \<noteq> JStr ''clean''
     then (''indeterminate'', ''cancellation_cleanup_unconfirmed'') else (outcome, reason))"

definition retain_for_recovery :: "str \<Rightarrow> str \<Rightarrow> jdict \<Rightarrow> engine_db \<Rightarrow> (engine_exn + unit) \<times> engine_db" where
  "retain_for_recovery work turn cleanup =
     transaction (\<lambda>db.
       rbind (update_work (\<lambda>w. wk_id w = work) (\<lambda>w. w\<lparr>wk_state := WReconciling, wk_version := wk_version w + 1\<rparr>) db) (\<lambda>db.
       rbind (update_turns (\<lambda>t. tu_id t = turn) TReconciling None db) (\<lambda>db.
       rbind (set_cleanup (\<lambda>l. lc_turn l = turn) cleanup (\<lambda>l. l\<lparr>lc_cancel := CIndeterminate\<rparr>) db) (\<lambda>db.
       Inr ((), db)))))"

record native_result =
  nr_status :: str
  nr_value :: json

definition finish_body ::
    "('a engine_env_scheme) \<Rightarrow> work_row \<Rightarrow> turn_row \<Rightarrow> str \<Rightarrow> str \<Rightarrow> native_result option \<Rightarrow> jdict \<Rightarrow> unit db_step" where
  "finish_body env work turn outcome reason result cleanup db =
     (let mine = (\<lambda>w. wk_id w = wk_id work \<and> wk_version w = wk_version work \<and> wk_owner w = Some (ee_epoch env) \<and> active w) in
      guard (\<not> (\<exists>w\<in>set (db_work db). mine w)) (indeterminate ''Execution ownership changed'')
      (rbind (update_work mine (\<lambda>w. w\<lparr>wk_state := WFinished, wk_version := wk_version w + 1\<rparr>) db) (\<lambda>db.
       rbind (update_turns (\<lambda>t. tu_id t = tu_id turn) TFinished (Some outcome) db) (\<lambda>db.
       guard (tu_id turn \<in> fst ` set (db_results db)) (IntegrityError ''UNIQUE constraint failed: turn_results.turn_id'')
       (let db = db\<lparr>db_results := db_results db @ [(tu_id turn, case result of None \<Rightarrow> JNull | Some r \<Rightarrow> sort_tree (nr_value r))]\<rparr>;
            requested = (case find_opt (\<lambda>l. lc_turn l = tu_id turn) (db_life db) of Some l \<Rightarrow> lc_cancel l = CRequested | None \<Rightarrow> False);
            cleanup = (if cleanup = [] then [(''state'', JStr ''unknown''), (''reason'', JStr ''cleanup_unobserved'')] else cleanup);
            confirmed = (requested \<and> outcome \<noteq> ''indeterminate'' \<and> jget cleanup ''state'' = JStr ''clean'') in
        rbind (set_cleanup (\<lambda>l. lc_turn l = tu_id turn \<and> lc_owner l = ee_epoch env) cleanup
              (\<lambda>l. l\<lparr>lc_cancel := (if confirmed then CConfirmed else if requested then CIndeterminate else CNone),
                 lc_finished := Some (utc_now env db)\<rparr>) (tick db)) (\<lambda>db.
        rbind (if confirmed then rbind (turn_event env ''cancellation.confirmed'' (tu_id turn)
             [(''original_turn_id'', JStr (tu_id turn)), (''original_attempt_id'', JNull), (''unknown_side_effects'', JBool False),
              (''reason'', JStr reason), (''cleanup_state'', JStr ''clean'')] db) (\<lambda>(_, db). Inr db) else Inr db) (\<lambda>db.
        rbind (turn_event env ''turn.finished'' (tu_id turn)
             [(''configuration'', tu_config turn), (''outcome'', JStr outcome),
              (''native_outcome'', opt_json (map_option nr_status result)), (''reason'', JStr reason),
              (''budget_summary'', budget_summary JNull JNull JNull)] db) (\<lambda>(_, db).
        Inr ((), db)))))))))"

definition finish_turn ::
    "('a engine_env_scheme) \<Rightarrow> work_row \<Rightarrow> turn_row \<Rightarrow> str \<Rightarrow> str \<Rightarrow> native_result option \<Rightarrow> jdict \<Rightarrow> engine_db \<Rightarrow> (engine_exn + unit) \<times> engine_db" where
  "finish_turn env work turn outcome reason result cleanup =
     transaction (finish_body env work turn outcome reason result cleanup)"

section \<open>Cancellation\<close>

definition cancel_attributes :: "str \<Rightarrow> json \<Rightarrow> bool \<Rightarrow> jdict" where
  "cancel_attributes turn reason queued =
     [(''original_turn_id'', JStr turn), (''original_attempt_id'', JNull), (''unknown_side_effects'', JBool (\<not> queued)),
      (''reason'', reason), (''cleanup_state'', JStr (if queued then ''clean'' else ''pending''))]"

definition turn_status_text :: "turn_status \<Rightarrow> str" where
  "turn_status_text s = (case s of TQueued \<Rightarrow> ''queued'' | TRunning \<Rightarrow> ''running'' | TAwaiting \<Rightarrow> ''awaiting_approval''
     | TCancelRequested \<Rightarrow> ''cancel_requested'' | TReconciling \<Rightarrow> ''reconciling'' | TFinished \<Rightarrow> ''finished'')"

text \<open>The state changes of the two cases in which there is something to cancel.\<close>

definition cancel_rows :: "turn_row \<Rightarrow> engine_db \<Rightarrow> engine_exn + engine_db" where
  "cancel_rows t db =
     (case work_for db (tu_id t) of
        None \<Rightarrow> Inl (StoreRuntime ''NoneType object is not subscriptable'')
      | Some w \<Rightarrow>
          if tu_state t = TQueued then
            rbind (update_turns (\<lambda>u. tu_id u = tu_id t) TFinished (Some ''cancelled'') db) (\<lambda>db.
            update_work (\<lambda>v. wk_id v = wk_id w) (\<lambda>v. v\<lparr>wk_state := WFinished, wk_version := wk_version v + 1\<rparr>) db)
          else
            rbind (update_turns (\<lambda>u. tu_id u = tu_id t) TCancelRequested None db) (\<lambda>db.
            update_work (\<lambda>v. wk_id v = wk_id w) (\<lambda>v. v\<lparr>wk_state := WCancelRequested\<rparr>) db))"

definition cancel_effects :: "('a engine_env_scheme) \<Rightarrow> turn_row \<Rightarrow> json \<Rightarrow> engine_db \<Rightarrow> engine_exn + engine_db" where
  "cancel_effects env t reason db =
     (let queued = (tu_state t = TQueued);
          db = upsert_life
            \<lparr>lc_turn = tu_id t, lc_owner = ee_epoch env, lc_agent_deadline = None, lc_grader_deadline = None, lc_env_deadline = None,
             lc_cancel = (if queued then CConfirmed else CRequested), lc_cleanup = (if queued then KClean else KPending),
             lc_report = None, lc_finished = None\<rparr>
            (\<lambda>l. l\<lparr>lc_cancel := (if queued then CConfirmed else CRequested)\<rparr>) db;
          attributes = cancel_attributes (tu_id t) reason queued in
      rbind (turn_event env ''cancellation.requested'' (tu_id t) attributes db) (\<lambda>(_, db).
      if queued then
        (let db = update_life (\<lambda>l. lc_turn l = tu_id t)
             (\<lambda>l. l\<lparr>lc_report := Some (JObj [(''resources'', JObj []), (''scope'', JStr ''not_dispatched''), (''state'', JStr ''clean'')]),
                lc_finished := Some (utc_now env db)\<rparr>) (tick db) in
         rbind (turn_event env ''cancellation.confirmed'' (tu_id t) attributes db) (\<lambda>(_, db).
         rbind (turn_event env ''turn.finished'' (tu_id t)
             [(''configuration'', tu_config t), (''outcome'', JStr ''cancelled''), (''native_outcome'', JNull),
              (''reason'', JStr ''cancelled_before_dispatch''), (''budget_summary'', budget_summary JNull JNull JNull)] db) (\<lambda>(_, db).
         Inr db)))
      else Inr db))"

definition cancel_body :: "('a engine_env_scheme) \<Rightarrow> str \<Rightarrow> jdict \<Rightarrow> str \<Rightarrow> jdict db_step" where
  "cancel_body env profile params hash db =
     (let turn = jstr (jget params ''turn_id''); method = ''session.cancel_turn'' in
      rbind (existing_action profile method (jstr (jget params ''client_action_id'')) hash db) (\<lambda>existing.
      case existing of
        Some r \<Rightarrow> Inr (r, db)
      | None \<Rightarrow>
        (case turn_of db turn of
           None \<Rightarrow> Inl (not_found ''Turn not found'')
         | Some t \<Rightarrow>
           rbind (if tu_state t \<in> {TQueued, TRunning, TAwaiting}
              then rbind (cancel_rows t db) (cancel_effects env t (jget params ''reason'')) else Inr db) (\<lambda>db.
           case turn_of db turn of
             None \<Rightarrow> Inl (not_found ''Turn not found'')
           | Some now \<Rightarrow>
               (let result = [(''turn_id'', JStr turn), (''state'', JStr (turn_status_text (tu_state now))),
                    (''outcome'', opt_json (tu_outcome now)), (''accepted'', JBool True), (''reused_existing_action'', JBool False)] in
                rbind (record_action env profile method (jstr (jget params ''client_action_id'')) hash result db) (\<lambda>db.
                Inr (result, db)))))))"

definition cancel_turn :: "('a engine_env_scheme) \<Rightarrow> str \<Rightarrow> jdict \<Rightarrow> engine_db \<Rightarrow> (engine_exn + jdict) \<times> engine_db" where
  "cancel_turn env profile params db =
     (case rbind (validate env ''session.cancel_turn.request'' (JObj params)) (\<lambda>_. canonical_hash env (JObj params)) of
        Inl e \<Rightarrow> (Inl e, db)
      | Inr hash \<Rightarrow> transaction (cancel_body env profile params hash) db)"

section \<open>A new engine process\<close>

text \<open>What an earlier process left running is set aside for reconciliation, never started again.\<close>

definition abandon_work :: "('a engine_env_scheme) \<Rightarrow> engine_db \<Rightarrow> engine_exn + engine_db" where
  "abandon_work env db =
     rbind (update_work (\<lambda>w. active w \<and> foreign_owner env w)
       (\<lambda>w. w\<lparr>wk_state := WReconciling, wk_version := wk_version w + 1\<rparr>) db) (\<lambda>db.
     update_turns (\<lambda>t. (\<exists>w\<in>set (db_work db). wk_state w = WReconciling \<and> wk_kind w = ''turn'' \<and> wk_business w = tu_id t)
       \<and> tu_state t \<noteq> TFinished) TReconciling None db)"

definition reconciling_attempt :: "engine_db \<Rightarrow> attempt_row \<Rightarrow> bool" where
  "reconciling_attempt db a \<longleftrightarrow> (\<exists>w\<in>set (db_work db). wk_id w = at_work a \<and> wk_state w = WReconciling)"

definition abandon_attempts :: "engine_db \<Rightarrow> engine_db" where
  "abandon_attempts db =
     (let db = db\<lparr>db_attempts := map (\<lambda>a. if \<exists>w\<in>set (db_work db). wk_kind w = ''attempt'' \<and> wk_state w = WReconciling \<and> wk_business w = at_id a
          then a\<lparr>at_cleanup := KUnknown\<rparr> else a) (db_attempts db)\<rparr> in
      db\<lparr>db_runs := map (\<lambda>r. if \<exists>t\<in>set (db_trials db). tl_run t = rn_id r
              \<and> (\<exists>a\<in>set (db_attempts db). at_trial a = tl_id t \<and> reconciling_attempt db a)
          then r\<lparr>rn_state := ''indeterminate''\<rparr> else r) (db_runs db)\<rparr>)"

definition recover_attempt :: "('a engine_env_scheme) \<Rightarrow> engine_db \<Rightarrow> attempt_row \<Rightarrow> engine_exn + engine_db" where
  "recover_attempt env db a =
     (case find_opt (\<lambda>t. tl_id t = at_trial a) (db_trials db) of
        None \<Rightarrow> Inr db
      | Some t \<Rightarrow>
          (let trace = hex_id env db; db1 = tick db; span = take 16 (hex_id env db1); db2 = tick db1 in
           guard (\<exists>v\<in>set (db_attempt_recoveries db). av_attempt v = at_id a \<and> av_epoch v = ee_epoch env)
             (IntegrityError ''UNIQUE constraint failed: attempt_recovery'')
           (rbind (emit_event env ''recovery.started''
               [(''original_turn_id'', JNull), (''original_attempt_id'', JStr (at_id a)), (''unknown_side_effects'', JBool True),
                (''reason'', JStr ''previous_engine_exited''), (''cleanup_state'', JStr ''unknown''),
                (''trace_links'', JList (case at_trace a of None \<Rightarrow> []
                   | Some tr \<Rightarrow> if tr = [] then [] else [JObj [(''trace_id'', JStr tr), (''span_id'', opt_json (at_span a))]]))]
               [(''run_id'', JStr (tl_run t)), (''trial_id'', JStr (tl_id t)), (''attempt_id'', JStr (at_id a)),
                (''trace_id'', JStr trace), (''span_id'', JStr span)]
               (db2\<lparr>db_attempt_recoveries := db_attempt_recoveries db2 @
                     [\<lparr>av_attempt = at_id a, av_epoch = ee_epoch env, av_trace = trace, av_span = span, av_original = at_trace a\<rparr>],
                  db_attempts := map (\<lambda>b. if at_id b = at_id a then b\<lparr>at_recovery := Some trace\<rparr> else b) (db_attempts db2)\<rparr>))
             (\<lambda>(_, db). Inr db))))"

definition recover_turn :: "('a engine_env_scheme) \<Rightarrow> engine_db \<Rightarrow> str \<Rightarrow> engine_exn + engine_db" where
  "recover_turn env db turn =
     (let trace = hex_id env db; db1 = tick db; span = take 16 (hex_id env db1);
          row = \<lparr>rv_turn = turn, rv_epoch = ee_epoch env, rv_trace = trace, rv_span = span,
                 rv_original = map_option tt_trace (trace_of db turn)\<rparr> in
      guard (\<exists>r\<in>set (db_recoveries db). rv_turn r = turn \<and> rv_epoch r = ee_epoch env)
        (IntegrityError ''UNIQUE constraint failed: recovery_traces'')
      (rbind (recovery_event env ''recovery.started'' turn ''previous_engine_exited''
         ((tick db1)\<lparr>db_recoveries := db_recoveries db @ [row]\<rparr>)) (\<lambda>(_, db). Inr db)))"

definition open_body :: "('a engine_env_scheme) \<Rightarrow> unit db_step" where
  "open_body env db =
     (let db = (if db_producer db = [] then (tick db)\<lparr>db_producer := new_id env ''producer'' db\<rparr> else db) in
      rbind (abandon_work env db) (\<lambda>db.
      let db = abandon_attempts db in
      rbind (rfold (recover_attempt env) db (filter (reconciling_attempt db) (db_attempts db))) (\<lambda>db.
      let db = update_life (\<lambda>l. lc_owner l \<noteq> ee_epoch env \<and> (lc_cleanup l = KPending \<or> lc_cleanup l = KRunning))
           (\<lambda>l. l\<lparr>lc_cleanup := KUnknown, lc_cancel := CIndeterminate\<rparr>) db in
      rbind (rfold (recover_turn env) db
         (map wk_business (filter (\<lambda>w. wk_kind w = ''turn'' \<and> wk_state w = WReconciling) (db_work db)))) (\<lambda>db.
      Inr ((), db)))))"

definition open_store :: "('a engine_env_scheme) \<Rightarrow> engine_db \<Rightarrow> (engine_exn + unit) \<times> engine_db" where
  "open_store env db = (if db_read_only db then (Inr (), db) else transaction (open_body env) db)"

end
