(* ===== verification/Engine_Attempts.thy ===== *)
theory Engine_Attempts
  imports Engine_Turns
begin

text \<open>
  \<open>EvaluationScheduler\<close> of \<open>benchmark/core/scheduler.py\<close>: the attempts of an evaluation run are
  work items of the same single worker as the turns. The bodies that the callers run inside their
  own transaction are steps on the database; \<open>claim\<close>, \<open>heartbeat\<close>, \<open>finish\<close> and \<open>reconcile\<close> are
  transactions of their own. The asyncio task of an executor is not part of the model.
\<close>

definition INFRASTRUCTURE_ERRORS :: "str list" where
  "INFRASTRUCTURE_ERRORS = [''runner_unavailable'', ''runner_crash'', ''environment_setup'', ''provider_unavailable'', ''grader_infrastructure'']"

definition update_attempts :: "(attempt_row \<Rightarrow> bool) \<Rightarrow> (attempt_row \<Rightarrow> attempt_row) \<Rightarrow> engine_db \<Rightarrow> engine_db" where
  "update_attempts P f db = db\<lparr>db_attempts := map (\<lambda>a. if P a then f a else a) (db_attempts db)\<rparr>"

definition set_run_state :: "str \<Rightarrow> str \<Rightarrow> engine_db \<Rightarrow> engine_db" where
  "set_run_state run state db = db\<lparr>db_runs := map (\<lambda>r. if rn_id r = run then r\<lparr>rn_state := state\<rparr> else r) (db_runs db)\<rparr>"

definition run_of :: "str \<Rightarrow> engine_db \<Rightarrow> str \<Rightarrow> engine_exn + run_row" where
  "run_of profile db run =
     (case find_opt (\<lambda>r. rn_id r = run \<and> rn_profile r = profile) (db_runs db) of
        None \<Rightarrow> Inl (not_found ''Evaluation run not found in this profile'')
      | Some r \<Rightarrow> Inr r)"

definition queue_attempt :: "('a engine_env_scheme) \<Rightarrow> str \<Rightarrow> jdict db_step" where
  "queue_attempt env trial db =
     (let number = foldr (\<lambda>a m. max (at_number a) m) (filter (\<lambda>a. at_trial a = trial) (db_attempts db)) 0 + 1;
          attempt = new_id env ''attempt'' db; db1 = tick db; work = new_id env ''work'' db1; db2 = tick db1 in
      guard (attempt \<in> at_id ` set (db_attempts db)) (IntegrityError ''UNIQUE constraint failed: attempts.id'')
      (rbind (insert_work \<lparr>wk_id = work, wk_kind = ''attempt'', wk_business = attempt, wk_state = WQueued, wk_owner = None,
           wk_deadline = None, wk_version = 0\<rparr>
         (db2\<lparr>db_attempts := db_attempts db @ [\<lparr>at_id = attempt, at_trial = trial, at_number = number, at_state = XQueued,
           at_error = None, at_cleanup = KPending, at_work = work, at_owner = None, at_heartbeat = None, at_started = None,
           at_ended = None, at_elapsed = None, at_start_ns = 0, at_trace = None, at_span = None, at_outcome = None,
           at_grade = None, at_reason = None, at_deadline = None, at_recovery = None\<rparr>]\<rparr>)) (\<lambda>db.
       Inr ([(''attempt_id'', JStr attempt), (''work_item_id'', JStr work), (''state'', JStr ''queued''), (''reused_existing_action'', JBool False)],
         db\<lparr>db_trials := map (\<lambda>t. if tl_id t = trial then t\<lparr>tl_selected := Some attempt\<rparr> else t) (db_trials db)\<rparr>))))"

text \<open>\<open>_row\<close>: the work item with its attempt and its trial.\<close>

definition attempt_work :: "engine_db \<Rightarrow> str \<Rightarrow> engine_exn + work_row \<times> attempt_row \<times> trial_row" where
  "attempt_work db work =
     (case find_opt (\<lambda>w. wk_id w = work \<and> wk_kind w = ''attempt'') (db_work db) of
        None \<Rightarrow> Inl (not_found ''Evaluation work item not found'')
      | Some w \<Rightarrow>
          (case find_opt (\<lambda>a. at_id a = wk_business w) (db_attempts db) of
             None \<Rightarrow> Inl (not_found ''Evaluation work item not found'')
           | Some a \<Rightarrow>
               (case find_opt (\<lambda>t. tl_id t = at_trial a) (db_trials db) of
                  None \<Rightarrow> Inl (not_found ''Evaluation work item not found'')
                | Some t \<Rightarrow> Inr (w, a, t))))"

definition cancel_queued :: "('a engine_env_scheme) \<Rightarrow> work_row \<Rightarrow> json \<Rightarrow> str \<Rightarrow> engine_db \<Rightarrow> engine_exn + engine_db" where
  "cancel_queued env w reason outcome db =
     update_work (\<lambda>v. wk_id v = wk_id w) (\<lambda>v. v\<lparr>wk_state := WFinished, wk_version := wk_version v + 1\<rparr>)
       (update_attempts (\<lambda>a. at_id a = wk_business w)
         (\<lambda>a. a\<lparr>at_state := XCancelled, at_cleanup := KClean, at_ended := Some (utc_now env db), at_elapsed := Some 0,
            at_outcome := Some outcome, at_reason := json_str_opt reason\<rparr>) (tick db))"

definition run_work :: "engine_db \<Rightarrow> str \<Rightarrow> work_row list" where
  "run_work db run = filter (\<lambda>w. \<exists>a\<in>set (db_attempts db). at_id a = wk_business w
     \<and> (\<exists>t\<in>set (db_trials db). tl_id t = at_trial a \<and> tl_run t = run)) (db_work db)"

definition run_errors :: "engine_db \<Rightarrow> str \<Rightarrow> bool" where
  "run_errors db run \<longleftrightarrow> (\<exists>t\<in>set (db_trials db). tl_run t = run \<and> (\<exists>a\<in>set (db_attempts db). tl_selected t = Some (at_id a)
     \<and> (at_state a = XBlocked \<or> at_state a = XError
        \<or> (\<exists>g\<in>set (db_grades db). at_grade a = Some (gr_id g) \<and> gr_state g = ''grader_error''))))"

definition settle_run :: "str \<Rightarrow> str \<Rightarrow> engine_db \<Rightarrow> engine_exn + engine_db" where
  "settle_run profile run db =
     (let states = map wk_state (run_work db run) in
      rbind (run_of profile db run) (\<lambda>r.
      if WReconciling \<in> set states then Inr (set_run_state run ''indeterminate'' db)
      else if \<exists>s\<in>set states. s \<in> {WQueued, WRunning, WCancelRequested} then Inr db
      else if rn_state r = ''cancel_requested'' then Inr (set_run_state run ''cancelled'' db)
      else if states \<noteq> [] then Inr (set_run_state run (if run_errors db run then ''failed'' else ''completed'') db)
      else Inr (set_run_state run (rn_state r) db)))"

definition jnum :: "json \<Rightarrow> pyfloat" where
  "jnum v = (case v of JInt i \<Rightarrow> of_int i | JFloat q \<Rightarrow> q | _ \<Rightarrow> 0)"

definition spent_ns :: "engine_db \<Rightarrow> str \<Rightarrow> nat" where
  "spent_ns db trial = sum_list (map (\<lambda>a. case at_elapsed a of None \<Rightarrow> 0 | Some n \<Rightarrow> n) (filter (\<lambda>a. at_trial a = trial) (db_attempts db)))"

definition attempt_duration :: "engine_db \<Rightarrow> jdict \<Rightarrow> str \<Rightarrow> pyfloat" where
  "attempt_duration db spec trial =
     (let budget = jobj (jget spec ''budget'') in
      min (jnum (jget budget ''attempt_wall_seconds''))
        (jnum (jget budget ''trial_wall_seconds'') - of_nat (spent_ns db trial) / 1000000000))"

definition claim_attempt_body ::
    "('a engine_env_scheme) \<Rightarrow> str \<Rightarrow> (pyfloat \<Rightarrow> str) \<Rightarrow> str \<Rightarrow> nat \<Rightarrow> pyfloat option db_step" where
  "claim_attempt_body env profile expires work version db =
     guard (cleanup_blocked env db) (indeterminate ''Previous cleanup remains unconfirmed'')
     (guard (any_work [WRunning, WReconciling] db) (indeterminate ''Another execution owns the local worker'')
     (rbind (attempt_work db work) (\<lambda>(w, a, t).
      rbind (run_of profile db (tl_run t)) (\<lambda>run.
      guard (wk_state w \<noteq> WQueued \<or> wk_version w \<noteq> version \<or> rn_state run \<notin> {''queued'', ''running''}) (stale ''Evaluation claim changed'')
      (let duration = attempt_duration db (jobj (rn_spec run)) (at_trial a) in
       if duration \<le> 0 then
         rbind (cancel_queued env w (JStr ''trial_wall_budget_exhausted'') ''budget_exhausted'' db) (\<lambda>db.
         rbind (settle_run profile (tl_run t) db) (\<lambda>db. Inr (None, db)))
       else
         (let deadline = expires duration; trace = hex_id env db; db1 = tick db; span = take 16 (hex_id env db1); db2 = tick db1; now = utc_now env db2 in
          rbind (update_work (\<lambda>v. wk_id v = work)
            (\<lambda>v. v\<lparr>wk_state := WRunning, wk_owner := Some (ee_epoch env), wk_deadline := Some deadline, wk_version := wk_version v + 1\<rparr>) (tick db2)) (\<lambda>db.
          rbind (emit_event env ''attempt.started''
              [(''attempt_id'', JStr (at_id a)), (''attempt_no'', JInt (int (at_number a))), (''configuration'', rn_config run)]
              [(''run_id'', JStr (tl_run t)), (''trial_id'', JStr (tl_id t)), (''attempt_id'', JStr (at_id a)), (''trace_id'', JStr trace), (''span_id'', JStr span)]
              (set_run_state (tl_run t) ''running'' (update_attempts (\<lambda>b. at_id b = wk_business w)
                (\<lambda>b. b\<lparr>at_state := XRunning, at_owner := Some (ee_epoch env), at_heartbeat := Some now, at_started := Some now,
                   at_trace := Some trace, at_span := Some span, at_deadline := Some deadline, at_start_ns := ee_ns env (db_tick db2)\<rparr>) db)))
            (\<lambda>(_, db). Inr (Some duration, db)))))))))"

definition claim_attempt ::
    "('a engine_env_scheme) \<Rightarrow> str \<Rightarrow> (pyfloat \<Rightarrow> str) \<Rightarrow> str \<Rightarrow> nat \<Rightarrow> engine_db \<Rightarrow> (engine_exn + pyfloat option) \<times> engine_db" where
  "claim_attempt env profile expires work version = transaction (claim_attempt_body env profile expires work version)"

definition owned :: "('a engine_env_scheme) \<Rightarrow> engine_db \<Rightarrow> str \<Rightarrow> str \<Rightarrow> nat \<Rightarrow> engine_exn + work_row \<times> attempt_row \<times> trial_row" where
  "owned env db work owner version =
     rbind (attempt_work db work) (\<lambda>(w, a, t).
     guard (owner \<noteq> ee_epoch env \<or> wk_owner w \<noteq> Some owner \<or> wk_version w \<noteq> version \<or> \<not> active w)
       (indeterminate ''Evaluation owner epoch or version expired'') (Inr (w, a, t)))"

definition attempt_event :: "('a engine_env_scheme) \<Rightarrow> str \<Rightarrow> jdict \<Rightarrow> attempt_row \<Rightarrow> trial_row \<Rightarrow> engine_db \<Rightarrow> engine_exn + engine_db" where
  "attempt_event env kind attributes a t db =
     rbind (emit_event env kind attributes
       [(''run_id'', JStr (tl_run t)), (''trial_id'', JStr (tl_id t)), (''attempt_id'', JStr (at_id a)),
        (''trace_id'', opt_json (at_trace a)), (''span_id'', opt_json (at_span a))] db) (\<lambda>(_, db). Inr db)"

definition heartbeat :: "('a engine_env_scheme) \<Rightarrow> str \<Rightarrow> str \<Rightarrow> nat \<Rightarrow> engine_db \<Rightarrow> (engine_exn + unit) \<times> engine_db" where
  "heartbeat env work owner version =
     transaction (\<lambda>db. rbind (owned env db work owner version) (\<lambda>(w, a, t).
       rbind (attempt_event env ''attempt.heartbeat''
           [(''attempt_id'', JStr (at_id a)), (''owner_epoch'', JStr owner), (''heartbeat_at_utc'', JStr (utc_now env db))] a t
           (update_attempts (\<lambda>b. at_id b = wk_business w) (\<lambda>b. b\<lparr>at_heartbeat := Some (utc_now env db)\<rparr>) (tick db)))
         (\<lambda>db. Inr ((), db))))"

record attempt_end =
  ae_state :: exec_state
  ae_cleanup :: cleanup_status
  ae_outcome :: "str option"
  ae_error :: "str option"
  ae_reason :: "str option"
  ae_grade :: "str option"

definition exec_text :: "exec_state \<Rightarrow> str" where
  "exec_text x = (case x of XPlanned \<Rightarrow> ''planned'' | XQueued \<Rightarrow> ''queued'' | XRunning \<Rightarrow> ''running'' | XFinished \<Rightarrow> ''finished''
     | XCancelled \<Rightarrow> ''cancelled'' | XError \<Rightarrow> ''error'' | XBlocked \<Rightarrow> ''blocked'')"

definition cleanup_text :: "cleanup_status \<Rightarrow> str" where
  "cleanup_text k = (case k of KPending \<Rightarrow> ''pending'' | KRunning \<Rightarrow> ''running'' | KClean \<Rightarrow> ''clean'' | KResidual \<Rightarrow> ''residual'' | KUnknown \<Rightarrow> ''unknown'')"

definition checked_end :: "attempt_end \<Rightarrow> engine_exn + attempt_end" where
  "checked_end e =
     guard (ae_state e \<notin> {XFinished, XCancelled, XError, XBlocked} \<or> ae_cleanup e \<notin> {KClean, KResidual, KUnknown})
       (invalid_params ''Attempt terminal execution or cleanup state is invalid'')
     (guard (\<exists>o'. ae_outcome e = Some o' \<and> o' \<notin> {''completed'', ''failed'', ''cancelled'', ''timed_out'', ''budget_exhausted'', ''blocked'', ''indeterminate''})
       (invalid_params ''Agent outcome is invalid'')
     (guard (\<exists>x. ae_error e = Some x \<and> x \<noteq> ''task_logic'' \<and> x \<notin> set INFRASTRUCTURE_ERRORS)
       (invalid_params ''Attempt error origin is invalid'')
     (Inr (if ae_state e = XCancelled \<and> ae_cleanup e \<noteq> KClean
        then e\<lparr>ae_state := XError, ae_outcome := Some ''indeterminate'', ae_error := Some ''runner_crash'',
          ae_reason := Some ''Cancellation cleanup is unconfirmed; result retained without replay''\<rparr> else e))))"

definition authoritative_grade :: "engine_db \<Rightarrow> str \<Rightarrow> str option \<Rightarrow> engine_exn + grade_row option" where
  "authoritative_grade db attempt gid =
     (case gid of
        None \<Rightarrow> Inr None
      | Some i \<Rightarrow> if i = [] then Inr None else
         (case find_opt (\<lambda>g. gr_id g = i \<and> gr_attempt g = attempt) (db_grades db) of
            None \<Rightarrow> Inl (ContractError ''UNAUTHORIZED'' ''Authoritative grade belongs to another attempt'')
          | Some g \<Rightarrow>
              guard (gr_state g = ''graded'' \<and> gr_result g \<noteq> Some ''pass'' \<and> gr_result g \<noteq> Some ''fail'')
                (invalid_params ''A graded result requires an independently normalized pass or fail'')
              (guard (gr_state g = ''grading'' \<or> (gr_state g = ''grader_error'' \<and> gr_result g \<noteq> None))
                (invalid_params ''Terminal grade state or result is inconsistent'') (Inr (Some g)))))"

definition finish_attempt_body ::
    "('a engine_env_scheme) \<Rightarrow> str \<Rightarrow> str \<Rightarrow> str \<Rightarrow> nat \<Rightarrow> attempt_end \<Rightarrow> unit db_step" where
  "finish_attempt_body env profile work owner version e db =
     rbind (owned env db work owner version) (\<lambda>(w, a, t).
     rbind (authoritative_grade db (at_id a) (ae_grade e)) (\<lambda>grade.
     let elapsed = ee_ns env (db_tick db) - at_start_ns a;
         db = update_attempts (\<lambda>b. at_id b = wk_business w)
           (\<lambda>b. b\<lparr>at_state := ae_state e, at_error := ae_error e, at_cleanup := ae_cleanup e, at_ended := Some (utc_now env db),
              at_elapsed := Some elapsed, at_outcome := ae_outcome e, at_grade := ae_grade e, at_reason := ae_reason e\<rparr>) (tick db) in
     rbind (update_work (\<lambda>v. wk_id v = work)
         (\<lambda>v. v\<lparr>wk_state := (if ae_cleanup e = KClean then WFinished else WReconciling), wk_version := wk_version v + 1\<rparr>) db) (\<lambda>db.
     rbind (attempt_event env ''attempt.finished''
         [(''attempt_id'', JStr (at_id a)), (''execution_state'', JStr (exec_text (ae_state e))), (''cleanup_state'', JStr (cleanup_text (ae_cleanup e))),
          (''agent_outcome'', opt_json (ae_outcome e)), (''error_origin'', opt_json (ae_error e)),
          (''grade_state'', JStr (case grade of None \<Rightarrow> ''unscored'' | Some g \<Rightarrow> gr_state g)), (''grade_id'', opt_json (ae_grade e)),
          (''reason'', opt_json (ae_reason e))] a t db) (\<lambda>db.
     rbind (settle_run profile (tl_run t) db) (\<lambda>db. Inr ((), db))))))"

definition finish_attempt ::
    "('a engine_env_scheme) \<Rightarrow> str \<Rightarrow> str \<Rightarrow> str \<Rightarrow> nat \<Rightarrow> attempt_end \<Rightarrow> engine_db \<Rightarrow> (engine_exn + unit) \<times> engine_db" where
  "finish_attempt env profile work owner version e db =
     (case checked_end e of
        Inl x \<Rightarrow> (Inl x, db)
      | Inr e \<Rightarrow> transaction (finish_attempt_body env profile work owner version e) db)"

definition cancel_attempt :: "('a engine_env_scheme) \<Rightarrow> json \<Rightarrow> engine_db \<Rightarrow> str \<Rightarrow> engine_exn + engine_db" where
  "cancel_attempt env reason db work =
     rbind (attempt_work db work) (\<lambda>(w, a, t).
     if wk_state w = WQueued then cancel_queued env w reason ''cancelled'' db
     else update_work (\<lambda>v. wk_id v = wk_id w) (\<lambda>v. v\<lparr>wk_state := WCancelRequested\<rparr>) db)"

definition cancel_run :: "('a engine_env_scheme) \<Rightarrow> str \<Rightarrow> str \<Rightarrow> json \<Rightarrow> engine_db \<Rightarrow> engine_exn + engine_db" where
  "cancel_run env profile run reason db =
     rbind (rfold (cancel_attempt env reason) db
       (map wk_id (filter (\<lambda>w. wk_state w = WQueued \<or> wk_state w = WRunning) (run_work db run)))) (settle_run profile run)"

text \<open>The observation a trusted cleanup callback brings.\<close>

record cleanup_observation =
  co_owner :: "str option"
  co_work :: "str option"
  co_state :: "str option"
  co_remaining :: "int option"

definition reconcile_attempt_body ::
    "('a engine_env_scheme) \<Rightarrow> str \<Rightarrow> str \<Rightarrow> nat \<Rightarrow> cleanup_observation \<Rightarrow> unit db_step" where
  "reconcile_attempt_body env profile work version c db =
     rbind (attempt_work db work) (\<lambda>(w, a, t).
     guard (wk_state w \<noteq> WReconciling \<or> wk_version w \<noteq> version) (stale ''Reconciliation version changed'')
     (guard (co_owner c \<noteq> wk_owner w \<or> co_work c \<noteq> Some work \<or> co_state c \<noteq> Some ''clean'' \<or> co_remaining c \<noteq> Some 0)
       (indeterminate ''Owned cleanup is unconfirmed'')
     (rbind (update_work (\<lambda>v. wk_id v = work) (\<lambda>v. v\<lparr>wk_state := WFinished, wk_version := wk_version v + 1\<rparr>)
        (update_attempts (\<lambda>b. at_id b = wk_business w)
          (\<lambda>b. b\<lparr>at_state := XError, at_error := Some ''runner_crash'', at_cleanup := KClean, at_ended := Some (utc_now env db),
             at_outcome := Some ''indeterminate'', at_reason := Some ''interrupted_result_retained_without_replay''\<rparr>) (tick db))) (\<lambda>db.
      rbind (case find_opt (\<lambda>v. av_attempt v = at_id a \<and> av_epoch v = ee_epoch env) (db_attempt_recoveries db) of
          None \<Rightarrow> Inr db
        | Some v \<Rightarrow>
            rbind (emit_event env ''recovery.finished''
              [(''original_turn_id'', JNull), (''original_attempt_id'', JStr (at_id a)), (''unknown_side_effects'', JBool True),
               (''reason'', JStr ''owned_cleanup_confirmed_unknown_result_retained''), (''cleanup_state'', JStr ''clean''),
               (''trace_links'', JList (case at_trace a of None \<Rightarrow> []
                  | Some tr \<Rightarrow> if tr = [] then [] else [JObj [(''trace_id'', JStr tr), (''span_id'', opt_json (at_span a))]]))]
              [(''run_id'', JStr (tl_run t)), (''trial_id'', JStr (tl_id t)), (''attempt_id'', JStr (at_id a)),
               (''trace_id'', JStr (av_trace v)), (''span_id'', JStr (av_span v))] db) (\<lambda>(_, db). Inr db)) (\<lambda>db.
      rbind (settle_run profile (tl_run t) db) (\<lambda>db. Inr ((), db)))))))"

definition reconcile_attempt ::
    "('a engine_env_scheme) \<Rightarrow> str \<Rightarrow> str \<Rightarrow> nat \<Rightarrow> cleanup_observation \<Rightarrow> engine_db \<Rightarrow> (engine_exn + unit) \<times> engine_db" where
  "reconcile_attempt env profile work version c = transaction (reconcile_attempt_body env profile work version c)"

section \<open>The mutations of \<open>EvaluationService\<close>\<close>

text \<open>
  \<open>_mutate\<close>: the recorded result of the same action, or the callback in the same transaction.
  \<open>frozen\<close> is the repeated revision check of \<open>freeze_spec\<close>, which is not modelled.
\<close>

definition mutate ::
    "('a engine_env_scheme) \<Rightarrow> str \<Rightarrow> str \<Rightarrow> jdict \<Rightarrow> jdict db_step \<Rightarrow> engine_db \<Rightarrow> (engine_exn + jdict) \<times> engine_db" where
  "mutate env profile method params callback db =
     (case pe_methods env method of
        None \<Rightarrow> (Inl (StoreRuntime method), db)
      | Some m \<Rightarrow>
        (case validate env (me_request_schema m) (JObj params) of
           Inl e \<Rightarrow> (Inl e, db)
         | Inr _ \<Rightarrow> transaction (\<lambda>db.
             rbind (canonical_hash env (JObj params)) (\<lambda>hash.
             rbind (existing_action profile method (jstr (jget params ''client_action_id'')) hash db) (\<lambda>existing.
             case existing of
               Some r \<Rightarrow> Inr (dict_set r ''reused_existing_action'' (JBool True), db)
             | None \<Rightarrow>
                 rbind (callback db) (\<lambda>(result, db).
                 rbind (validate env (me_result_schema m) (JObj result)) (\<lambda>_.
                 rbind (record_action env profile method (jstr (jget params ''client_action_id'')) hash result db) (\<lambda>db.
                 Inr (result, db))))))) db))"

definition receipt :: "str \<Rightarrow> engine_db \<Rightarrow> str \<Rightarrow> engine_exn + jdict" where
  "receipt profile db run =
     rbind (run_of profile db run) (\<lambda>r.
     Inr [(''run_id'', JStr run), (''spec_hash'', JStr (rn_hash r)), (''state'', JStr (rn_state r)), (''reused_existing_action'', JBool False),
       (''trial_ids'', JList (map (\<lambda>t. JStr (tl_id t)) (filter (\<lambda>t. tl_run t = run) (db_trials db))))])"

definition start_run_body :: "('a engine_env_scheme) \<Rightarrow> str \<Rightarrow> (json \<Rightarrow> engine_exn + unit) \<Rightarrow> str \<Rightarrow> jdict db_step" where
  "start_run_body env profile frozen run db =
     rbind (run_of profile db run) (\<lambda>r.
     if rn_state r \<noteq> ''created'' then
       (if rn_state r \<in> {''queued'', ''running''} then rbind (receipt profile db run) (\<lambda>j. Inr (j, db))
        else Inl (stale ''Run cannot restart; use an explicitly authorized infrastructure retry''))
     else rbind (frozen (rn_spec r)) (\<lambda>_.
       rbind (rfold (\<lambda>db t. rbind (queue_attempt env t db) (\<lambda>(_, db). Inr db)) db
         (map tl_id (filter (\<lambda>t. tl_run t = run) (db_trials db)))) (\<lambda>db.
       let db = set_run_state run ''queued'' db in
       rbind (receipt profile db run) (\<lambda>j. Inr (j, db)))))"

definition cancel_run_body :: "('a engine_env_scheme) \<Rightarrow> str \<Rightarrow> str \<Rightarrow> json \<Rightarrow> jdict db_step" where
  "cancel_run_body env profile run reason db =
     rbind (run_of profile db run) (\<lambda>r.
     rbind (if rn_state r \<notin> {''completed'', ''failed'', ''cancelled''}
       then cancel_run env profile run reason (set_run_state run ''cancel_requested'' db) else Inr db) (\<lambda>db.
     rbind (receipt profile db run) (\<lambda>j. Inr (j, db))))"

definition retry_body :: "('a engine_env_scheme) \<Rightarrow> str \<Rightarrow> (json \<Rightarrow> engine_exn + unit) \<Rightarrow> str \<Rightarrow> jdict db_step" where
  "retry_body env profile frozen trial db =
     (case find_opt (\<lambda>t. tl_id t = trial) (db_trials db) of
        None \<Rightarrow> Inl (not_found ''Trial not found'')
      | Some t \<Rightarrow>
        rbind (run_of profile db (tl_run t)) (\<lambda>r.
        let protocol = jobj (jget (jobj (rn_spec r)) ''protocol'');
            previous = find_opt (\<lambda>a. tl_selected t = Some (at_id a) \<and> (\<exists>w\<in>set (db_work db). wk_id w = at_work a)) (db_attempts db);
            unconfirmed = indeterminate ''Attempt must be terminal and cleanup confirmed before retry'' in
        case previous of
          None \<Rightarrow> Inl unconfirmed
        | Some a \<Rightarrow>
          guard (rn_state r \<in> {''cancel_requested'', ''cancelled'', ''indeterminate''}
              \<or> map_option wk_state (work_of db (at_work a)) \<noteq> Some WFinished \<or> at_cleanup a \<noteq> KClean) unconfirmed
          (guard (case at_error a of None \<Rightarrow> True | Some e \<Rightarrow>
               JStr e \<notin> set (jlist (jget protocol ''infrastructure_retry_categories'')) \<or> e \<notin> set INFRASTRUCTURE_ERRORS)
            (ContractError ''UNAUTHORIZED'' ''This failure category was not authorized in the immutable RunSpec'')
          (guard (jnum (jget protocol ''max_infrastructure_attempts'') \<le> of_nat (at_number a))
            (ContractError ''UNAUTHORIZED'' ''Maximum infrastructure attempts reached'')
          (rbind (frozen (rn_spec r)) (\<lambda>_. rbind (queue_attempt env trial db) (\<lambda>(result, db).
           Inr (result, set_run_state (tl_run t) ''queued'' db))))))))"

definition start_run :: "('a engine_env_scheme) \<Rightarrow> str \<Rightarrow> (json \<Rightarrow> engine_exn + unit) \<Rightarrow> jdict \<Rightarrow> engine_db \<Rightarrow> (engine_exn + jdict) \<times> engine_db" where
  "start_run env profile frozen params =
     mutate env profile ''evaluation.start'' params (start_run_body env profile frozen (jstr (jget params ''run_id'')))"

definition cancel_evaluation :: "('a engine_env_scheme) \<Rightarrow> str \<Rightarrow> jdict \<Rightarrow> engine_db \<Rightarrow> (engine_exn + jdict) \<times> engine_db" where
  "cancel_evaluation env profile params =
     mutate env profile ''evaluation.cancel'' params (cancel_run_body env profile (jstr (jget params ''run_id'')) (jget params ''reason''))"

definition retry_attempt :: "('a engine_env_scheme) \<Rightarrow> str \<Rightarrow> (json \<Rightarrow> engine_exn + unit) \<Rightarrow> jdict \<Rightarrow> engine_db \<Rightarrow> (engine_exn + jdict) \<times> engine_db" where
  "retry_attempt env profile frozen params =
     mutate env profile ''evaluation.retry'' params (retry_body env profile frozen (jstr (jget params ''trial_id'')))"

end
