(* ===== verification/Engine_Approvals.thy ===== *)
theory Engine_Approvals
  imports Engine_Turns
begin

text \<open>
  \<open>forge/application/approvals.py\<close>: durable permission waits. A request suspends its turn, a
  decision needs a live confirmation nonce bound to the same approval, an approval is consumed once
  by the execution that waits for it, and whatever is left is expired when the wait ends. The
  trusted tracker, the policy and the clock of a live execution are the arguments of the checks.
\<close>

definition refuse :: "str \<Rightarrow> engine_exn" where
  "refuse m = ContractError ''UNAUTHORIZED'' m"

section \<open>Confirmation nonces\<close>

record nonce =
  no_kind :: str
  no_target :: str
  no_binding :: str
  no_until :: pyfloat
  no_expires :: pyfloat

text \<open>Two clocks: \<open>monotonic()\<close> and the time of day, as numbers.\<close>

record clocks =
  ck_monotonic :: pyfloat
  ck_now :: pyfloat

definition nonce_live :: "clocks \<Rightarrow> nonce \<Rightarrow> bool" where
  "nonce_live c n \<longleftrightarrow> ck_monotonic c < no_until n \<and> ck_now c < no_expires n"

definition issue_nonce ::
    "('a engine_env_scheme) \<Rightarrow> pyfloat \<Rightarrow> clocks \<Rightarrow> str \<Rightarrow> str \<Rightarrow> str \<Rightarrow> str \<Rightarrow> pyfloat option \<Rightarrow> (str, nonce) dict
      \<Rightarrow> (engine_exn + pyfloat) \<times> (str, nonce) dict" where
  "issue_nonce env ttl c token kind target binding expires tokens =
     (let tokens = filter (\<lambda>kv. nonce_live c (snd kv)) tokens;
          until = (case expires of None \<Rightarrow> ck_now c + ttl | Some e \<Rightarrow> min (ck_now c + ttl) e) in
      if 4096 \<le> length tokens then (Inl (refuse ''Confirmation queue is full''), tokens)
      else if until \<le> ck_now c then (Inl (refuse ''Confirmation has expired''), tokens)
      else (Inr until, dict_set tokens (pe_sha env token)
        \<lparr>no_kind = kind, no_target = target, no_binding = binding, no_until = ck_monotonic c + (until - ck_now c), no_expires = until\<rparr>))"

definition consume_nonce ::
    "('a engine_env_scheme) \<Rightarrow> clocks \<Rightarrow> str \<Rightarrow> str \<Rightarrow> str \<Rightarrow> str \<Rightarrow> (str, nonce) dict \<Rightarrow> engine_db
      \<Rightarrow> (engine_exn + engine_db) \<times> (str, nonce) dict" where
  "consume_nonce env c token kind target binding tokens db =
     (let digest = pe_sha env token in
      case dict_get tokens digest of
        Some n \<Rightarrow>
          if no_kind n \<noteq> kind \<or> no_target n \<noteq> target \<or> no_binding n \<noteq> binding \<or> \<not> nonce_live c n
          then (Inl (refuse ''Confirmation is unknown, expired or bound to another operation''), tokens)
          else (guard (digest \<in> set (db_nonces db)) (IntegrityError ''UNIQUE constraint failed: consumed_nonces'')
                  (Inr ((tick db)\<lparr>db_nonces := db_nonces db @ [digest]\<rparr>)), dict_pop tokens digest)
      | None \<Rightarrow> (Inl (refuse ''Confirmation is unknown, expired or bound to another operation''), tokens))"

section \<open>The checks of a live approval\<close>

text \<open>
  A live execution that waits: the hash of its final arguments, its tracker after a refresh, the
  hash of its policy, and the outcome of re-opening its workspace at a revision.
\<close>

record live_execution =
  le_arguments :: "engine_exn + str"
  le_available :: bool
  le_revision :: int
  le_environment :: nat
  le_policy :: str
  le_workspace :: "nat \<Rightarrow> engine_exn + unit"

definition approval_of :: "engine_db \<Rightarrow> str \<Rightarrow> approval_row option" where
  "approval_of db i = find_opt (\<lambda>a. ap_id a = i) (db_approvals db)"

definition shown_expired :: "('a engine_env_scheme) \<Rightarrow> (str \<Rightarrow> bool) \<Rightarrow> approval_row \<Rightarrow> bool" where
  "shown_expired env expired a \<longleftrightarrow> ap_state a = AExpired
     \<or> (ap_state a \<in> {APending, AApproved} \<and> (ap_owner a \<noteq> ee_epoch env \<or> expired (jstr (jget (ap_view a) ''expires_at_utc''))))"

definition check_live ::
    "('a engine_env_scheme) \<Rightarrow> (str \<Rightarrow> bool) \<Rightarrow> (str \<Rightarrow> live_execution option) \<Rightarrow> str \<Rightarrow> str \<Rightarrow> approval_state
      \<Rightarrow> engine_db \<Rightarrow> engine_exn + approval_row" where
  "check_live env expired waiting i binding state db =
     (case approval_of db i of
        None \<Rightarrow> Inl (not_found ''Approval not found'')
      | Some a \<Rightarrow>
          guard (ap_owner a \<noteq> ee_epoch env \<or> ap_state a \<noteq> state \<or> ap_binding a \<noteq> binding) (refuse ''Approval binding or lifecycle changed'')
          (case (shown_expired env expired a, waiting i) of
             (False, Some le) \<Rightarrow>
               rbind (le_arguments le) (\<lambda>hash.
               guard (JStr hash \<noteq> jget (ap_view a) ''arguments_hash'') (stale ''Final tool arguments changed'')
               (rbind (le_workspace le (ap_revision a)) (\<lambda>_.
                case turn_of db (ap_turn a) of
                  None \<Rightarrow> Inl (StoreRuntime ''NoneType object is not subscriptable'')
                | Some t \<Rightarrow>
                    guard (\<not> le_available le \<or> \<not> json_eq_int (jget (ap_view a) ''workspace_revision'') (le_revision le)
                         \<or> le_environment le \<noteq> ap_environment a \<or> JStr (le_policy le) \<noteq> jget (ap_view a) ''policy_hash''
                         \<or> tu_state t \<noteq> TAwaiting)
                      (stale ''Workspace, policy, environment or turn changed'') (Inr a))))
           | _ \<Rightarrow> Inl (refuse ''Approval has no live owned execution'')))"

section \<open>The life of an approval\<close>

definition update_approval :: "(approval_row \<Rightarrow> bool) \<Rightarrow> (approval_row \<Rightarrow> approval_row) \<Rightarrow> engine_db \<Rightarrow> engine_db" where
  "update_approval P f db = db\<lparr>db_approvals := map (\<lambda>a. if P a then f a else a) (db_approvals db)\<rparr>"

definition approval_event :: "('a engine_env_scheme) \<Rightarrow> str \<Rightarrow> jdict \<Rightarrow> str option \<Rightarrow> engine_db \<Rightarrow> engine_exn + engine_db" where
  "approval_event env kind value decision db =
     (let turn = jstr (jget value ''turn_id''); seq = next_source_seq db (db_producer db) in
      case turn_of db turn of
        None \<Rightarrow> Inl (StoreRuntime ''NoneType object is not subscriptable'')
      | Some t \<Rightarrow>
          rbind (event_body env kind (db_producer db) seq
            [(''approval_id'', jget value ''approval_id''), (''binding_hash'', jget value ''binding_hash''),
             (''scope'', JObj [(''kind'', JStr ''turn''), (''id'', JStr turn)]),
             (''actor'', JStr (if decision = None then ''engine'' else ''user'')), (''decision'', opt_json decision)]
            [(''workspace_id'', jget value ''workspace_id''), (''turn_id'', JStr turn),
             (''execution_id'', jget value ''execution_id''), (''session_id'', JStr (tu_session t))] db) (\<lambda>(body, db).
          rbind (insert_event env body (db_producer db) seq db) (\<lambda>(_, db). Inr db)))"

definition request_body :: "('a engine_env_scheme) \<Rightarrow> approval_row \<Rightarrow> unit db_step" where
  "request_body env a db =
     guard (ap_id a \<in> ap_id ` set (db_approvals db)) (IntegrityError ''UNIQUE constraint failed: approvals.id'')
     (rbind (update_turns (\<lambda>t. tu_id t = ap_turn a \<and> tu_state t = TRunning) TAwaiting None
         (db\<lparr>db_approvals := db_approvals db @
            [a\<lparr>ap_state := APending, ap_decision := None, ap_consumed := None, ap_owner := ee_epoch env\<rparr>]\<rparr>)) (\<lambda>db.
      rbind (approval_event env ''approval.requested'' (ap_view a) None db) (\<lambda>db. Inr ((), db))))"

definition request_turn_approval :: "('a engine_env_scheme) \<Rightarrow> approval_row \<Rightarrow> engine_db \<Rightarrow> (engine_exn + unit) \<times> engine_db" where
  "request_turn_approval env a = transaction (request_body env a)"

definition decide_body ::
    "('a engine_env_scheme) \<Rightarrow> str \<Rightarrow> str \<Rightarrow> str \<Rightarrow> jdict \<Rightarrow> str \<Rightarrow> approval_row \<Rightarrow> jdict db_step" where
  "decide_body env profile i decision params hash a db =
     (let state = (if decision = ''approve'' then AApproved else ADenied);
          P = (\<lambda>b. ap_id b = i \<and> ap_state b = APending) in
      guard (\<not> (\<exists>b\<in>set (db_approvals db). P b)) (refuse ''Approval was already decided'')
      (let db = update_approval (\<lambda>b. ap_id b = i) (\<lambda>b. b\<lparr>ap_decision := Some decision\<rparr>)
             (update_approval P (\<lambda>b. b\<lparr>ap_state := state\<rparr>) db) in
       rbind (approval_event env ''approval.decided'' (ap_view a) (Some decision) db) (\<lambda>db.
       let result = [(''approval_id'', JStr i), (''state'', JStr (if decision = ''approve'' then ''approved'' else ''denied'')),
             (''reused_existing_action'', JBool False)] in
       rbind (record_action env profile ''approval.decide'' (jstr (jget params ''client_action_id'')) hash result db) (\<lambda>db.
       Inr (result, db)))))"

text \<open>
  \<open>decide\<close>: the recorded answer of the same action, or a checked and confirmed decision. The nonce
  leaves the process memory when it is accepted, also when the transaction fails after that. Between
  the two reads of the action other operations may run: \<open>db'\<close> is the database then.
\<close>

definition decide ::
    "('a engine_env_scheme) \<Rightarrow> str \<Rightarrow> clocks \<Rightarrow> (str \<Rightarrow> bool) \<Rightarrow> (str \<Rightarrow> live_execution option) \<Rightarrow> jdict
      \<Rightarrow> (str, nonce) dict \<Rightarrow> engine_db \<Rightarrow> engine_db \<Rightarrow> (engine_exn + jdict) \<times> (str, nonce) dict \<times> engine_db" where
  "decide env profile c expired waiting params tokens db db' =
     (let i = jstr (jget params ''approval_id''); binding = jstr (jget params ''binding_hash'');
          client = jstr (jget params ''client_action_id'');
          reuse = (\<lambda>r. dict_set r ''reused_existing_action'' (JBool True)) in
      case rbind (validate env ''approval.decide.request'' (JObj params)) (\<lambda>_. canonical_hash env (JObj params)) of
        Inl e \<Rightarrow> (Inl e, tokens, db)
      | Inr hash \<Rightarrow>
      (case existing_action profile ''approval.decide'' client hash db of
         Inl e \<Rightarrow> (Inl e, tokens, db)
       | Inr (Some r) \<Rightarrow> (Inr (reuse r), tokens, db)
       | Inr None \<Rightarrow>
      (case check_live env expired waiting i binding APending db of
         Inl e \<Rightarrow> (Inl e, tokens, db')
       | Inr a \<Rightarrow>
      (if db_read_only db' \<or> db_in_tx db' then
         (let (r, db1) = transaction (\<lambda>db. Inr ([], db)) db' in (r, tokens, db1))
       else case existing_action profile ''approval.decide'' client hash db' of
         Inl e \<Rightarrow> (Inl e, tokens, db')
       | Inr (Some r) \<Rightarrow> (Inr (reuse r), tokens, db')
       | Inr None \<Rightarrow>
           (let (r, tokens') = consume_nonce env c (jstr (jget params ''confirmation_token'')) ''approval'' i binding tokens db' in
            case r of
              Inl e \<Rightarrow> (Inl e, tokens', db')
            | Inr _ \<Rightarrow>
                (let (result, db1) = transaction (\<lambda>db.
                     rbind (fst (consume_nonce env c (jstr (jget params ''confirmation_token'')) ''approval'' i binding tokens db)) (\<lambda>db.
                     decide_body env profile i (jstr (jget params ''decision'')) params hash a db)) db' in
                 (result, tokens', db1)))))))"

definition consume_approval ::
    "('a engine_env_scheme) \<Rightarrow> (str \<Rightarrow> bool) \<Rightarrow> (str \<Rightarrow> live_execution option) \<Rightarrow> str \<Rightarrow> str \<Rightarrow> engine_db
      \<Rightarrow> (engine_exn + unit) \<times> engine_db" where
  "consume_approval env expired waiting i binding db =
     (case check_live env expired waiting i binding AApproved db of
        Inl e \<Rightarrow> (Inl e, db)
      | Inr _ \<Rightarrow> transaction (\<lambda>db.
          (let P = (\<lambda>a. ap_id a = i \<and> ap_state a = AApproved) in
           guard (\<not> (\<exists>a\<in>set (db_approvals db). P a)) (refuse ''Approval was already consumed'')
             (Inr ((), update_approval (\<lambda>a. ap_id a = i) (\<lambda>a. a\<lparr>ap_consumed := Some (utc_now env db)\<rparr>)
               (update_approval P (\<lambda>a. a\<lparr>ap_state := AConsumed\<rparr>) (tick db)))))) db)"

definition end_wait :: "('a engine_env_scheme) \<Rightarrow> approval_row \<Rightarrow> engine_db \<Rightarrow> (engine_exn + unit) \<times> engine_db" where
  "end_wait env a =
     transaction (\<lambda>db.
       (let P = (\<lambda>b. ap_id b = ap_id a \<and> ap_state b \<in> {APending, AApproved}) in
        rbind (if \<exists>b\<in>set (db_approvals db). P b
           then approval_event env ''approval.expired'' (ap_view a) None (update_approval P (\<lambda>b. b\<lparr>ap_state := AExpired\<rparr>) db)
           else Inr db) (\<lambda>db.
        rbind (update_turns (\<lambda>t. tu_id t = ap_turn a \<and> tu_state t = TAwaiting) TRunning None db) (\<lambda>db.
        Inr ((), db)))))"

end
