(* ===== verification/Engine_Rows.thy ===== *)
theory Engine_Rows
  imports Engine_Attempts Engine_Approvals
begin

text \<open>
  What the operations do to the rows of \<open>work_items\<close>, \<open>turns\<close> and \<open>actions\<close>. The event log, the
  traces and the other tables are framed away; the statements that write work items and turns are
  reduced to maps over the rows, so that the invariants of the next theory need one lemma only.
\<close>

section \<open>Frames\<close>

definition same_rows :: "engine_db \<Rightarrow> engine_db \<Rightarrow> bool" where
  "same_rows db db' \<longleftrightarrow> db_work db' = db_work db \<and> db_turns db' = db_turns db \<and> db_actions db' = db_actions db
     \<and> db_in_tx db' = db_in_tx db"

lemma same_rows_refl [simp]: "same_rows db db"
  by (simp add: same_rows_def)

lemma same_rows_trans: "same_rows a b \<Longrightarrow> same_rows b c \<Longrightarrow> same_rows a c"
  by (simp add: same_rows_def)

lemma tick_rows [simp]: "same_rows db (tick db)"
  "db_work (tick db) = db_work db" "db_turns (tick db) = db_turns db" "db_actions (tick db) = db_actions db"
  "db_in_tx (tick db) = db_in_tx db" "db_life (tick db) = db_life db" "db_sessions (tick db) = db_sessions db"
  "db_events (tick db) = db_events db" "db_last_seq (tick db) = db_last_seq db"
  by (simp_all add: same_rows_def tick_def)

lemma in_tx_Inr [simp]: "in_tx m db k = Inr x \<longleftrightarrow> db_in_tx db \<and> k = Inr x"
  by (simp add: in_tx_def)

lemma ensure_trace_rows: "ensure_trace env t db = Inr (r, db') \<Longrightarrow> same_rows db db'"
  by (auto simp: ensure_trace_def Let_def same_rows_def split: option.splits)

lemma trace_scope_rows: "trace_scope env t x db = Inr (s, db') \<Longrightarrow> same_rows db db'"
  by (auto simp: trace_scope_def Let_def dest: ensure_trace_rows split: option.splits)

lemma scoped_rows: "scoped_identities env ids db = Inr (s, db') \<Longrightarrow> same_rows db db'"
  by (auto simp: scoped_identities_def dest: trace_scope_rows split: if_splits)

lemma event_body_rows: "event_body env k p n a ids db = Inr (b, db') \<Longrightarrow> same_rows db db'"
  by (auto simp: event_body_def dest!: scoped_rows intro: same_rows_trans)

lemma insert_event_rows: "insert_event env b s n db = Inr (r, db') \<Longrightarrow> same_rows db db'"
proof (cases "filter (\<lambda>e. same_event e (jstr (jget b ''event_id'')) s n) (db_events db)")
  case Nil
  assume "insert_event env b s n db = Inr (r, db')"
  with Nil show ?thesis
    by (auto simp: insert_event_def Let_def same_rows_def split: option.splits)
next
  case (Cons e es)
  assume "insert_event env b s n db = Inr (r, db')"
  with Cons show ?thesis by (auto simp: insert_event_def Let_def)
qed

lemma turn_event_rows: "turn_event env k t a db = Inr (r, db') \<Longrightarrow> same_rows db db'"
  by (auto simp: turn_event_def Let_def split: option.splits
      dest!: event_body_rows insert_event_rows intro: same_rows_trans)

lemma emit_event_rows: "emit_event env k a ids db = Inr (r, db') \<Longrightarrow> same_rows db db'"
proof -
  assume "emit_event env k a ids db = Inr (r, db')"
  then obtain b d b' p n where "event_body env k (db_producer db) (next_source_seq db (db_producer db)) a ids db = Inr (b, d)"
    "insert_event env b' p n (tick d) = Inr (r, db')"
    unfolding emit_event_def Let_def rbind_Inr_iff by (auto simp del: rbind_Inr_iff)
  then have "same_rows db d" "same_rows (tick d) db'" by (auto dest: event_body_rows insert_event_rows)
  then show ?thesis by (simp add: same_rows_def)
qed

lemma recovery_event_rows: "recovery_event env k t m db = Inr (r, db') \<Longrightarrow> same_rows db db'"
  by (auto simp: recovery_event_def Let_def split: option.splits
      dest!: event_body_rows insert_event_rows intro: same_rows_trans)

lemma approval_event_rows: "approval_event env k v d db = Inr db' \<Longrightarrow> same_rows db db'"
  by (auto simp: approval_event_def Let_def split: option.splits
      dest!: event_body_rows insert_event_rows intro: same_rows_trans)

lemma attempt_event_rows: "attempt_event env k a x t db = Inr db' \<Longrightarrow> same_rows db db'"
  by (auto simp: attempt_event_def dest!: emit_event_rows)

lemma configuration_snapshot_rows: "configuration_snapshot env c h db = Inr (r, db') \<Longrightarrow> same_rows db db'"
  by (auto simp: configuration_snapshot_def Let_def same_rows_def split: option.splits)

lemma update_life_rows [simp]: "same_rows db (update_life P f db)"
  by (simp add: update_life_def same_rows_def)

lemma upsert_life_rows [simp]: "same_rows db (upsert_life r f db)"
  by (simp add: upsert_life_def same_rows_def)

lemma set_cleanup_rows: "set_cleanup P c f db = Inr db' \<Longrightarrow> same_rows db db'"
  by (auto simp: set_cleanup_def split: option.splits)

lemma update_attempts_rows [simp]: "same_rows db (update_attempts P f db)"
  by (simp add: update_attempts_def same_rows_def)

lemma set_run_state_rows [simp]: "same_rows db (set_run_state r s db)"
  by (simp add: set_run_state_def same_rows_def)

lemma update_approval_rows [simp]: "same_rows db (update_approval P f db)"
  by (simp add: update_approval_def same_rows_def)

lemma settle_run_rows: "settle_run p r db = Inr db' \<Longrightarrow> same_rows db db'"
  by (auto simp: settle_run_def Let_def split: if_splits)

lemmas row_frames = turn_event_rows emit_event_rows recovery_event_rows approval_event_rows attempt_event_rows
  configuration_snapshot_rows set_cleanup_rows settle_run_rows event_body_rows insert_event_rows

section \<open>Statements as maps over rows\<close>

text \<open>\<open>rows_of f g db db'\<close>: the work items went through \<open>f\<close>, the turns through \<open>g\<close>.\<close>

definition rows_of :: "(work_row \<Rightarrow> work_row) \<Rightarrow> (turn_row \<Rightarrow> turn_row) \<Rightarrow> engine_db \<Rightarrow> engine_db \<Rightarrow> bool" where
  "rows_of f g db db' \<longleftrightarrow> db_work db' = map f (db_work db) \<and> db_turns db' = map g (db_turns db)
     \<and> db_actions db' = db_actions db \<and> db_in_tx db' = db_in_tx db"

lemma rows_of_id: "same_rows db db' \<Longrightarrow> rows_of (\<lambda>w. w) (\<lambda>t. t) db db'"
  by (simp add: rows_of_def same_rows_def)

lemma rows_of_frame: "rows_of f g db d \<Longrightarrow> same_rows d db' \<Longrightarrow> rows_of f g db db'"
  "same_rows db d \<Longrightarrow> rows_of f g d db' \<Longrightarrow> rows_of f g db db'"
  by (simp_all add: rows_of_def same_rows_def)

lemma rows_of_comp: "rows_of f g db d \<Longrightarrow> rows_of f' g' d db' \<Longrightarrow> rows_of (f' \<circ> f) (g' \<circ> g) db db'"
  by (simp add: rows_of_def)

definition single_running :: "engine_db \<Rightarrow> bool" where
  "single_running db \<longleftrightarrow> length (filter (\<lambda>w. wk_state w = WRunning) (db_work db)) \<le> 1"

lemma update_work_rows:
  "update_work P f db = Inr db' \<longleftrightarrow>
     db' = db\<lparr>db_work := map (\<lambda>w. if P w then f w else w) (db_work db)\<rparr> \<and> single_running db'"
  by (auto simp: update_work_def Let_def single_running_def)

lemma update_work_of:
  "update_work P f db = Inr db' \<Longrightarrow> rows_of (\<lambda>w. if P w then f w else w) (\<lambda>t. t) db db' \<and> single_running db'"
  by (auto simp: update_work_rows rows_of_def)

definition set_turn :: "turn_status \<Rightarrow> str option \<Rightarrow> turn_row \<Rightarrow> turn_row" where
  "set_turn s r t = t\<lparr>tu_state := s, tu_outcome := r\<rparr>"

lemma set_turn_simps [simp]: "tu_id (set_turn s r t) = tu_id t" "tu_state (set_turn s r t) = s" "tu_outcome (set_turn s r t) = r"
  by (simp_all add: set_turn_def)

lemma update_turns_rows:
  "update_turns P s r db = Inr db' \<longleftrightarrow>
     db' = db\<lparr>db_turns := map (\<lambda>t. if P t then set_turn s r t else t) (db_turns db)\<rparr>
     \<and> (\<forall>t\<in>set (db_turns db). P t \<longrightarrow> turn_update_ok t (set_turn s r t))"
  by (auto simp: update_turns_def Let_def set_turn_def)

lemma update_turns_of:
  "update_turns P s r db = Inr db' \<Longrightarrow>
     rows_of (\<lambda>w. w) (\<lambda>t. if P t then set_turn s r t else t) db db'
     \<and> (\<forall>t\<in>set (db_turns db). P t \<longrightarrow> turn_update_ok t (set_turn s r t))"
  by (auto simp: update_turns_rows rows_of_def)

text \<open>A transaction that fails leaves the database as it was.\<close>

lemma transaction_Inr:
  assumes "transaction body db = (Inr x, db')"
  obtains d where "body (db\<lparr>db_in_tx := True\<rparr>) = Inr (x, d)" "db' = d\<lparr>db_in_tx := False\<rparr>" "\<not> db_in_tx db" "\<not> db_read_only db"
  using assms by (auto simp: transaction_def split: if_splits sum.splits prod.splits)

lemma transaction_Inl: "transaction body db = (Inl e, db') \<Longrightarrow> db' = db"
  by (auto simp: transaction_def split: if_splits sum.splits prod.splits)

lemma transaction_cases:
  assumes "transaction body db = (r, db')"
  obtains "db' = db" "isl r"
    | x d where "r = Inr x" "body (db\<lparr>db_in_tx := True\<rparr>) = Inr (x, d)" "db' = d\<lparr>db_in_tx := False\<rparr>" "\<not> db_in_tx db" "\<not> db_read_only db"
  using assms by (auto simp: transaction_def split: if_splits sum.splits prod.splits)

end
