(* ===== verification/Engine_Invariant.thy ===== *)
theory Engine_Invariant
  imports Engine_Rows
begin

text \<open>
  The state machine of the engine: the invariant that ties work items to turns, and the order in
  which rows may only move forward. Every operation, by any process, keeps the one and respects
  the other; an operation that fails changes nothing.
\<close>

fun agree :: "work_state \<Rightarrow> turn_status \<Rightarrow> bool" where
  "agree WQueued s = (s = TQueued)"
| "agree WRunning s = (s = TRunning \<or> s = TAwaiting)"
| "agree WCancelRequested s = (s = TCancelRequested)"
| "agree WReconciling s = (s = TReconciling)"
| "agree WFinished s = (s = TFinished)"

fun work_rank :: "work_state \<Rightarrow> nat" where
  "work_rank WQueued = 0"
| "work_rank WRunning = 1"
| "work_rank WCancelRequested = 2"
| "work_rank WReconciling = 3"
| "work_rank WFinished = 4"

definition row_ok :: "engine_db \<Rightarrow> bool" where
  "row_ok db \<longleftrightarrow> distinct (map wk_id (db_work db)) \<and> distinct (map wk_business (db_work db)) \<and> distinct (map tu_id (db_turns db))
     \<and> single_running db
     \<and> (\<forall>w\<in>set (db_work db). wk_kind w = ''turn'' \<longrightarrow> (\<exists>t\<in>set (db_turns db). tu_id t = wk_business w \<and> agree (wk_state w) (tu_state t)))
     \<and> (\<forall>t\<in>set (db_turns db). \<exists>w\<in>set (db_work db). wk_kind w = ''turn'' \<and> wk_business w = tu_id t)
     \<and> (\<forall>w\<in>set (db_work db). active w \<longrightarrow> wk_owner w \<noteq> None)
     \<and> (\<forall>t\<in>set (db_turns db). tu_state t = TFinished \<longleftrightarrow> tu_outcome t \<noteq> None)"

definition same_work :: "work_row \<Rightarrow> work_row \<Rightarrow> bool" where
  "same_work w v \<longleftrightarrow> wk_id v = wk_id w \<and> wk_kind v = wk_kind w \<and> wk_business v = wk_business w"

definition later_work :: "work_row \<Rightarrow> work_row \<Rightarrow> bool" where
  "later_work w v \<longleftrightarrow> same_work w v \<and> work_rank (wk_state w) \<le> work_rank (wk_state v) \<and> (wk_state w = WFinished \<longrightarrow> v = w)"

definition later_turn :: "turn_row \<Rightarrow> turn_row \<Rightarrow> bool" where
  "later_turn t u \<longleftrightarrow> tu_id u = tu_id t \<and> (tu_state t = TFinished \<longrightarrow> u = t)"

definition grows :: "engine_db \<Rightarrow> engine_db \<Rightarrow> bool" where
  "grows db db' \<longleftrightarrow> (\<forall>w\<in>set (db_work db). \<exists>v\<in>set (db_work db'). later_work w v)
     \<and> (\<forall>t\<in>set (db_turns db). \<exists>u\<in>set (db_turns db'). later_turn t u)
     \<and> (\<exists>zs. db_actions db' = db_actions db @ zs)"

definition forward :: "engine_db \<Rightarrow> engine_db \<Rightarrow> bool" where
  "forward db db' \<longleftrightarrow> (row_ok db \<longrightarrow> row_ok db' \<and> grows db db')"

lemma later_work_refl [simp]: "later_work w w"
  by (simp add: later_work_def same_work_def)

lemma later_work_trans: "later_work a b \<Longrightarrow> later_work b c \<Longrightarrow> later_work a c"
  by (auto simp: later_work_def same_work_def)

lemma later_turn_refl [simp]: "later_turn t t"
  by (simp add: later_turn_def)

lemma later_turn_trans: "later_turn a b \<Longrightarrow> later_turn b c \<Longrightarrow> later_turn a c"
  by (auto simp: later_turn_def)

lemma grows_trans: "grows a b \<Longrightarrow> grows b c \<Longrightarrow> grows a c"
proof -
  assume ab: "grows a b" and bc: "grows b c"
  have "\<exists>v\<in>set (db_work c). later_work w v" if "w \<in> set (db_work a)" for w
    using ab bc that unfolding grows_def by (meson later_work_trans)
  moreover have "\<exists>v\<in>set (db_turns c). later_turn w v" if "w \<in> set (db_turns a)" for w
    using ab bc that unfolding grows_def by (meson later_turn_trans)
  ultimately show ?thesis using ab bc by (auto simp: grows_def)
qed

lemma forward_trans: "forward a b \<Longrightarrow> forward b c \<Longrightarrow> forward a c"
  by (auto simp: forward_def intro: grows_trans)

lemma same_rows_ok: "same_rows db db' \<Longrightarrow> row_ok db' = row_ok db"
  by (simp add: row_ok_def same_rows_def single_running_def)

lemma same_rows_forward [intro]: "same_rows db db' \<Longrightarrow> forward db db'"
proof -
  assume same: "same_rows db db'"
  then have "grows db db'" by (auto simp: grows_def same_rows_def intro: later_work_refl later_turn_refl)
  with same show ?thesis by (simp add: forward_def same_rows_ok)
qed

lemma forward_refl [simp]: "forward db db"
  by (rule same_rows_forward) simp

lemma forward_frame: "same_rows a b \<Longrightarrow> forward b c \<Longrightarrow> forward a c" "forward a b \<Longrightarrow> same_rows b c \<Longrightarrow> forward a c"
  by (blast intro: forward_trans same_rows_forward)+

section \<open>Joint updates of work items and turns\<close>

lemma forward_update:
  assumes rows: "rows_of f g db db'" and single: "row_ok db \<Longrightarrow> single_running db'"
    and work: "\<And>w. row_ok db \<Longrightarrow> w \<in> set (db_work db) \<Longrightarrow> later_work w (f w) \<and> (active (f w) \<longrightarrow> wk_owner (f w) \<noteq> None)"
    and turns: "\<And>t. row_ok db \<Longrightarrow> t \<in> set (db_turns db) \<Longrightarrow> later_turn t (g t) \<and> (tu_state (g t) = TFinished \<longleftrightarrow> tu_outcome (g t) \<noteq> None)"
    and both: "\<And>w t. row_ok db \<Longrightarrow> w \<in> set (db_work db) \<Longrightarrow> t \<in> set (db_turns db) \<Longrightarrow> wk_kind w = ''turn'' \<Longrightarrow> tu_id t = wk_business w
       \<Longrightarrow> agree (wk_state w) (tu_state t) \<Longrightarrow> agree (wk_state (f w)) (tu_state (g t))"
  shows "forward db db'"
  unfolding forward_def
proof (intro impI conjI)
  assume ok: "row_ok db"
  have W: "db_work db' = map f (db_work db)" and T: "db_turns db' = map g (db_turns db)" and A: "db_actions db' = db_actions db"
    using rows by (simp_all add: rows_of_def)
  have ids: "map wk_id (db_work db') = map wk_id (db_work db)" "map wk_business (db_work db') = map wk_business (db_work db)"
    "map tu_id (db_turns db') = map tu_id (db_turns db)"
    using work [OF ok] turns [OF ok] by (auto simp: W T later_work_def same_work_def later_turn_def)
  show "grows db db'" using work [OF ok] turns [OF ok] by (auto simp: grows_def W T A)
  have "\<exists>t\<in>set (db_turns db'). tu_id t = wk_business v \<and> agree (wk_state v) (tu_state t)"
    if v: "v \<in> set (db_work db')" "wk_kind v = ''turn''" for v
  proof -
    obtain w where w: "w \<in> set (db_work db)" "v = f w" using v W by auto
    have same: "same_work w v" using work [OF ok w(1)] w(2) by (simp add: later_work_def)
    then obtain t where t: "t \<in> set (db_turns db)" "tu_id t = wk_business w" "agree (wk_state w) (tu_state t)"
      using ok w(1) v(2) by (auto simp: row_ok_def same_work_def)
    have "agree (wk_state v) (tu_state (g t))"
      using both [OF ok w(1) t(1) _ t(2,3)] same v(2) w(2) by (simp add: same_work_def)
    moreover have "tu_id (g t) = wk_business v" using turns [OF ok t(1)] t(2) same by (simp add: later_turn_def same_work_def)
    ultimately show ?thesis using t(1) T by auto
  qed
  moreover have "\<exists>v\<in>set (db_work db'). wk_kind v = ''turn'' \<and> wk_business v = tu_id u" if u: "u \<in> set (db_turns db')" for u
  proof -
    obtain t where t: "t \<in> set (db_turns db)" "u = g t" using u T by auto
    then obtain w where "w \<in> set (db_work db)" "wk_kind w = ''turn''" "wk_business w = tu_id t"
      using ok by (auto simp: row_ok_def)
    moreover from this have "same_work w (f w)" using work [OF ok] by (simp add: later_work_def)
    ultimately show ?thesis using turns [OF ok t(1)] t(2) W by (auto simp: later_turn_def same_work_def)
  qed
  moreover have "distinct (map wk_id (db_work db'))" "distinct (map wk_business (db_work db'))" "distinct (map tu_id (db_turns db'))"
    unfolding ids using ok by (simp_all add: row_ok_def)
  moreover have "\<forall>v\<in>set (db_work db'). active v \<longrightarrow> wk_owner v \<noteq> None"
    "\<forall>u\<in>set (db_turns db'). tu_state u = TFinished \<longleftrightarrow> tu_outcome u \<noteq> None"
    using work [OF ok] turns [OF ok] by (auto simp: W T)
  ultimately show "row_ok db'"
    using single [OF ok] unfolding row_ok_def by blast
qed

lemma unique_work: "row_ok db \<Longrightarrow> v \<in> set (db_work db) \<Longrightarrow> w \<in> set (db_work db) \<Longrightarrow> wk_id v = wk_id w \<or> wk_business v = wk_business w \<Longrightarrow> v = w"
  unfolding row_ok_def distinct_map inj_on_def by blast

lemma unique_turn: "row_ok db \<Longrightarrow> t \<in> set (db_turns db) \<Longrightarrow> u \<in> set (db_turns db) \<Longrightarrow> tu_id t = tu_id u \<Longrightarrow> t = u"
  unfolding row_ok_def distinct_map inj_on_def by blast

lemma agree_of: "row_ok db \<Longrightarrow> w \<in> set (db_work db) \<Longrightarrow> wk_kind w = ''turn'' \<Longrightarrow> t \<in> set (db_turns db) \<Longrightarrow> tu_id t = wk_business w
    \<Longrightarrow> agree (wk_state w) (tu_state t)"
  unfolding row_ok_def by (metis distinct_map inj_onD)

lemma turn_work_kind: "row_ok db \<Longrightarrow> w \<in> set (db_work db) \<Longrightarrow> t \<in> set (db_turns db) \<Longrightarrow> wk_business w = tu_id t \<Longrightarrow> wk_kind w = ''turn''"
  unfolding row_ok_def by (metis distinct_map inj_onD)

lemma row_ok_single: "row_ok db \<Longrightarrow> single_running db"
  by (simp add: row_ok_def)

lemma row_ok_owner: "row_ok db \<Longrightarrow> w \<in> set (db_work db) \<Longrightarrow> active w \<Longrightarrow> wk_owner w \<noteq> None"
  by (simp add: row_ok_def)

lemma row_ok_outcome: "row_ok db \<Longrightarrow> t \<in> set (db_turns db) \<Longrightarrow> (tu_state t = TFinished \<longleftrightarrow> tu_outcome t \<noteq> None)"
  by (simp add: row_ok_def)

end
