(* ===== verification/Engine_Steps.thy ===== *)
theory Engine_Steps
  imports Engine_Invariant
begin

text \<open>Every operation of the engine keeps the invariant and only moves rows forward.\<close>

section \<open>One work item and its turn\<close>

lemma turn_update_okD: "turn_update_ok t (set_turn s r t) \<Longrightarrow> tu_state t \<noteq> TFinished \<and> (s = TFinished \<longleftrightarrow> r \<noteq> None)"
  by (cases "tu_state t") (auto simp: turn_update_ok_def)

lemma forward_pair:
  assumes rows: "rows_of (\<lambda>w. if P w then f w else w) (\<lambda>t. if Q t then set_turn s r t else t) db db'"
    and single: "row_ok db \<Longrightarrow> single_running db'"
    and item: "w0 \<in> set (db_work db)" "P w0" "\<And>w. w \<in> set (db_work db) \<Longrightarrow> P w \<Longrightarrow> wk_id w = wk_id w0"
    and step: "row_ok db \<Longrightarrow> later_work w0 (f w0) \<and> (active (f w0) \<longrightarrow> wk_owner (f w0) \<noteq> None)"
    and turn: "\<And>t. t \<in> set (db_turns db) \<Longrightarrow> Q t \<Longrightarrow> tu_id t = wk_business w0 \<and> turn_update_ok t (set_turn s r t)"
    and both: "\<And>t. row_ok db \<Longrightarrow> t \<in> set (db_turns db) \<Longrightarrow> tu_id t = wk_business w0 \<Longrightarrow> wk_kind w0 = ''turn'' \<Longrightarrow> agree (wk_state w0) (tu_state t)
      \<Longrightarrow> agree (wk_state (f w0)) (if Q t then s else tu_state t)"
  shows "forward db db'"
proof (rule forward_update [OF rows single])
  fix w assume ok: "row_ok db" and w: "w \<in> set (db_work db)"
  have "w = w0" if "P w" using item(3) [OF w that] unique_work [OF ok w item(1)] by simp
  then show "later_work w (if P w then f w else w) \<and> (active (if P w then f w else w) \<longrightarrow> wk_owner (if P w then f w else w) \<noteq> None)"
    using step [OF ok] row_ok_owner [OF ok w] by auto
  fix t assume t: "t \<in> set (db_turns db)" and kind: "wk_kind w = ''turn''" and id: "tu_id t = wk_business w"
    and agree: "agree (wk_state w) (tu_state t)"
  show "agree (wk_state (if P w then f w else w)) (tu_state (if Q t then set_turn s r t else t))"
  proof (cases "P w")
    case True
    then have "w = w0" using item(3) [OF w] unique_work [OF ok w item(1)] by simp
    then show ?thesis using both [OF ok t] id kind agree True by (auto split: if_splits)
  next
    case False
    have "\<not> Q t" using turn [OF t] id False item(2) unique_work [OF ok w item(1)] by auto
    then show ?thesis using agree False by simp
  qed
next
  fix t assume ok: "row_ok db" and t: "t \<in> set (db_turns db)"
  show "later_turn t (if Q t then set_turn s r t else t) \<and>
      (tu_state (if Q t then set_turn s r t else t) = TFinished) = (tu_outcome (if Q t then set_turn s r t else t) \<noteq> None)"
  proof (cases "Q t")
    case True
    have "tu_state t \<noteq> TFinished \<and> (s = TFinished \<longleftrightarrow> r \<noteq> None)"
      by (rule turn_update_okD) (use turn [OF t True] in simp)
    then show ?thesis using True by (simp add: later_turn_def)
  next
    case False
    then show ?thesis using row_ok_outcome [OF ok t] by simp
  qed
qed assumption

text \<open>The instances: the item with a given identity, with or without its turn.\<close>

lemma forward_item:
  assumes rows: "rows_of (\<lambda>w. if wk_id w = i then f w else w) (\<lambda>t. if tu_id t = wk_business w0 then set_turn s r t else t) db db'"
    and "single_running db'" and turns: "\<And>t. t \<in> set (db_turns db) \<Longrightarrow> tu_id t = wk_business w0 \<Longrightarrow> turn_update_ok t (set_turn s r t)"
    and item: "w0 \<in> set (db_work db)" "wk_id w0 = i"
    and step: "row_ok db \<Longrightarrow> later_work w0 (f w0) \<and> (active (f w0) \<longrightarrow> wk_owner (f w0) \<noteq> None)"
    and both: "agree (wk_state (f w0)) s"
  shows "forward db db'"
  by (rule forward_pair [OF rows, of w0]) (use assms in \<open>auto\<close>)

lemma forward_work_only:
  assumes "update_work P f db = Inr db'" "w0 \<in> set (db_work db)" "P w0" "\<And>w. w \<in> set (db_work db) \<Longrightarrow> P w \<Longrightarrow> wk_id w = wk_id w0"
    and "row_ok db \<Longrightarrow> later_work w0 (f w0) \<and> (active (f w0) \<longrightarrow> wk_owner (f w0) \<noteq> None)" "wk_kind w0 \<noteq> ''turn''"
  shows "forward db db'"
proof (rule forward_pair [of P f "\<lambda>_. False" TQueued None db db' w0])
  show "rows_of (\<lambda>w. if P w then f w else w) (\<lambda>t. if False then set_turn TQueued None t else t) db db'"
    using update_work_of [OF assms(1)] by simp
qed (use assms(2-6) update_work_of [OF assms(1)] in blast)+

lemma forward_turns_only:
  assumes turns: "update_turns Q s r db = Inr db'"
    and both: "\<And>w t. row_ok db \<Longrightarrow> w \<in> set (db_work db) \<Longrightarrow> t \<in> set (db_turns db) \<Longrightarrow> Q t \<Longrightarrow> wk_kind w = ''turn'' \<Longrightarrow> tu_id t = wk_business w
       \<Longrightarrow> agree (wk_state w) (tu_state t) \<Longrightarrow> agree (wk_state w) s"
  shows "forward db db'"
proof -
  from update_turns_of [OF turns] have rows: "rows_of (\<lambda>w. w) (\<lambda>t. if Q t then set_turn s r t else t) db db'"
    and ok: "\<And>t. t \<in> set (db_turns db) \<Longrightarrow> Q t \<Longrightarrow> turn_update_ok t (set_turn s r t)" by auto
  have same: "db_work db' = db_work db" using rows by (simp add: rows_of_def)
  show ?thesis
  proof (rule forward_update [OF rows])
    fix t assume good: "row_ok db" and t: "t \<in> set (db_turns db)"
    show "later_turn t (if Q t then set_turn s r t else t) \<and>
        (tu_state (if Q t then set_turn s r t else t) = TFinished) = (tu_outcome (if Q t then set_turn s r t else t) \<noteq> None)"
      using turn_update_okD [OF ok [OF t]] row_ok_outcome [OF good t] by (auto simp: later_turn_def)
  qed (use same row_ok_single row_ok_owner both in \<open>auto simp: single_running_def\<close>)
qed

lemma work_of_Some: "work_of db i = Some w \<Longrightarrow> w \<in> set (db_work db) \<and> wk_id w = i"
  unfolding work_of_def by (rule find_opt_Some)

lemma work_for_Some: "work_for db b = Some w \<Longrightarrow> w \<in> set (db_work db) \<and> wk_business w = b"
  unfolding work_for_def by (rule find_opt_Some)

lemma turn_of_Some: "turn_of db i = Some t \<Longrightarrow> t \<in> set (db_turns db) \<and> tu_id t = i"
  unfolding turn_of_def by (rule find_opt_Some)

section \<open>Claims\<close>

lemma claim_body_forward:
  assumes "claim_body env i v e db = Inr (row, db')"
  shows "forward db db' \<and> (\<exists>w\<in>set (db_work db). wk_id w = i \<and> wk_state w = WQueued)
     \<and> (\<exists>w\<in>set (db_work db'). wk_id w = i \<and> wk_state w = WRunning)"
proof -
  let ?P = "\<lambda>w. wk_id w = i \<and> wk_state w = WQueued \<and> wk_version w = v"
  let ?f = "\<lambda>w. w\<lparr>wk_state := WRunning, wk_owner := Some (ee_epoch env), wk_version := wk_version w + 1\<rparr>"
  from assms obtain w0 d1 y where w0: "w0 \<in> set (db_work db)" "?P w0" and d1: "update_work ?P ?f db = Inr d1"
    and row: "work_of d1 i = Some y" and rest: "start_claimed env e y d1 = Inr (row, db')"
    unfolding claim_body_def by (auto split: option.splits)
  have row': "y \<in> set (db_work d1)" "wk_id y = i" using work_of_Some [OF row] by auto
  have same: "wk_business y = wk_business w0 \<and> wk_kind y = wk_kind w0 \<and> wk_state y = WRunning" if ok: "row_ok db"
  proof -
    obtain w where w: "w \<in> set (db_work db)" "y = (if ?P w then ?f w else w)"
      using row'(1) d1 by (auto simp: update_work_rows)
    then have "wk_id w = i" using row'(2) by (auto split: if_splits)
    then have "w = w0" using unique_work [OF ok w(1) w0(1)] w0(2) by simp
    then show ?thesis using w(2) w0(2) by simp
  qed
  have running: "\<exists>w\<in>set (db_work d1). wk_id w = i \<and> wk_state w = WRunning"
  proof (rule bexI [of _ "?f w0"])
    have "db_work d1 = map (\<lambda>w. if ?P w then ?f w else w) (db_work db)" using d1 by (simp add: update_work_rows)
    then show "?f w0 \<in> set (db_work d1)" using w0 by (auto intro: rev_image_eqI [of w0])
  qed (use w0 in simp)
  show ?thesis
  proof (cases "wk_kind y = ''turn''")
    case True
    let ?Q = "\<lambda>t. tu_id t = wk_business y \<and> tu_state t = TQueued"
    from rest True obtain d2 where d2: "update_turns ?Q TRunning None d1 = Inr d2" and frame: "same_rows d2 db'"
      by (auto simp: start_claimed_def split: if_splits option.splits dest: turn_event_rows)
    have rows: "rows_of (\<lambda>w. if ?P w then ?f w else w) (\<lambda>t. if ?Q t then set_turn TRunning None t else t) db d2"
      and okQ: "\<And>t. t \<in> set (db_turns db) \<Longrightarrow> ?Q t \<Longrightarrow> turn_update_ok t (set_turn TRunning None t)"
      and single: "single_running d2"
      using d1 d2 by (auto simp: update_work_rows update_turns_rows rows_of_def single_running_def)
    have "forward db d2"
      unfolding forward_def
    proof
      assume ok: "row_ok db"
      have "forward db d2"
        using same [OF ok] w0 okQ single
        by (intro forward_pair [OF rows, of w0]) (auto simp: later_work_def same_work_def active_def)
      then show "row_ok d2 \<and> grows db d2" using ok by (simp add: forward_def)
    qed
    moreover have "db_work db' = db_work d1" using d2 frame by (auto simp: update_turns_rows same_rows_def)
    ultimately show ?thesis using frame w0 running by (auto intro: forward_frame)
  next
    case False
    then have db': "db' = d1" using rest by (simp add: start_claimed_def)
    have "forward db d1"
      unfolding forward_def
    proof
      assume ok: "row_ok db"
      have "forward db d1" using same [OF ok] w0 False
        by (intro forward_work_only [OF d1, of w0]) (auto simp: later_work_def same_work_def active_def)
      then show "row_ok d1 \<and> grows db d1" using ok by (simp add: forward_def)
    qed
    then show ?thesis using db' w0 running by auto
  qed
qed

section \<open>The end of an execution\<close>

lemmas update_rows = update_work_rows update_turns_rows rows_of_def single_running_def

lemma later_finished: "wk_state w \<noteq> WFinished \<Longrightarrow> later_work w (w\<lparr>wk_state := WFinished, wk_version := n\<rparr>)
   \<and> \<not> active (w\<lparr>wk_state := WFinished, wk_version := n\<rparr>)"
  by (cases "wk_state w") (auto simp: later_work_def same_work_def active_def)

text \<open>An item and its turn are finished together.\<close>

lemma forward_finish:
  assumes row: "w0 \<in> set (db_work db)" "wk_id w0 = i" "wk_state w0 \<noteq> WFinished"
    and turn: "(if wk_kind w0 = ''turn'' then update_turns (\<lambda>t. tu_id t = wk_business w0) TFinished (Some r) db else Inr db) = Inr d"
    and work: "update_work (\<lambda>w. wk_id w = i) (\<lambda>w. w\<lparr>wk_state := WFinished, wk_version := wk_version w + 1\<rparr>) d = Inr db'"
  shows "forward db db'"
proof (cases "wk_kind w0 = ''turn''")
  case True
  let ?f = "\<lambda>w. w\<lparr>wk_state := WFinished, wk_version := wk_version w + 1\<rparr>"
  have rows: "rows_of (\<lambda>w. if wk_id w = i then ?f w else w) (\<lambda>t. if tu_id t = wk_business w0 then set_turn TFinished (Some r) t else t) db db'"
    and "single_running db'" and ok: "\<forall>t\<in>set (db_turns db). tu_id t = wk_business w0 \<longrightarrow> turn_update_ok t (set_turn TFinished (Some r) t)"
    using turn work True by (auto simp: update_rows)
  then show ?thesis using row later_finished [of w0] by (intro forward_item [OF rows]) auto
next
  case False
  then show ?thesis using turn work row later_finished [of w0]
    by (intro forward_work_only [of "\<lambda>w. wk_id w = i" _ db db' w0]) auto
qed

lemma mark_indeterminate_forward:
  assumes "mark_indeterminate_body env i v db = Inr (x, db')"
  shows "forward db db'"
proof -
  let ?turn = "\<lambda>row d. (if wk_kind row = ''turn'' then update_turns (\<lambda>t. tu_id t = wk_business row) TFinished (Some ''indeterminate'') d else Inr d)"
  let ?work = "update_work (\<lambda>w. wk_id w = i) (\<lambda>w. w\<lparr>wk_state := WFinished, wk_version := wk_version w + 1\<rparr>)"
  let ?told = "\<lambda>row. \<exists>r\<in>set (db_recoveries db). rv_turn r = wk_business row \<and> rv_epoch r = ee_epoch env"
  from assms obtain row where row: "row \<in> set (db_work db)" "wk_id row = i" "wk_state row = WReconciling"
    and body: "rbind (if wk_kind row = ''turn'' then
               rbind (if ?told row
                  then rbind (recovery_event env ''recovery.finished'' (wk_business row) ''unknown_result_retained_without_replay'' db) (\<lambda>(_, db). Inr db)
                  else Inr db) (\<lambda>db.
               update_turns (\<lambda>t. tu_id t = wk_business row) TFinished (Some ''indeterminate'') db)
             else Inr db) (\<lambda>db. rbind (?work db) (\<lambda>db. Inr (x, db))) = Inr (x, db')"
    unfolding mark_indeterminate_body_def by (auto dest!: work_of_Some split: option.splits simp del: rbind_Inr_iff)
  have "\<exists>d0 d. same_rows db d0 \<and> ?turn row d0 = Inr d \<and> ?work d = Inr db'"
  proof (cases "wk_kind row = ''turn'' \<and> ?told row")
    case True
    with body obtain e d0 d where "recovery_event env ''recovery.finished'' (wk_business row) ''unknown_result_retained_without_replay'' db = Inr (e, d0)"
      "?turn row d0 = Inr d" "?work d = Inr db'" by auto
    then show ?thesis by (blast dest: recovery_event_rows)
  next
    case False
    with body have "\<exists>d. ?turn row db = Inr d \<and> ?work d = Inr db'" by (cases "wk_kind row = ''turn''") (auto split: if_splits)
    then show ?thesis by (blast intro: same_rows_refl)
  qed
  then obtain d0 d where frame: "same_rows db d0" and turn: "?turn row d0 = Inr d" and work: "?work d = Inr db'" by blast
  have "row \<in> set (db_work d0)" using row(1) frame by (simp add: same_rows_def)
  then show ?thesis using forward_finish [OF _ row(2) _ turn work] row(3) frame by (auto intro: forward_frame)
qed

lemma finish_work_forward:
  assumes "finish_work_body i v owner r db = Inr (x, db')"
  shows "forward db db'"
proof -
  from assms obtain row d where row: "row \<in> set (db_work db)" "wk_id row = i" "active row"
    and turn: "(if wk_kind row = ''turn'' then update_turns (\<lambda>t. tu_id t = wk_business row) TFinished (Some r) db else Inr db) = Inr d"
    and work: "update_work (\<lambda>w. wk_id w = i) (\<lambda>w. w\<lparr>wk_state := WFinished, wk_version := wk_version w + 1\<rparr>) d = Inr db'"
    by (auto simp: finish_work_body_def dest!: work_of_Some split: option.splits)
  then show ?thesis by (intro forward_finish [OF row(1,2) _ turn work]) (auto simp: active_def)
qed

text \<open>
  \<open>execute_turn\<close> settles the item it claimed together with the turn the item was fetched for.
\<close>

lemma retain_forward:
  assumes "rbind (update_work (\<lambda>w. wk_id w = work) (\<lambda>w. w\<lparr>wk_state := WReconciling, wk_version := wk_version w + 1\<rparr>) db) (\<lambda>db.
       rbind (update_turns (\<lambda>t. tu_id t = turn) TReconciling None db) (\<lambda>db.
       rbind (set_cleanup (\<lambda>l. lc_turn l = turn) c g db) (\<lambda>db. Inr (x, db)))) = Inr (y, db')"
    and item: "w0 \<in> set (db_work db)" "wk_id w0 = work" "wk_business w0 = turn" "turn \<in> tu_id ` set (db_turns db)"
  shows "forward db db'"
proof -
  let ?f = "\<lambda>w. w\<lparr>wk_state := WReconciling, wk_version := wk_version w + 1\<rparr>"
  from assms(1) obtain d1 d where steps: "update_work (\<lambda>w. wk_id w = work) ?f db = Inr d1"
    "update_turns (\<lambda>t. tu_id t = turn) TReconciling None d1 = Inr d" and frame: "same_rows d db'"
    by (auto simp del: update_work_rows dest!: set_cleanup_rows)
  then have rows: "rows_of (\<lambda>w. if wk_id w = work then ?f w else w) (\<lambda>t. if tu_id t = wk_business w0 then set_turn TReconciling None t else t) db d"
    and single: "single_running d" and ok: "\<forall>t\<in>set (db_turns db). tu_id t = wk_business w0 \<longrightarrow> turn_update_ok t (set_turn TReconciling None t)"
    using item(3) by (auto simp: update_rows)
  have live: "wk_state w0 \<noteq> WFinished" if good: "row_ok db"
  proof
    assume fin: "wk_state w0 = WFinished"
    obtain t where t: "t \<in> set (db_turns db)" "tu_id t = wk_business w0" using item(3,4) by auto
    then have "agree (wk_state w0) (tu_state t)"
      using agree_of [OF good item(1)] turn_work_kind [OF good item(1)] by simp
    then show False using ok t fin by (auto simp: turn_update_ok_def)
  qed
  have "later_work w0 (?f w0) \<and> (active (?f w0) \<longrightarrow> wk_owner (?f w0) \<noteq> None)" if "row_ok db"
    using live [OF that] by (cases "wk_state w0") (auto simp: later_work_def same_work_def active_def)
  then have "forward db d" using single ok item by (intro forward_item [OF rows]) auto
  then show ?thesis using frame by (rule forward_frame)
qed

lemma finish_body_forward:
  assumes "finish_body env work turn r m result c db = Inr (x, db')"
    and item: "w0 \<in> set (db_work db)" "wk_id w0 = wk_id work" "wk_business w0 = tu_id turn" "tu_id turn \<in> tu_id ` set (db_turns db)"
  shows "forward db db'"
proof -
  let ?P = "\<lambda>w. wk_id w = wk_id work \<and> wk_version w = wk_version work \<and> wk_owner w = Some (ee_epoch env) \<and> active w"
  let ?f = "\<lambda>w. w\<lparr>wk_state := WFinished, wk_version := wk_version w + 1\<rparr>"
  let ?Q = "\<lambda>t. tu_id t = tu_id turn"
  from assms(1) obtain v d1 d2 where v: "v \<in> set (db_work db)" "?P v" and d1: "update_work ?P ?f db = Inr d1"
    and d2: "update_turns ?Q TFinished (Some r) d1 = Inr d2" and frame: "same_rows d2 db'"
    unfolding finish_body_def Let_def
    by (auto split: if_splits dest!: set_cleanup_rows turn_event_rows intro: same_rows_trans simp: same_rows_def)
  have rows: "rows_of (\<lambda>w. if ?P w then ?f w else w) (\<lambda>t. if ?Q t then set_turn TFinished (Some r) t else t) db d2"
    and single: "single_running d2" and ok: "\<And>t. t \<in> set (db_turns db) \<Longrightarrow> ?Q t \<Longrightarrow> turn_update_ok t (set_turn TFinished (Some r) t)"
    using d1 d2 by (auto simp: update_rows)
  have "forward db d2" unfolding forward_def
  proof
    assume good: "row_ok db"
    have "v = w0" using unique_work [OF good v(1) item(1)] v(2) item(2) by simp
    then have "forward db d2"
      using v single ok item later_finished [of w0] by (intro forward_pair [OF rows, of w0]) (auto simp: active_def)
    then show "row_ok d2 \<and> grows db d2" using good by (simp add: forward_def)
  qed
  then show ?thesis using frame by (rule forward_frame)
qed

end
