(* ===== verification/Engine_Turn_Steps.thy ===== *)
theory Engine_Turn_Steps
  imports Engine_Steps
begin

text \<open>Cancellation, the start of a process, acceptance and approvals: the steps around an execution.\<close>

section \<open>Recorded actions\<close>

lemma insert_action_forward:
  assumes "insert_action a db = Inr db'"
  shows "forward db db'"
proof -
  have "db' = db\<lparr>db_actions := db_actions db @ [a]\<rparr>" using assms by (auto simp: insert_action_def)
  then show ?thesis by (auto simp: forward_def row_ok_def single_running_def grows_def intro: later_work_refl later_turn_refl)
qed

lemma record_action_forward: "record_action env p m c h r db = Inr db' \<Longrightarrow> forward db db'"
  unfolding record_action_def by (rule forward_frame(1) [OF tick_rows(1)]) (rule insert_action_forward)

section \<open>Cancellation\<close>

lemma cancel_rows_forward:
  assumes rows: "cancel_rows t db = Inr db'" and t: "t \<in> set (db_turns db)" "tu_state t \<in> {TQueued, TRunning, TAwaiting}"
  shows "forward db db'"
proof -
  from rows obtain w where w: "work_for db (tu_id t) = Some w" by (cases "work_for db (tu_id t)") (simp_all add: cancel_rows_def)
  have item: "w \<in> set (db_work db)" "wk_business w = tu_id t" using work_for_Some [OF w] by simp_all
  have state: "agree (wk_state w) (tu_state t)" if "row_ok db"
    by (rule agree_of [OF that item(1) turn_work_kind [OF that item(1) t(1) item(2)] t(1) item(2) [symmetric]])
  show ?thesis
  proof (cases "tu_state t = TQueued")
    case True
    let ?f = "\<lambda>v. v\<lparr>wk_state := WFinished, wk_version := wk_version v + 1\<rparr>"
    have r: "rows_of (\<lambda>v. if wk_id v = wk_id w then ?f v else v) (\<lambda>u. if tu_id u = wk_business w then set_turn TFinished (Some ''cancelled'') u else u) db db'"
      and single: "single_running db'"
      and ok: "\<And>u. u \<in> set (db_turns db) \<Longrightarrow> tu_id u = wk_business w \<Longrightarrow> turn_update_ok u (set_turn TFinished (Some ''cancelled'') u)"
      using rows w True item(2) by (auto simp: cancel_rows_def update_rows)
    have "later_work w (?f w) \<and> (active (?f w) \<longrightarrow> wk_owner (?f w) \<noteq> None)" if "row_ok db"
      using state [OF that] True later_finished [of w] by (cases "wk_state w") auto
    then show ?thesis using single ok item by (intro forward_item [OF r]) auto
  next
    case False
    let ?f = "\<lambda>v. v\<lparr>wk_state := WCancelRequested\<rparr>"
    have r: "rows_of (\<lambda>v. if wk_id v = wk_id w then ?f v else v) (\<lambda>u. if tu_id u = wk_business w then set_turn TCancelRequested None u else u) db db'"
      and single: "single_running db'"
      and ok: "\<And>u. u \<in> set (db_turns db) \<Longrightarrow> tu_id u = wk_business w \<Longrightarrow> turn_update_ok u (set_turn TCancelRequested None u)"
      using rows w False item(2) by (auto simp: cancel_rows_def update_rows)
    have "later_work w (?f w) \<and> (active (?f w) \<longrightarrow> wk_owner (?f w) \<noteq> None)" if good: "row_ok db"
    proof -
      have "wk_state w = WRunning" using state [OF good] t(2) False by (cases "wk_state w") auto
      then show ?thesis using row_ok_owner [OF good item(1)] by (auto simp: later_work_def same_work_def active_def)
    qed
    then show ?thesis using single ok item by (intro forward_item [OF r]) auto
  qed
qed

lemma cancel_effects_rows: "cancel_effects env t m db = Inr db' \<Longrightarrow> same_rows db db'"
  by (auto simp: cancel_effects_def Let_def same_rows_def upsert_life_def update_life_def
      split: if_splits dest!: turn_event_rows)

lemma cancel_body_forward:
  assumes "cancel_body env p params h db = Inr (x, db')"
  shows "forward db db'"
proof -
  let ?turn = "jstr (jget params ''turn_id'')"
  from assms obtain e where e: "existing_action p ''session.cancel_turn'' (jstr (jget params ''client_action_id'')) h db = Inr e"
    by (auto simp: cancel_body_def Let_def)
  show ?thesis
  proof (cases e)
    case (Some r)
    with assms e show ?thesis by (auto simp: cancel_body_def Let_def)
  next
    case None
    with assms e obtain t d c r where t: "turn_of db ?turn = Some t"
      and d: "(if tu_state t \<in> {TQueued, TRunning, TAwaiting} then rbind (cancel_rows t db) (cancel_effects env t (jget params ''reason'')) else Inr db) = Inr d"
      and a: "record_action env p ''session.cancel_turn'' c h r d = Inr db'"
      by (auto simp: cancel_body_def Let_def split: option.splits simp del: insert_iff)
    have "forward db d"
    proof (cases "tu_state t \<in> {TQueued, TRunning, TAwaiting}")
      case True
      with d obtain d0 where "cancel_rows t db = Inr d0" "cancel_effects env t (jget params ''reason'') d0 = Inr d" by auto
      then show ?thesis using cancel_rows_forward [of t db d0] turn_of_Some [OF t] True
        by (auto intro: forward_frame(2) dest: cancel_effects_rows)
    next
      case False
      with d show ?thesis by auto
    qed
    then show ?thesis using record_action_forward [OF a] by (rule forward_trans)
  qed
qed

section \<open>A new process\<close>

lemma abandon_work_forward:
  assumes "abandon_work env db = Inr db'"
  shows "forward db db' \<and> (\<forall>w\<in>set (db_work db). active w \<and> foreign_owner env w
     \<longrightarrow> (\<exists>v\<in>set (db_work db'). same_work w v \<and> wk_state v = WReconciling))"
proof -
  let ?P = "\<lambda>w. active w \<and> foreign_owner env w"
  let ?f = "\<lambda>w. w\<lparr>wk_state := WReconciling, wk_version := wk_version w + 1\<rparr>"
  from assms obtain d where d: "update_work ?P ?f db = Inr d"
    and turns: "update_turns (\<lambda>t. (\<exists>w\<in>set (db_work d). wk_state w = WReconciling \<and> wk_kind w = ''turn'' \<and> wk_business w = tu_id t)
       \<and> tu_state t \<noteq> TFinished) TReconciling None d = Inr db'"
    by (auto simp: abandon_work_def)
  let ?Q = "\<lambda>t. (\<exists>w\<in>set (db_work d). wk_state w = WReconciling \<and> wk_kind w = ''turn'' \<and> wk_business w = tu_id t) \<and> tu_state t \<noteq> TFinished"
  have W: "db_work d = map (\<lambda>w. if ?P w then ?f w else w) (db_work db)" using d by (simp add: update_work_rows)
  have rows: "rows_of (\<lambda>w. if ?P w then ?f w else w) (\<lambda>t. if ?Q t then set_turn TReconciling None t else t) db db'"
    and single: "single_running db'" and W': "db_work db' = db_work d"
    and ok: "\<And>t. t \<in> set (db_turns db) \<Longrightarrow> ?Q t \<Longrightarrow> turn_update_ok t (set_turn TReconciling None t)"
    using d turns by (auto simp: update_rows)
  have "forward db db'"
  proof (rule forward_update [OF rows single])
    fix w assume good: "row_ok db" and w: "w \<in> set (db_work db)"
    have "later_work w (?f w) \<and> \<not> active (?f w)" if "active w"
      using that by (auto simp: later_work_def same_work_def active_def)
    then show "later_work w (if ?P w then ?f w else w) \<and> (active (if ?P w then ?f w else w) \<longrightarrow> wk_owner (if ?P w then ?f w else w) \<noteq> None)"
      using row_ok_owner [OF good w] by auto
    fix t assume t: "t \<in> set (db_turns db)" "wk_kind w = ''turn''" "tu_id t = wk_business w" and agree: "agree (wk_state w) (tu_state t)"
    show "agree (wk_state (if ?P w then ?f w else w)) (tu_state (if ?Q t then set_turn TReconciling None t else t))"
    proof (cases "?P w")
      case True
      then have "?f w \<in> set (db_work d)" using w W by (auto intro: rev_image_eqI [of w])
      moreover have "tu_state t \<noteq> TFinished" using agree True by (cases "wk_state w") (auto simp: active_def)
      ultimately have "?Q t" using t by (intro conjI bexI [of _ "?f w"]) simp_all
      then show ?thesis using True by simp
    next
      case False
      show ?thesis
      proof (cases "?Q t")
        case True
        then obtain v where v: "v \<in> set (db_work d)" "wk_state v = WReconciling" "wk_business v = tu_id t" by auto
        then obtain u where u: "u \<in> set (db_work db)" "v = (if ?P u then ?f u else u)" using W by auto
        then have "u = w" using unique_work [OF good u(1) w] v(3) t(3) by (auto split: if_splits)
        then have "wk_state w = WReconciling" using u(2) v(2) False by simp
        then show ?thesis using True False by simp
      next
        case no: False
        then show ?thesis using agree False by auto
      qed
    qed
  next
    fix t assume good: "row_ok db" and t: "t \<in> set (db_turns db)"
    show "later_turn t (if ?Q t then set_turn TReconciling None t else t) \<and>
      (tu_state (if ?Q t then set_turn TReconciling None t else t) = TFinished) = (tu_outcome (if ?Q t then set_turn TReconciling None t else t) \<noteq> None)"
      using row_ok_outcome [OF good t] by (auto simp: later_turn_def)
  qed
  moreover have "\<exists>v\<in>set (db_work db'). same_work w v \<and> wk_state v = WReconciling" if "w \<in> set (db_work db)" "?P w" for w
    using that W W' by (intro bexI [of _ "?f w"]) (auto simp: same_work_def intro: rev_image_eqI [of w])
  ultimately show ?thesis by blast
qed

lemma recover_attempt_rows: "recover_attempt env db a = Inr db' \<Longrightarrow> same_rows db db'"
  by (auto simp: recover_attempt_def Let_def same_rows_def split: option.splits dest!: emit_event_rows)

lemma recover_turn_rows: "recover_turn env db t = Inr db' \<Longrightarrow> same_rows db db'"
  by (auto simp: recover_turn_def Let_def same_rows_def dest!: recovery_event_rows)

lemma rfold_rows: "rfold f db xs = Inr db' \<Longrightarrow> (\<And>d x d'. f d x = Inr d' \<Longrightarrow> same_rows d d') \<Longrightarrow> same_rows db db'"
  by (rule rfold_invariant [where P = "\<lambda>_. same_rows db"]) (auto intro: same_rows_trans)

lemma abandon_attempts_rows [simp]: "same_rows db (abandon_attempts db)"
  by (simp add: abandon_attempts_def Let_def same_rows_def)

lemma open_body_rows:
  assumes "open_body env db = Inr (x, db')"
  obtains d0 d where "same_rows db d0" "abandon_work env d0 = Inr d" "same_rows d db'"
proof -
  let ?d0 = "if db_producer db = [] then (tick db)\<lparr>db_producer := new_id env ''producer'' db\<rparr> else db"
  have "same_rows db ?d0" by (simp add: same_rows_def)
  moreover from assms obtain d d1 where d: "abandon_work env ?d0 = Inr d"
    and d1: "rfold (recover_attempt env) (abandon_attempts d) (filter (reconciling_attempt (abandon_attempts d)) (db_attempts (abandon_attempts d))) = Inr d1"
    and d2: "\<exists>P f xs. rfold (recover_turn env) (update_life P f d1) xs = Inr db'"
    unfolding open_body_def Let_def by (auto simp del: if_split, blast)
  moreover have "same_rows d d1" using rfold_rows [OF d1 recover_attempt_rows] by (rule same_rows_trans [rotated]) simp_all
  moreover have "same_rows d1 db'"
  proof -
    obtain P f xs where "rfold (recover_turn env) (update_life P f d1) xs = Inr db'" using d2 by blast
    from rfold_rows [OF this recover_turn_rows] show ?thesis by (rule same_rows_trans [rotated]) simp_all
  qed
  ultimately show ?thesis using that same_rows_trans by blast
qed

lemma open_body_forward: "open_body env db = Inr (x, db') \<Longrightarrow> forward db db'"
  by (erule open_body_rows) (metis abandon_work_forward forward_frame)

section \<open>Acceptance\<close>

text \<open>New rows with fresh identities.\<close>

lemma forward_insert_turn:
  assumes turn: "insert_turn t db = Inr d" and mid: "same_rows d d'" and work: "insert_work w d' = Inr db'"
    and new: "tu_state t = TQueued" "tu_outcome t = None" "wk_kind w = ''turn''" "wk_business w = tu_id t" "wk_state w = WQueued"
  shows "forward db db'"
  unfolding forward_def
proof (intro impI conjI)
  assume ok: "row_ok db"
  have T: "db_turns db' = db_turns db @ [t]" and W: "db_work db' = db_work db @ [w]" and A: "db_actions db' = db_actions db"
    and fresh: "tu_id t \<notin> tu_id ` set (db_turns db)" "wk_id w \<notin> wk_id ` set (db_work db)" "wk_business w \<notin> wk_business ` set (db_work db)"
    using turn mid work by (auto simp: insert_turn_def insert_work_def same_rows_def)
  show "grows db db'" by (auto simp: grows_def T W A intro: later_work_refl later_turn_refl)
  show "row_ok db'" using ok fresh new unfolding row_ok_def T W single_running_def by (auto simp: active_def)
qed

lemma forward_insert_work:
  assumes "insert_work w db = Inr db'" "wk_kind w \<noteq> ''turn''" "wk_state w = WQueued"
  shows "forward db db'"
  unfolding forward_def
proof (intro impI conjI)
  assume ok: "row_ok db"
  have W: "db_work db' = db_work db @ [w]" and T: "db_turns db' = db_turns db" and A: "db_actions db' = db_actions db"
    and fresh: "wk_id w \<notin> wk_id ` set (db_work db)" "wk_business w \<notin> wk_business ` set (db_work db)"
    using assms(1) by (auto simp: insert_work_def)
  show "grows db db'" by (auto simp: grows_def T W A intro: later_work_refl later_turn_refl)
  show "row_ok db'" using ok fresh assms(2,3) unfolding row_ok_def T W single_running_def by (auto simp: active_def)
qed

lemma price_snapshot_rows: "price_snapshot env db = Inr (r, db') \<Longrightarrow> same_rows db db'"
  by (auto simp: price_snapshot_def dest: configuration_snapshot_rows split: option.splits)

lemma accepted_event_rows: "accepted_event env c r s t db = Inr db' \<Longrightarrow> same_rows db db'"
  by (auto simp: accepted_event_def Let_def dest!: event_body_rows insert_event_rows intro: same_rows_trans)

lemma accept_rows_steps:
  assumes "accept_rows env p params s ref m h db = Inr (x, db')"
  obtains d3 where "forward db d3" "db_actions d3 = db_actions db"
    "record_action env p m (jstr (jget params ''client_action_id'')) h x d3 = Inr db'"
proof -
  let ?turn = "new_id env ''turn'' db"
  let ?t = "\<lparr>tu_id = ?turn, tu_session = es_id s, tu_state = TQueued, tu_outcome = None,
                 tu_config = sort_tree (JObj ref), tu_input = sort_tree (jget params ''input''), tu_native = None\<rparr>"
  from assms obtain d1 pr d2 where d1: "insert_turn ?t (tick db) = Inr d1" and d2: "price_snapshot env d1 = Inr (pr, d2)"
    by (auto simp: accept_rows_def Let_def)
  let ?d2 = "d2\<lparr>db_turn_profiles := db_turn_profiles d2 @ [(?turn, p)],
                   db_turn_observation := db_turn_observation d2 @ [(?turn, pr, ee_capture env)]\<rparr>"
  let ?w = "\<lparr>wk_id = new_id env ''work'' ?d2, wk_kind = ''turn'', wk_business = ?turn, wk_state = WQueued,
                 wk_owner = None, wk_deadline = None, wk_version = 0\<rparr>"
  from assms d1 d2 obtain d3 where d3: "insert_work ?w (tick ?d2) = Inr d3"
    and d4: "record_action env p m (jstr (jget params ''client_action_id'')) h x d3 = Inr db'"
    by (auto simp: accept_rows_def Let_def)
  have same: "same_rows d1 (tick ?d2)" using price_snapshot_rows [OF d2] by (simp add: same_rows_def)
  have "forward (tick db) d3" by (rule forward_insert_turn [OF d1 same d3]) simp_all
  moreover have "db_actions d3 = db_actions db"
    using d1 same d3 by (auto simp: insert_turn_def insert_work_def same_rows_def)
  ultimately show ?thesis using that d4 forward_frame(1) [OF tick_rows(1)] by blast
qed

lemma accept_body_steps:
  assumes "accept_body env p params conf m h db = Inr (x, db')"
    and new: "existing_action p m (jstr (jget params ''client_action_id'')) h db = Inr None"
  obtains d3 d4 where "forward db d3" "db_actions d3 = db_actions db"
    "record_action env p m (jstr (jget params ''client_action_id'')) h x d3 = Inr d4" "same_rows d4 db'"
proof -
  from assms obtain hash ref d s d4 where d: "configuration_snapshot env (JObj conf) hash db = Inr (ref, d)"
    and rows: "accept_rows env p params s ref m h d = Inr (x, d4)"
    and event: "accepted_event env conf ref s (jget x ''turn_id'') d4 = Inr db'"
    unfolding accept_body_def by auto
  from accept_rows_steps [OF rows] obtain d3 where "forward d d3" "db_actions d3 = db_actions d"
    "record_action env p m (jstr (jget params ''client_action_id'')) h x d3 = Inr d4" .
  moreover have same: "same_rows db d" by (rule configuration_snapshot_rows [OF d])
  ultimately show ?thesis
    using that [of d3 d4] forward_frame(1) [OF same] accepted_event_rows [OF event]
    by (simp add: same_rows_def)
qed

lemma accept_body_forward:
  assumes "accept_body env p params conf m h db = Inr (x, db')"
  shows "forward db db'"
proof -
  from assms obtain e where e: "existing_action p m (jstr (jget params ''client_action_id'')) h db = Inr e"
    by (auto simp: accept_body_def)
  show ?thesis
  proof (cases e)
    case (Some r)
    with assms e show ?thesis by (auto simp: accept_body_def)
  next
    case None
    with e have "existing_action p m (jstr (jget params ''client_action_id'')) h db = Inr None" by simp
    from accept_body_steps [OF assms this] obtain d3 d4 where "forward db d3" "same_rows d4 db'"
      "record_action env p m (jstr (jget params ''client_action_id'')) h x d3 = Inr d4" .
    then show ?thesis by (blast intro: forward_frame forward_trans record_action_forward)
  qed
qed

section \<open>Approvals\<close>

lemma request_body_forward: "request_body env a db = Inr (x, db') \<Longrightarrow> forward db db'"
proof -
  let ?d0 = "db\<lparr>db_approvals := db_approvals db @ [a\<lparr>ap_state := APending, ap_decision := None, ap_consumed := None, ap_owner := ee_epoch env\<rparr>]\<rparr>"
  let ?Q = "\<lambda>t. tu_id t = ap_turn a \<and> tu_state t = TRunning"
  assume "request_body env a db = Inr (x, db')"
  then obtain d where d: "update_turns ?Q TAwaiting None ?d0 = Inr d" and frame: "same_rows d db'"
    by (auto simp: request_body_def dest!: approval_event_rows)
  have "forward ?d0 d"
  proof (rule forward_turns_only [OF d])
    fix w t assume "?Q t" "agree (wk_state w) (tu_state t)"
    then show "agree (wk_state w) TAwaiting" by (cases "wk_state w") auto
  qed
  moreover have "same_rows db ?d0" by (simp add: same_rows_def)
  ultimately show ?thesis using frame by (blast intro: forward_frame)
qed

lemma end_wait_forward:
  assumes "update_turns (\<lambda>t. tu_id t = i \<and> tu_state t = TAwaiting) TRunning None db = Inr db'"
  shows "forward db db'"
proof (rule forward_turns_only [OF assms])
  fix w t assume "tu_id t = i \<and> tu_state t = TAwaiting" "agree (wk_state w) (tu_state t)"
  then show "agree (wk_state w) TRunning" by (cases "wk_state w") auto
qed

lemma decide_body_forward:
  assumes "decide_body env p i dec params h a db = Inr (x, db')"
  shows "forward db db'"
proof -
  from assms obtain d c r where "same_rows db d" "record_action env p ''approval.decide'' c h r d = Inr db'"
    by (auto simp: decide_body_def Let_def same_rows_def update_approval_def dest!: approval_event_rows)
  then show ?thesis by (blast intro: forward_frame record_action_forward)
qed

end
