(* ===== verification/Engine_Worker_Steps.thy ===== *)
theory Engine_Worker_Steps
  imports Engine_Turn_Steps
begin

text \<open>The evaluation worker: attempts are work items without a turn.\<close>

lemma attempt_work_Inr:
  "attempt_work db i = Inr (w, a, t) \<Longrightarrow> w \<in> set (db_work db) \<and> wk_id w = i \<and> wk_kind w = ''attempt''"
  by (auto simp: attempt_work_def dest!: find_opt_Some split: option.splits)

lemma same_rows_peel [simp]: "same_rows (tick d) e = same_rows d e" "same_rows (update_attempts P f d) e = same_rows d e"
  "same_rows (set_run_state r s d) e = same_rows d e" "same_rows e (tick d) = same_rows e d"
  "same_rows e (update_attempts P f d) = same_rows e d" "same_rows e (set_run_state r s d) = same_rows e d"
  by (simp_all add: same_rows_def tick_def update_attempts_def set_run_state_def)

lemma attempt_item_forward:
  assumes before: "same_rows db d0" and upd: "update_work (\<lambda>v. wk_id v = i) f d0 = Inr d1" and after: "same_rows d1 db'"
    and w: "w \<in> set (db_work db)" "wk_id w = i" "wk_kind w = ''attempt''"
    and step: "row_ok db \<Longrightarrow> later_work w (f w) \<and> (active (f w) \<longrightarrow> wk_owner (f w) \<noteq> None)"
  shows "forward db db'"
proof -
  have "w \<in> set (db_work d0)" using w(1) before by (simp add: same_rows_def)
  moreover have "row_ok d0 \<Longrightarrow> later_work w (f w) \<and> (active (f w) \<longrightarrow> wk_owner (f w) \<noteq> None)"
    using step same_rows_ok [OF before] by simp
  ultimately have "forward d0 d1"
    using w(2,3) by (intro forward_work_only [OF upd, of w]) auto
  then show ?thesis using before after by (blast intro: forward_frame)
qed

section \<open>Queueing and claiming\<close>

lemma queue_attempt_forward:
  assumes "queue_attempt env trial db = Inr (x, db')"
  shows "forward db db'"
proof -
  from assms obtain w d0 d1 where work: "insert_work w d0 = Inr d1" "wk_kind w = ''attempt''" "wk_state w = WQueued"
    and frame: "same_rows db d0" "same_rows d1 db'"
    by (auto simp: queue_attempt_def Let_def same_rows_def)
  have "forward d0 d1" using work by (intro forward_insert_work) auto
  with frame show ?thesis by (blast intro: forward_frame)
qed

lemma cancel_queued_forward:
  assumes "cancel_queued env w reason outcome db = Inr db'" "w \<in> set (db_work db)" "wk_kind w = ''attempt''" "wk_state w = WQueued"
  shows "forward db db'"
proof (rule attempt_item_forward [OF _ _ same_rows_refl assms(2) refl assms(3)])
  show "update_work (\<lambda>v. wk_id v = wk_id w) (\<lambda>v. v\<lparr>wk_state := WFinished, wk_version := wk_version v + 1\<rparr>)
     (update_attempts (\<lambda>a. at_id a = wk_business w)
         (\<lambda>a. a\<lparr>at_state := XCancelled, at_cleanup := KClean, at_ended := Some (utc_now env db), at_elapsed := Some 0,
            at_outcome := Some outcome, at_reason := json_str_opt reason\<rparr>) (tick db)) = Inr db'"
    using assms(1) by (simp add: cancel_queued_def)
qed (use assms(4) later_finished [of w] in \<open>auto simp: same_rows_def update_attempts_def\<close>)

lemma claim_attempt_forward:
  assumes "claim_attempt_body env p expires i v db = Inr (x, db')"
  shows "forward db db' \<and> (\<exists>w\<in>set (db_work db). wk_id w = i \<and> wk_state w = WQueued)
     \<and> (x \<noteq> None \<longrightarrow> (\<exists>w\<in>set (db_work db'). wk_id w = i \<and> wk_state w = WRunning))"
proof -
  from assms obtain w a t where found: "attempt_work db i = Inr (w, a, t)" and queued: "wk_state w = WQueued"
    by (auto simp: claim_attempt_body_def)
  note w = attempt_work_Inr [OF found]
  obtain run where run: "run_of p db (tl_run t) = Inr run" using assms found by (auto simp: claim_attempt_body_def)
  let ?duration = "attempt_duration db (jobj (rn_spec run)) (at_trial a)"
  show ?thesis
  proof (cases "?duration \<le> 0")
    case True
    then obtain d where "cancel_queued env w (JStr ''trial_wall_budget_exhausted'') ''budget_exhausted'' db = Inr d"
      "settle_run p (tl_run t) d = Inr db'" "x = None"
      using assms found run by (auto simp: claim_attempt_body_def)
    then show ?thesis using w queued cancel_queued_forward settle_run_rows forward_frame(2) by blast
  next
    case False
    let ?f = "\<lambda>v. v\<lparr>wk_state := WRunning, wk_owner := Some (ee_epoch env), wk_deadline := Some (expires ?duration), wk_version := wk_version v + 1\<rparr>"
    from assms found run False obtain d1 where d: "update_work (\<lambda>v. wk_id v = i) ?f (tick (tick (tick db))) = Inr d1" "same_rows d1 db'"
      by (auto simp: claim_attempt_body_def Let_def dest!: emit_event_rows)
    have "forward db db'"
      by (rule attempt_item_forward [OF _ d, of db w]) (use w queued in \<open>auto simp: later_work_def same_work_def\<close>)
    moreover have "?f w \<in> set (db_work db')" using d w by (auto simp: update_work_rows same_rows_def intro: rev_image_eqI [of w])
    ultimately have "forward db db' \<and> (\<exists>w\<in>set (db_work db'). wk_id w = i \<and> wk_state w = WRunning)"
      using w by (intro conjI bexI [of _ "?f w"]) simp_all
    then show ?thesis using w queued by blast
  qed
qed

section \<open>The end of an attempt\<close>

lemma owned_Inr: "owned env db i owner v = Inr (w, a, t) \<Longrightarrow> w \<in> set (db_work db) \<and> wk_id w = i \<and> wk_kind w = ''attempt'' \<and> active w"
  by (auto simp: owned_def dest!: attempt_work_Inr)

lemma later_settled: "active w \<Longrightarrow> s \<in> {WFinished, WReconciling} \<Longrightarrow> later_work w (w\<lparr>wk_state := s, wk_version := n\<rparr>)
    \<and> \<not> active (w\<lparr>wk_state := s, wk_version := n\<rparr>)"
  by (auto simp: later_work_def same_work_def active_def)

lemma heartbeat_rows: "heartbeat env i owner v db = (Inr x, db') \<Longrightarrow> same_rows db db'"
  unfolding heartbeat_def
  by (erule transaction_Inr) (auto simp: same_rows_def update_attempts_def dest!: attempt_event_rows)

lemma finish_attempt_forward:
  assumes "finish_attempt_body env p i owner v e db = Inr (x, db')"
  shows "forward db db'"
proof -
  let ?f = "\<lambda>v. v\<lparr>wk_state := (if ae_cleanup e = KClean then WFinished else WReconciling), wk_version := wk_version v + 1\<rparr>"
  from assms obtain w a t P g d1 d2 where w: "owned env db i owner v = Inr (w, a, t)"
    and d: "update_work (\<lambda>v. wk_id v = i) ?f (update_attempts P g (tick db)) = Inr d1" "same_rows d1 d2" "same_rows d2 db'"
    unfolding finish_attempt_body_def Let_def
    by (auto dest!: attempt_event_rows settle_run_rows)
  have same: "same_rows d1 db'" using d(2,3) by (rule same_rows_trans)
  show ?thesis
    by (rule attempt_item_forward [OF _ d(1) same, of db w]) (use owned_Inr [OF w] later_settled [of w] in auto)
qed

lemma reconcile_attempt_forward:
  assumes "reconcile_attempt_body env p i v c db = Inr (x, db')"
  shows "forward db db'"
proof -
  let ?f = "\<lambda>v. v\<lparr>wk_state := WFinished, wk_version := wk_version v + 1\<rparr>"
  from assms obtain w a t where w: "attempt_work db i = Inr (w, a, t)" "wk_state w = WReconciling"
    by (auto simp: reconcile_attempt_body_def)
  obtain P g d1 d2 where d: "update_work (\<lambda>v. wk_id v = i) ?f (update_attempts P g (tick db)) = Inr d1" "same_rows d1 d2" "same_rows d2 db'"
    using assms w
    by (auto simp: reconcile_attempt_body_def split: option.splits dest!: emit_event_rows settle_run_rows)
  have same: "same_rows d1 db'" using d(2,3) by (rule same_rows_trans)
  show ?thesis
    by (rule attempt_item_forward [OF _ d(1) same, of db w]) (use attempt_work_Inr [OF w(1)] w(2) later_finished [of w] in auto)
qed

section \<open>The cancellation of a run\<close>

lemma cancel_attempt_forward:
  assumes "cancel_attempt env reason db i = Inr db'" "\<exists>w\<in>set (db_work db). wk_id w = i \<and> wk_state w \<in> {WQueued, WRunning}"
  shows "forward db db' \<and> (\<forall>w\<in>set (db_work db). wk_id w \<noteq> i \<longrightarrow> w \<in> set (db_work db'))"
proof -
  from assms obtain w a t where found: "attempt_work db i = Inr (w, a, t)" by (auto simp: cancel_attempt_def)
  note w = attempt_work_Inr [OF found]
  show ?thesis
  proof (cases "wk_state w = WQueued")
    case True
    then have cancel: "cancel_queued env w reason ''cancelled'' db = Inr db'" using assms(1) found by (simp add: cancel_attempt_def)
    have "forward db db'" by (rule cancel_queued_forward [OF cancel]) (use w True in auto)
    moreover have "v \<in> set (db_work db')" if "v \<in> set (db_work db)" "wk_id v \<noteq> i" for v
      using cancel w that by (auto simp: cancel_queued_def update_work_rows update_attempts_def intro: rev_image_eqI [of v])
    ultimately show ?thesis by blast
  next
    case False
    let ?f = "\<lambda>v. v\<lparr>wk_state := WCancelRequested\<rparr>"
    have upd: "update_work (\<lambda>v. wk_id v = i) ?f db = Inr db'" using assms(1) found w False by (simp add: cancel_attempt_def)
    have "forward db db'"
    proof (rule attempt_item_forward [OF same_rows_refl upd same_rows_refl, of w])
      assume ok: "row_ok db"
      obtain u where "u \<in> set (db_work db)" "wk_id u = i" "wk_state u \<in> {WQueued, WRunning}" using assms(2) by blast
      then have "wk_state w = WRunning" using unique_work [OF ok, of u w] w False by auto
      then show "later_work w (?f w) \<and> (active (?f w) \<longrightarrow> wk_owner (?f w) \<noteq> None)"
        using row_ok_owner [OF ok] w by (auto simp: later_work_def same_work_def active_def)
    qed (use w in auto)
    moreover have "v \<in> set (db_work db')" if "v \<in> set (db_work db)" "wk_id v \<noteq> i" for v
      using upd that by (auto simp: update_work_rows intro: rev_image_eqI [of v])
    ultimately show ?thesis by blast
  qed
qed

lemma cancel_attempts_forward:
  "rfold (cancel_attempt env reason) db js = Inr db' \<Longrightarrow> distinct js \<Longrightarrow>
     (\<And>i. i \<in> set js \<Longrightarrow> \<exists>w\<in>set (db_work db). wk_id w = i \<and> wk_state w \<in> {WQueued, WRunning}) \<Longrightarrow> forward db db'"
proof (induction js arbitrary: db)
  case (Cons i js)
  then obtain d where d: "cancel_attempt env reason db i = Inr d" and rest: "rfold (cancel_attempt env reason) d js = Inr db'" by auto
  note step = cancel_attempt_forward [OF d Cons.prems(3) [of i]]
  have "forward d db'"
  proof (rule Cons.IH [OF rest])
    fix j assume j: "j \<in> set js"
    then obtain w where "w \<in> set (db_work db)" "wk_id w = j" "wk_state w \<in> {WQueued, WRunning}" using Cons.prems(3) [of j] by auto
    moreover have "j \<noteq> i" using j Cons.prems(2) by auto
    ultimately show "\<exists>w\<in>set (db_work d). wk_id w = j \<and> wk_state w \<in> {WQueued, WRunning}" using step by auto
  qed (use Cons.prems(2) in simp)
  then show ?case using step by (auto intro: forward_trans)
qed auto

lemma cancel_run_forward:
  assumes "cancel_run env p run reason db = Inr db'"
  shows "forward db db'"
proof -
  let ?is = "map wk_id (filter (\<lambda>w. wk_state w = WQueued \<or> wk_state w = WRunning) (run_work db run))"
  from assms obtain d where d: "rfold (cancel_attempt env reason) db ?is = Inr d" and frame: "same_rows d db'"
    by (auto simp: cancel_run_def dest: settle_run_rows)
  show ?thesis unfolding forward_def
  proof
    assume ok: "row_ok db"
    have "distinct ?is" using ok by (auto simp: row_ok_def run_work_def distinct_map inj_on_def)
    then have "forward db d" by (rule cancel_attempts_forward [OF d]) (auto simp: run_work_def)
    then have "forward db db'" using frame by (rule forward_frame)
    then show "row_ok db' \<and> grows db db'" using ok by (simp add: forward_def)
  qed
qed

section \<open>Mutations\<close>

text \<open>A callback of \<open>_mutate\<close>: whatever it changes moves forward.\<close>

definition forward_step :: "'a db_step \<Rightarrow> bool" where
  "forward_step step \<longleftrightarrow> (\<forall>db x db'. step db = Inr (x, db') \<longrightarrow> forward db db')"

lemma queue_all_forward:
  "rfold (\<lambda>db t. rbind (queue_attempt env t db) (\<lambda>(_, db). Inr db)) db ts = Inr db' \<Longrightarrow> forward db db'"
  by (induction ts arbitrary: db) (auto intro: forward_trans queue_attempt_forward)

lemma forward_peel [simp]: "forward db (set_run_state r s d) = forward db d" "forward (set_run_state r s d) db = forward d db"
  "forward db (d\<lparr>db_in_tx := b\<rparr>) = forward db d" "forward (d\<lparr>db_in_tx := b\<rparr>) db = forward d db"
  by (simp_all add: forward_def row_ok_def grows_def single_running_def set_run_state_def)

lemma start_run_forward: "forward_step (start_run_body env p frozen run)"
  by (auto simp: forward_step_def start_run_body_def Let_def dest!: queue_all_forward split: if_splits)

lemma cancel_evaluation_forward: "forward_step (cancel_run_body env p run reason)"
  by (auto simp: forward_step_def cancel_run_body_def dest!: cancel_run_forward split: if_splits)

lemma retry_forward: "forward_step (retry_body env p frozen trial)"
  unfolding forward_step_def
proof (intro allI impI)
  fix db x db' assume retry: "retry_body env p frozen trial db = Inr (x, db')"
  then obtain t where t: "find_opt (\<lambda>t. tl_id t = trial) (db_trials db) = Some t"
    by (auto simp: retry_body_def split: option.splits)
  let ?previous = "find_opt (\<lambda>a. tl_selected t = Some (at_id a) \<and> (\<exists>w\<in>set (db_work db). wk_id w = at_work a)) (db_attempts db)"
  obtain a where "?previous = Some a" using retry t by (cases ?previous) (auto simp: retry_body_def Let_def)
  with retry t obtain d s where "queue_attempt env trial db = Inr (x, d)" "db' = set_run_state (tl_run t) s d"
    by (auto simp: retry_body_def Let_def)
  then show "forward db db'" by (simp add: queue_attempt_forward)
qed

lemma transaction_forward:
  assumes "transaction body db = (r, db')" "forward_step body"
  shows "forward db db'"
  using assms(1)
proof (cases rule: transaction_cases)
  case (2 x d)
  then have "forward (db\<lparr>db_in_tx := True\<rparr>) d" using assms(2) unfolding forward_step_def by blast
  then show ?thesis using 2(3) by simp
qed auto

lemma mutate_body_forward:
  assumes "forward_step callback"
  shows "forward_step (\<lambda>db. rbind (canonical_hash env j) (\<lambda>hash. rbind (existing_action p m c hash db) (\<lambda>existing.
     case existing of Some r \<Rightarrow> Inr (f r, db)
     | None \<Rightarrow> rbind (callback db) (\<lambda>(result, db). rbind (v result) (\<lambda>_. rbind (record_action env p m c hash result db) (\<lambda>db.
         Inr (result, db)))))))"
  unfolding forward_step_def
proof (intro allI impI, goal_cases)
  case (1 db x db')
  then obtain hash e where e: "canonical_hash env j = Inr hash" "existing_action p m c hash db = Inr e" by auto
  show ?case
  proof (cases e)
    case None
    with 1 e obtain d where "callback db = Inr (x, d)" "record_action env p m c hash x d = Inr db'" by auto
    then show ?thesis using assms record_action_forward unfolding forward_step_def by (blast intro: forward_trans)
  qed (use 1 e in auto)
qed

lemma mutate_forward:
  assumes "mutate env p m params callback db = (r, db')" "forward_step callback"
  shows "forward db db'"
proof (cases "pe_methods env m")
  case (Some d)
  with assms show ?thesis
    by (auto simp: mutate_def split: sum.splits dest!: transaction_forward intro: mutate_body_forward)
qed (use assms in \<open>auto simp: mutate_def\<close>)

end
