(* ===== verification/Engine_Facts.thy ===== *)
theory Engine_Facts
  imports Engine_Worker_Steps
begin

text \<open>
  The engine as a state machine: one step is one operation of one process, whatever its
  environment (clock, epoch, profile) is. Several processes over time are runs with different
  environments; what happens between two operations of a turn is any sequence of steps.
\<close>

lemma same_rows_peel_more [simp]: "same_rows (update_approval P f2 d) e = same_rows d e" "same_rows e (update_approval P f2 d) = same_rows e d"
  by (simp_all add: same_rows_def update_approval_def)

lemma claim_step: "claim_work_item env i v e db = (r, db') \<Longrightarrow> forward db db'"
  unfolding claim_work_item_def by (erule transaction_forward) (auto simp: forward_step_def dest: claim_body_forward)

lemma accept_step: "accept_turn env p params conf m ap db = (r, db') \<Longrightarrow> forward db db'"
  by (auto simp: accept_turn_def forward_step_def split: sum.splits intro: accept_body_forward dest!: transaction_forward)

lemma cancel_step: "cancel_turn env p params db = (r, db') \<Longrightarrow> forward db db'"
  by (auto simp: cancel_turn_def forward_step_def split: sum.splits intro: cancel_body_forward dest!: transaction_forward)

lemma mark_step: "mark_indeterminate env i v db = (r, db') \<Longrightarrow> forward db db'"
  unfolding mark_indeterminate_def by (erule transaction_forward) (auto simp: forward_step_def intro: mark_indeterminate_forward)

lemma finish_item_step: "finish_work_item env i v owner outcome db = (r, db') \<Longrightarrow> forward db db'"
  by (auto simp: finish_work_item_def forward_step_def split: if_splits intro: finish_work_forward dest!: transaction_forward)

lemma open_step: "open_store env db = (r, db') \<Longrightarrow> forward db db'"
  by (auto simp: open_store_def forward_step_def split: if_splits intro: open_body_forward dest!: transaction_forward)

lemma request_step: "request_turn_approval env a db = (r, db') \<Longrightarrow> forward db db'"
  unfolding request_turn_approval_def by (erule transaction_forward) (auto simp: forward_step_def intro: request_body_forward)

lemma life_step: "start_deadline env t x db = (r, db') \<Longrightarrow> forward db db'" "start_cleanup env t db = (r, db') \<Longrightarrow> forward db db'"
  unfolding start_deadline_def start_cleanup_def
  by (erule transaction_forward, auto simp: forward_step_def)+

lemma expire_frame:
  assumes "(if c then approval_event env k v x (update_approval P f db) else Inr db) = Inr d"
  shows "same_rows db d"
  using assms by (auto dest!: approval_event_rows split: if_splits)

lemma end_wait_step: "end_wait env a db = (r, db') \<Longrightarrow> forward db db'"
  unfolding end_wait_def
proof (erule transaction_forward, unfold forward_step_def Let_def rbind_Inr_iff, safe, goal_cases)
  case (1 db _ db' d d')
  then show ?case by (auto dest!: expire_frame end_wait_forward intro: forward_frame)
qed

lemma consume_step: "consume_approval env expired waiting i b db = (r, db') \<Longrightarrow> forward db db'"
  by (auto simp: consume_approval_def forward_step_def Let_def same_rows_forward split: sum.splits dest!: transaction_forward)

lemma heartbeat_step: "heartbeat env i owner v db = (r, db') \<Longrightarrow> forward db db'"
  unfolding heartbeat_def
proof (erule transaction_forward, unfold forward_step_def rbind_Inr_iff, safe, goal_cases)
  case (1 db _ db')
  then show ?case by (auto dest!: attempt_event_rows)
qed

lemma attempt_steps:
  "claim_attempt env p expires i v db = (r2, db') \<Longrightarrow> forward db db'"
  "finish_attempt env p i owner v e db = (r3, db') \<Longrightarrow> forward db db'"
  "reconcile_attempt env p i v c db = (r4, db') \<Longrightarrow> forward db db'"
  by (auto simp: claim_attempt_def finish_attempt_def reconcile_attempt_def forward_step_def dest: claim_attempt_forward
      intro: finish_attempt_forward reconcile_attempt_forward split: sum.splits dest!: transaction_forward)

lemma mutation_steps:
  "start_run env p frozen params db = (r5, db') \<Longrightarrow> forward db db'"
  "cancel_evaluation env p params db = (r6, db') \<Longrightarrow> forward db db'"
  "retry_attempt env p frozen params db = (r7, db') \<Longrightarrow> forward db db'"
  unfolding start_run_def cancel_evaluation_def retry_attempt_def
  by (auto dest!: mutate_forward intro: start_run_forward cancel_evaluation_forward retry_forward)

lemma quarantine_step:
  assumes "quarantine_event env b s n db = (r, db')"
  shows "forward db db'"
proof (cases "canonical_hash env (JObj (dict_pop b ''store_seq''))")
  case (Inr h)
  show ?thesis using assms unfolding quarantine_event_def Inr sum.case
    by (rule transaction_forward) (auto simp: forward_step_def Let_def same_rows_def intro!: same_rows_forward)
qed (use assms in \<open>simp add: quarantine_event_def\<close>)

lemma append_step: "append_event env b s n db = (r, db') \<Longrightarrow> forward db db'"
proof -
  assume a: "append_event env b s n db = (r, db')"
  obtain r1 d where t: "transaction (insert_event env b s n) db = (r1, d)" by fastforce
  have "forward db d" using t by (rule transaction_forward) (auto simp: forward_step_def dest: insert_event_rows)
  moreover have "forward d db'"
    using a t by (auto simp: append_event_def split: sum.splits engine_exn.splits prod.splits if_splits dest: quarantine_step)
  ultimately show ?thesis by (rule forward_trans)
qed

lemma import_step: "import_observation env b s n db = (r, db') \<Longrightarrow> forward db db'"
proof (cases "n < 1 \<or> 2 ^ 63 \<le> n \<or> s = [] \<or> 128 < length s")
  case False
  let ?body = "\<lambda>db. (let db1 = (if dict_get (db_producers db) (''import:'' @ s) = None
     then (tick db)\<lparr>db_producers := dict_set (db_producers db) (''import:'' @ s) (new_id env ''producer'' db)\<rparr> else db) in
     Inr (expected_producer db1 (''import:'' @ s), db1))"
  assume a: "import_observation env b s n db = (r, db')"
  obtain r1 d where t: "transaction ?body db = (r1, d)" by fastforce
  have "forward db d" using t by (rule transaction_forward) (auto simp: forward_step_def Let_def same_rows_def)
  moreover have "forward d db'"
    using a unfolding import_observation_def if_not_P [OF False] Let_def t [unfolded Let_def]
    by (auto split: sum.splits if_splits dest: append_step simp: forward_refl)
  ultimately show ?thesis by (rule forward_trans)
qed (simp add: import_observation_def)

lemma scope_step: "register_execution_scope env x db = (r, db') \<Longrightarrow> forward db db'"
  unfolding register_execution_scope_def
proof (erule transaction_forward, unfold forward_step_def, safe, goal_cases)
  case (1 db _ db')
  then show ?case by (auto dest!: trace_scope_rows simp: same_rows_def intro!: same_rows_forward)
qed

lemma consume_nonce_rows: "consume_nonce env c tok pu j b tokens db = (Inr db', tokens') \<Longrightarrow> same_rows db db'"
  by (auto simp: consume_nonce_def Let_def same_rows_def split: option.splits if_splits)

lemma transaction_nothing: "transaction (\<lambda>db. Inr (c, db)) db = (x, d) \<Longrightarrow> forward db d"
  by (erule transaction_forward) (simp add: forward_step_def)

lemma decide_step:
  assumes "decide env p c expired waiting params tokens old db = (r, tokens', db')"
  shows "db' = old \<or> forward db db'"
proof -
  have "forward_step (\<lambda>db. rbind (fst (consume_nonce env c tok pu i b tokens db)) (\<lambda>db. decide_body env p i dec params h a db))"
    for tok pu i b dec h a
  proof (unfold forward_step_def, intro allI impI)
    fix db x db' assume "rbind (fst (consume_nonce env c tok pu i b tokens db)) (\<lambda>db. decide_body env p i dec params h a db) = Inr (x, db')"
    then obtain d tk where d: "consume_nonce env c tok pu i b tokens db = (Inr d, tk)" and b: "decide_body env p i dec params h a d = Inr (x, db')"
      by (cases "consume_nonce env c tok pu i b tokens db") auto
    then show "forward db db'" by (blast intro: forward_frame decide_body_forward dest: consume_nonce_rows)
  qed
  then have written: "forward db d"
    if "transaction (\<lambda>db. rbind (fst (consume_nonce env c tok pu i b tokens db)) (\<lambda>db. decide_body env p i dec params h a db)) db = (x, d)"
    for tok pu i b dec h a x d using transaction_forward [OF that] by blast
  show ?thesis
    using assms unfolding decide_def Let_def
    by (auto split: sum.splits option.splits if_splits prod.splits dest!: written transaction_nothing)
qed

lemma retain_step:
  assumes "retain_for_recovery work turn cleanup db = (r, db')"
    and "w \<in> set (db_work db)" "wk_id w = work" "wk_business w = turn" "turn \<in> tu_id ` set (db_turns db)"
  shows "forward db db'"
  using assms(1) unfolding retain_for_recovery_def
proof (cases rule: transaction_cases)
  case (2 x d)
  have "forward (db\<lparr>db_in_tx := True\<rparr>) d" using 2(2) by (rule retain_forward) (use assms in auto)
  with 2(3) show ?thesis by simp
qed simp

lemma finish_turn_step:
  assumes "finish_turn env work turn outcome reason result cleanup db = (r, db')"
    and "w \<in> set (db_work db)" "wk_id w = wk_id work" "wk_business w = tu_id turn" "tu_id turn \<in> tu_id ` set (db_turns db)"
  shows "forward db db'"
  using assms(1) unfolding finish_turn_def
proof (cases rule: transaction_cases)
  case (2 x d)
  have "forward (db\<lparr>db_in_tx := True\<rparr>) d" using 2(2) by (rule finish_body_forward) (use assms in auto)
  with 2(3) show ?thesis by simp
qed simp

lemma bind_step:
  assumes "bind_native session turn ref db = (r, db')"
    and "\<forall>t\<in>set (db_turns db). tu_id t = turn \<longrightarrow> tu_state t \<noteq> TFinished"
  shows "forward db db'"
  using assms(1) unfolding bind_native_def
proof (cases rule: transaction_cases)
  case (2 x d)
  let ?g = "\<lambda>t. if tu_id t = turn then t\<lparr>tu_native := Some ref\<rparr> else t"
  have rows: "rows_of (\<lambda>w. w) ?g db db'" using 2 by (auto simp: rows_of_def)
  have work: "db_work db' = db_work db" using rows by (simp add: rows_of_def)
  show ?thesis
  proof (rule forward_update [OF rows])
    show "row_ok db \<Longrightarrow> single_running db'" using row_ok_single [of db] work by (simp add: single_running_def)
  qed (use assms(2) row_ok_owner row_ok_outcome in \<open>auto simp: later_turn_def\<close>)
qed simp

section \<open>The step relation\<close>

text \<open>
  \<open>execute_turn\<close> reads the turn and its work item together before it claims the item, and binds the
  native session while it runs the turn, before it finishes it itself; the rules \<open>Finish\<close>, \<open>Retain\<close>
  and \<open>Bind\<close> carry this as their premises.
\<close>

inductive engine_step :: "engine_db \<Rightarrow> engine_db \<Rightarrow> bool" where
  Open: "open_store (env :: engine_env) db = (r, db') \<Longrightarrow> engine_step db db'"
| Accept: "accept_turn (env :: engine_env) profile params configuration method action_params db = (r, db') \<Longrightarrow> engine_step db db'"
| Claim: "claim_work_item (env :: engine_env) i version emit db = (r, db') \<Longrightarrow> engine_step db db'"
| Deadline: "start_deadline (env :: engine_env) turn expires db = (r, db') \<Longrightarrow> engine_step db db'"
| Cleanup: "start_cleanup (env :: engine_env) turn db = (r, db') \<Longrightarrow> engine_step db db'"
| Bind: "bind_native session turn ref db = (r, db') \<Longrightarrow> \<forall>t\<in>set (db_turns db). tu_id t = turn \<longrightarrow> tu_state t \<noteq> TFinished
    \<Longrightarrow> engine_step db db'"
| Finish: "finish_turn (env :: engine_env) work t outcome reason result cleanup db = (r, db') \<Longrightarrow> w \<in> set (db_work db) \<Longrightarrow> wk_id w = wk_id work
    \<Longrightarrow> wk_business w = tu_id t \<Longrightarrow> tu_id t \<in> tu_id ` set (db_turns db) \<Longrightarrow> engine_step db db'"
| Retain: "retain_for_recovery work turn cleanup db = (r, db') \<Longrightarrow> w \<in> set (db_work db) \<Longrightarrow> wk_id w = work
    \<Longrightarrow> wk_business w = turn \<Longrightarrow> turn \<in> tu_id ` set (db_turns db) \<Longrightarrow> engine_step db db'"
| Finish_item: "finish_work_item (env :: engine_env) i version owner outcome db = (r, db') \<Longrightarrow> engine_step db db'"
| Mark: "mark_indeterminate (env :: engine_env) i version db = (r, db') \<Longrightarrow> engine_step db db'"
| Cancel: "cancel_turn (env :: engine_env) profile params db = (r, db') \<Longrightarrow> engine_step db db'"
| Request: "request_turn_approval (env :: engine_env) a db = (r, db') \<Longrightarrow> engine_step db db'"
| Decide: "decide (env :: engine_env) profile c expired waiting params tokens old db = (r, tokens', db') \<Longrightarrow> db' \<noteq> old \<Longrightarrow> engine_step db db'"
| Consume: "consume_approval (env :: engine_env) expired waiting i binding db = (r, db') \<Longrightarrow> engine_step db db'"
| End_wait: "end_wait (env :: engine_env) a db = (r, db') \<Longrightarrow> engine_step db db'"
| Claim_attempt: "claim_attempt (env :: engine_env) profile duration i version db = (r, db') \<Longrightarrow> engine_step db db'"
| Heartbeat: "heartbeat (env :: engine_env) i owner version db = (r, db') \<Longrightarrow> engine_step db db'"
| Finish_attempt: "finish_attempt (env :: engine_env) profile i owner version e db = (r, db') \<Longrightarrow> engine_step db db'"
| Reconcile_attempt: "reconcile_attempt (env :: engine_env) profile i version c db = (r, db') \<Longrightarrow> engine_step db db'"
| Start_run: "start_run (env :: engine_env) profile frozen params db = (r, db') \<Longrightarrow> engine_step db db'"
| Cancel_run: "cancel_evaluation (env :: engine_env) profile params db = (r, db') \<Longrightarrow> engine_step db db'"
| Retry: "retry_attempt (env :: engine_env) profile frozen params db = (r, db') \<Longrightarrow> engine_step db db'"
| Event: "append_event (env :: engine_env) body source seq db = (r, db') \<Longrightarrow> engine_step db db'"
| Import: "import_observation (env :: engine_env) body source seq db = (r, db') \<Longrightarrow> engine_step db db'"
| Scope: "register_execution_scope (env :: engine_env) x db = (r, db') \<Longrightarrow> engine_step db db'"

lemma engine_step_forward: "engine_step db db' \<Longrightarrow> forward db db'"
proof (induction rule: engine_step.induct)
  case (Decide env profile c expired waiting params tokens old db r tokens' db')
  then show ?case using decide_step by blast
qed (blast intro: open_step accept_step claim_step life_step bind_step finish_turn_step retain_step finish_item_step mark_step cancel_step
  request_step consume_step end_wait_step attempt_steps heartbeat_step mutation_steps append_step import_step scope_step)+

lemma steps_forward: "engine_step\<^sup>*\<^sup>* db db' \<Longrightarrow> forward db db'"
  by (induction rule: rtranclp_induct) (auto intro: forward_trans engine_step_forward)

definition empty_rows :: "engine_db \<Rightarrow> bool" where
  "empty_rows db \<longleftrightarrow> db_work db = [] \<and> db_turns db = [] \<and> db_actions db = []"

definition engine_reachable :: "engine_db \<Rightarrow> bool" where
  "engine_reachable db \<longleftrightarrow> (\<exists>db0. empty_rows db0 \<and> engine_step\<^sup>*\<^sup>* db0 db)"

lemma reachable_ok: "engine_reachable db \<Longrightarrow> row_ok db"
proof -
  assume "engine_reachable db"
  then obtain db0 where "empty_rows db0" "forward db0 db" by (auto simp: engine_reachable_def dest: steps_forward)
  then show ?thesis by (simp add: forward_def row_ok_def empty_rows_def single_running_def)
qed

lemma reachable_grows: "engine_reachable db \<Longrightarrow> engine_step\<^sup>*\<^sup>* db db' \<Longrightarrow> engine_reachable db' \<and> grows db db'"
  using reachable_ok [of db] steps_forward [of db db'] by (auto simp: engine_reachable_def forward_def intro: rtranclp_trans)

end
