(* ===== verification/Engine_Safety.thy ===== *)
theory Engine_Safety
  imports Engine_Facts
begin

text \<open>What the engine promises over all its operations, by any number of processes, in any order.\<close>

section \<open>Sample values\<close>

definition sample_env :: "str \<Rightarrow> engine_env" where
  "sample_env epoch = \<lparr>pe_sha = (\<lambda>_. ''hash''), pe_frepr = (\<lambda>_. ''1.0''), pe_contract = (\<lambda>_ _. None), pe_methods = (\<lambda>_. None), pe_events = Some,
     ee_epoch = epoch, ee_uuid = nat_str, ee_now = (\<lambda>n. nat_str n), ee_ns = (\<lambda>n. n), ee_prices = None, ee_capture = ''off'',
     ee_project = (\<lambda>_ _. None)\<rparr>"

definition sample_db :: engine_db where
  "sample_db = \<lparr>db_read_only = False, db_in_tx = False, db_tick = 0, db_producer = ''producer'', db_work = [], db_turns = [], db_life = [],
     db_results = [], db_actions = [], db_sessions = [\<lparr>es_id = ''s'', es_workspace = ''w'', es_legacy = None, es_created = ''0''\<rparr>],
     db_workspaces = [\<lparr>ew_id = ''w'', ew_path = ''p'', ew_identity = ''i'', ew_trust = ''t'', ew_revision = 0\<rparr>], db_snapshots = [],
     db_turn_profiles = [], db_turn_observation = [], db_events = [], db_last_seq = 0, db_producers = [], db_conflicts = [], db_traces = [],
     db_executions = [], db_recoveries = [], db_attempts = [], db_attempt_recoveries = [], db_trials = [], db_runs = [], db_grades = [],
     db_approvals = [], db_nonces = []\<rparr>"

definition sample_params :: jdict where
  "sample_params = [(''session_id'', JStr ''s''), (''expected_workspace_revision'', JInt 0), (''client_action_id'', JStr ''c''), (''input'', JList [])]"

definition sample_accept :: "(engine_exn + jdict) \<times> engine_db" where
  "sample_accept = accept_turn (sample_env ''e'') ''profile'' sample_params [] ''session.start_turn'' sample_params sample_db"

definition accepted_db :: engine_db where
  "accepted_db = snd sample_accept"

definition claimed_db :: engine_db where
  "claimed_db = snd (claim_work_item (sample_env ''e'') ''work-2'' 0 True accepted_db)"

lemma sample_accepted:
  "sample_accept = (Inr [(''turn_id'', JStr ''turn-1''), (''state'', JStr ''queued''), (''accepted'', JBool True),
     (''reused_existing_action'', JBool False)], accepted_db)"
proof -
  have "fst sample_accept = Inr [(''turn_id'', JStr ''turn-1''), (''state'', JStr ''queued''), (''accepted'', JBool True),
     (''reused_existing_action'', JBool False)]" by code_simp
  then show ?thesis by (simp add: accepted_db_def prod_eq_iff)
qed

lemma reachable_sample: "engine_reachable sample_db"
proof -
  have "empty_rows sample_db" by (simp add: sample_db_def empty_rows_def)
  then show ?thesis unfolding engine_reachable_def by blast
qed

lemma reachable_step: "engine_reachable db \<Longrightarrow> engine_step db db' \<Longrightarrow> engine_reachable db'"
  by (auto simp: engine_reachable_def intro: rtranclp.rtrancl_into_rtrancl)

lemma accepted_step: "engine_step sample_db accepted_db"
  using sample_accepted unfolding sample_accept_def by (rule Accept)

lemma accepted_reachable: "engine_reachable accepted_db"
  using reachable_sample accepted_step by (rule reachable_step)

lemma claimed_state:
  "map wk_id (db_work claimed_db) = [''work-2''] \<and> map wk_state (db_work claimed_db) = [WRunning]
   \<and> map wk_owner (db_work claimed_db) = [Some ''e''] \<and> \<not> db_in_tx claimed_db \<and> \<not> db_read_only claimed_db
   \<and> map tu_state (db_turns claimed_db) = [TRunning]"
  by code_simp

lemma claimed: "\<exists>row. claim_work_item (sample_env ''e'') ''work-2'' 0 True accepted_db = (Inr row, claimed_db)"
proof -
  let ?r = "claim_work_item (sample_env ''e'') ''work-2'' 0 True accepted_db"
  have "\<not> isl (fst ?r)" by code_simp
  then have "fst ?r = Inr (projr (fst ?r))" by simp
  then show ?thesis by (metis claimed_db_def prod.collapse)
qed

lemma claimed_reachable: "engine_reachable claimed_db"
  using claimed accepted_reachable by (blast intro: reachable_step Claim)

section \<open>Consistency\<close>

text \<open>
  C26: After any sequence of operations of any processes at most one work item is running; every
  turn has exactly one work item, and the states of the two agree; a turn has an outcome exactly
  when it is finished; and a running or cancelled item has an owner.
\<close>

theorem engine_rows_consistent:
  assumes "engine_reachable db"
  shows "length (filter (\<lambda>w. wk_state w = WRunning) (db_work db)) \<le> 1
    \<and> (\<forall>t\<in>set (db_turns db). (\<exists>!w. w \<in> set (db_work db) \<and> wk_business w = tu_id t)
         \<and> (\<forall>w\<in>set (db_work db). wk_business w = tu_id t \<longrightarrow> agree (wk_state w) (tu_state t))
         \<and> (tu_state t = TFinished \<longleftrightarrow> tu_outcome t \<noteq> None))
    \<and> (\<forall>w\<in>set (db_work db). active w \<longrightarrow> wk_owner w \<noteq> None)"
proof (intro conjI ballI impI)
  have ok: "row_ok db" using assms by (rule reachable_ok)
  show "length (filter (\<lambda>w. wk_state w = WRunning) (db_work db)) \<le> 1"
    using row_ok_single [OF ok] by (simp add: single_running_def)
  show "wk_owner w \<noteq> None" if "w \<in> set (db_work db)" "active w" for w using row_ok_owner [OF ok] that by blast
  fix t assume t: "t \<in> set (db_turns db)"
  show "\<exists>!w. w \<in> set (db_work db) \<and> wk_business w = tu_id t"
    using ok t unique_work [OF ok] unfolding row_ok_def by metis
  show "tu_state t = TFinished \<longleftrightarrow> tu_outcome t \<noteq> None" using row_ok_outcome [OF ok t] .
  fix w assume w: "w \<in> set (db_work db)" "wk_business w = tu_id t"
  show "agree (wk_state w) (tu_state t)"
    by (rule agree_of [OF ok w(1) turn_work_kind [OF ok w(1) t w(2)] t w(2) [symmetric]])
qed

theorem engine_rows_consistent_witness:
  "length (filter (\<lambda>w. wk_state w = WRunning) (db_work claimed_db)) \<le> 1"
  using engine_rows_consistent [OF claimed_reachable] by blast

section \<open>Executions start once\<close>

text \<open>An operation that starts the item \<open>i\<close>: a claim of a turn or of an attempt that returns it.\<close>

definition starts_work :: "str \<Rightarrow> engine_db \<Rightarrow> engine_db \<Rightarrow> bool" where
  "starts_work i db db' \<longleftrightarrow>
     (\<exists>(env :: engine_env) version emit row. claim_work_item env i version emit db = (Inr row, db'))
   \<or> (\<exists>(env :: engine_env) profile expires version seconds. claim_attempt env profile expires i version db = (Inr (Some seconds), db'))"

lemma starts_work_states:
  assumes "starts_work i db db'"
  shows "(\<exists>w\<in>set (db_work db). wk_id w = i \<and> wk_state w = WQueued) \<and> (\<exists>w\<in>set (db_work db'). wk_id w = i \<and> wk_state w = WRunning)
    \<and> engine_step db db'"
  using assms unfolding starts_work_def
proof (elim disjE exE)
  fix env :: engine_env and v e row assume c: "claim_work_item env i v e db = (Inr row, db')"
  obtain d where "claim_body env i v e (db\<lparr>db_in_tx := True\<rparr>) = Inr (row, d)" "db' = d\<lparr>db_in_tx := False\<rparr>"
    using c unfolding claim_work_item_def by (rule transaction_Inr)
  then show ?thesis using claim_body_forward [of env i v e] Claim [OF c] by fastforce
next
  fix env :: engine_env and p x v s assume c: "claim_attempt env p x i v db = (Inr (Some s), db')"
  obtain d where "claim_attempt_body env p x i v (db\<lparr>db_in_tx := True\<rparr>) = Inr (Some s, d)" "db' = d\<lparr>db_in_tx := False\<rparr>"
    using c unfolding claim_attempt_def by (rule transaction_Inr)
  then show ?thesis using claim_attempt_forward [of env p x i v] Claim_attempt [OF c] by fastforce
qed

text \<open>
  C27: A work item is started at most once. After a turn or an attempt was claimed, no sequence of
  operations (finishing, cancelling, crashing and reopening the store included) leads to a state in
  which any process can claim it again.
\<close>

theorem work_started_once:
  assumes "engine_reachable db" and "starts_work i db db1" and "engine_step\<^sup>*\<^sup>* db1 db2"
  shows "\<not> starts_work i db2 db3"
proof
  assume "starts_work i db2 db3"
  then obtain v where v: "v \<in> set (db_work db2)" "wk_id v = i" "wk_state v = WQueued" using starts_work_states by blast
  from assms(2) obtain w where w: "w \<in> set (db_work db1)" "wk_id w = i" "wk_state w = WRunning" and "engine_step db db1"
    using starts_work_states by blast
  then have "engine_reachable db1" using assms(1) reachable_step by blast
  then have reach: "engine_reachable db2" and "grows db1 db2" using reachable_grows assms(3) by blast+
  then obtain u where u: "u \<in> set (db_work db2)" "later_work w u" using w(1) by (auto simp: grows_def)
  then have "u = v" using unique_work [OF reachable_ok [OF reach] u(1) v(1)] v(2) w(2) by (simp add: later_work_def same_work_def)
  then show False using u(2) v(3) w(3) by (simp add: later_work_def)
qed

theorem work_started_once_witness:
  "\<not> starts_work ''work-2'' claimed_db accepted_db"
proof -
  have "starts_work ''work-2'' accepted_db claimed_db" using claimed unfolding starts_work_def by blast
  then show ?thesis by (rule work_started_once [OF accepted_reachable]) simp
qed

section \<open>Finished work is final\<close>

text \<open>
  C28: What is finished stays as it is: a finished turn with its outcome, a finished work item and
  the result recorded for an action are never changed or removed by a later operation.
\<close>

theorem finished_work_final:
  assumes "engine_reachable db" and "engine_step\<^sup>*\<^sup>* db db'"
  shows "(\<forall>t\<in>set (db_turns db). tu_state t = TFinished \<longrightarrow> t \<in> set (db_turns db'))
    \<and> (\<forall>w\<in>set (db_work db). wk_state w = WFinished \<longrightarrow> w \<in> set (db_work db'))
    \<and> take (length (db_actions db)) (db_actions db') = db_actions db"
  using reachable_grows [OF assms] by (fastforce simp: grows_def later_turn_def later_work_def)

theorem finished_work_final_witness:
  "take (length (db_actions accepted_db)) (db_actions claimed_db) = db_actions accepted_db"
proof -
  have "engine_step\<^sup>*\<^sup>* accepted_db claimed_db" using claimed by (blast intro: Claim)
  then show ?thesis using finished_work_final [OF accepted_reachable] by blast
qed

section \<open>A new process\<close>

lemma open_store_abandons:
  assumes "open_store env db = (Inr x, db')" "\<not> db_read_only db" "w \<in> set (db_work db)" "active w" "foreign_owner env w"
  shows "\<exists>v\<in>set (db_work db'). same_work w v \<and> wk_state v = WReconciling"
proof -
  obtain d where d: "open_body env (db\<lparr>db_in_tx := True\<rparr>) = Inr (x, d)" "db' = d\<lparr>db_in_tx := False\<rparr>"
    using assms(1,2) by (auto simp: open_store_def elim!: transaction_Inr)
  from d(1) obtain d0 d1 where "same_rows (db\<lparr>db_in_tx := True\<rparr>) d0" "abandon_work env d0 = Inr d1" "same_rows d1 d"
    by (rule open_body_rows)
  moreover from this(2) have "\<forall>w\<in>set (db_work d0). active w \<and> foreign_owner env w
     \<longrightarrow> (\<exists>v\<in>set (db_work d1). same_work w v \<and> wk_state v = WReconciling)"
    using abandon_work_forward by blast
  ultimately show ?thesis using assms(3-5) d(2) by (simp add: same_rows_def)
qed

lemma reconciling_refused:
  assumes "w \<in> set (db_work db)" "wk_state w = WReconciling"
  shows "next_dispatch env db = None" "\<not> starts_work i db db'"
proof -
  have any: "any_work [WReconciling] d" "any_work [WRunning, WReconciling] d" if "db_work d = db_work db" for d
    using assms that by (auto simp: any_work_def)
  show "next_dispatch env db = None" using any [of db] by (simp add: next_dispatch_def split: option.splits)
  have "claim_work_item e i v m db \<noteq> (Inr row, db')" for e :: engine_env and v m row
    using any [of "db\<lparr>db_in_tx := True\<rparr>"] unfolding claim_work_item_def by (auto elim!: transaction_Inr simp: claim_body_def)
  moreover have "claim_attempt e p x i v db \<noteq> (Inr (Some s), db')" for e :: engine_env and p x v s
    using any [of "db\<lparr>db_in_tx := True\<rparr>"] unfolding claim_attempt_def by (auto elim!: transaction_Inr simp: claim_attempt_body_def)
  ultimately show "\<not> starts_work i db db'" by (simp add: starts_work_def)
qed

text \<open>
  C29: A process that opens the store of another one restarts nothing: whatever the other process
  left running or in cancellation waits for reconciliation, and until then nothing is dispatched
  and no item can be started by anyone.
\<close>

theorem restart_replays_nothing:
  assumes "open_store env db = (Inr (), db')" and "\<not> db_read_only db"
    and "w \<in> set (db_work db)" and "active w" and "wk_owner w = Some epoch" and "epoch \<noteq> ee_epoch env"
  shows "(\<exists>v\<in>set (db_work db'). wk_id v = wk_id w \<and> wk_state v = WReconciling)
    \<and> next_dispatch (env' :: engine_env) db' = None \<and> \<not> starts_work i db' db''"
proof -
  have "foreign_owner env w" using assms(5,6) by (simp add: foreign_owner_def)
  then obtain v where v: "v \<in> set (db_work db')" "same_work w v" "wk_state v = WReconciling"
    using open_store_abandons assms(1-4) by blast
  then show ?thesis using reconciling_refused [OF v(1,3)] by (auto simp: same_work_def)
qed

theorem restart_replays_nothing_witness:
  "\<not> starts_work ''work-2'' (snd (open_store (sample_env ''f'') claimed_db)) accepted_db"
proof -
  have "fst (open_store (sample_env ''f'') claimed_db) = Inr ()" by code_simp
  then have opened: "open_store (sample_env ''f'') claimed_db = (Inr (), snd (open_store (sample_env ''f'') claimed_db))"
    by (simp add: prod_eq_iff)
  obtain w where w: "db_work claimed_db = [w]" "wk_state w = WRunning" "wk_owner w = Some ''e''"
    using claimed_state by (auto simp: map_eq_Cons_conv)
  have "ee_epoch (sample_env ''f'') = ''f''" by (simp add: sample_env_def)
  then show ?thesis
    using restart_replays_nothing [OF opened, of w "''e''" "sample_env ''f''"] w claimed_state by (simp add: active_def)
qed

section \<open>Actions\<close>

lemma existing_action_append:
  "existing_action p m c h db = Inr (Some r) \<Longrightarrow> db_actions db' = db_actions db @ zs \<Longrightarrow> existing_action p m c h db' = Inr (Some r)"
  by (auto simp: existing_action_def find_opt_append split: option.splits)

lemma recorded_action_exists:
  assumes "existing_action p m c h db = Inr None" "record_action env p m c h r d = Inr d'" "db_actions d = db_actions db"
  shows "existing_action p m c h d' = Inr (Some (jobj (sort_tree (JObj r))))"
  using assms by (auto simp: existing_action_def record_action_def insert_action_def find_opt_append split: option.splits)

lemma jget_set: "jget (dict_set d k v) k' = (if k' = k then v else jget d k')"
  by (simp add: jget_def dict_get_or_def dict_get_set)

lemma dict_get_sorted:
  assumes "distinct (map fst d)"
  shows "dict_get (sort_key fst d) k = dict_get d k"
proof -
  have "distinct (map fst (sort_key fst d))"
    using assms by (simp add: distinct_map distinct_sort)
  then show ?thesis using assms map_of_inject_set [of "sort_key fst d" d] by (simp add: dict_get_def)
qed

lemma jget_sort_tree:
  assumes "distinct (map fst d)"
  shows "jget (jobj (sort_tree (JObj d))) k = sort_tree (jget d k)"
proof -
  have "map fst (map (\<lambda>kv. (fst kv, sort_tree (snd kv))) d) = map fst d" by simp
  then have "dict_get (sort_key fst (map (\<lambda>kv. (fst kv, sort_tree (snd kv))) d)) k = dict_get (map (\<lambda>kv. (fst kv, sort_tree (snd kv))) d) k"
    using assms by (intro dict_get_sorted) (simp add: comp_def)
  moreover have "dict_get (map (\<lambda>kv. (fst kv, sort_tree (snd kv))) d) k = map_option sort_tree (dict_get d k)"
    by (induction d) (auto simp: dict_get_def)
  ultimately show ?thesis by (simp add: jget_def dict_get_or_def jobj_def split: option.split)
qed

lemma accept_body_recorded:
  assumes "accept_body env p params conf m h db = Inr (x, db')"
  shows "\<exists>r. existing_action p m (jstr (jget params ''client_action_id'')) h db' = Inr (Some r) \<and> jget r ''turn_id'' = jget x ''turn_id''"
proof -
  from assms obtain e where e: "existing_action p m (jstr (jget params ''client_action_id'')) h db = Inr e"
    by (auto simp: accept_body_def)
  show ?thesis
  proof (cases e)
    case (Some r)
    then show ?thesis using assms e by (auto simp: accept_body_def jget_set)
  next
    case None
    with e have new: "existing_action p m (jstr (jget params ''client_action_id'')) h db = Inr None" by simp
    from accept_body_steps [OF assms this] obtain d3 d4 where "db_actions d3 = db_actions db" "same_rows d4 db'"
      and r: "record_action env p m (jstr (jget params ''client_action_id'')) h x d3 = Inr d4" .
    then have "existing_action p m (jstr (jget params ''client_action_id'')) h db' = Inr (Some (jobj (sort_tree (JObj x))))"
      using recorded_action_exists [OF new r] by (simp add: existing_action_def same_rows_def)
    moreover have "\<exists>turn. x = [(''turn_id'', JStr turn), (''state'', JStr ''queued''), (''accepted'', JBool True),
         (''reused_existing_action'', JBool False)]"
      using assms e None by (auto simp: accept_body_def accept_rows_def Let_def)
    then have "jget (jobj (sort_tree (JObj x))) ''turn_id'' = jget x ''turn_id''"
    proof
      fix turn assume x: "x = [(''turn_id'', JStr turn), (''state'', JStr ''queued''), (''accepted'', JBool True),
         (''reused_existing_action'', JBool False)]"
      have "jget (jobj (sort_tree (JObj x))) ''turn_id'' = sort_tree (jget x ''turn_id'')" by (rule jget_sort_tree) (simp add: x)
      also have "\<dots> = jget x ''turn_id''" by (simp add: x jget_def dict_get_or_def dict_get_def)
      finally show ?thesis .
    qed
    ultimately show ?thesis by blast
  qed
qed

text \<open>
  C30: Accepting a turn is idempotent. When an accepted request is sent again, to the same process
  or after any operations to a later one with the same contracts, the answer names the same turn,
  says that it is reused, and the database does not change.
\<close>

theorem accepted_action_replayed:
  assumes "engine_reachable db" and "accept_turn env profile params configuration method action_params db = (Inr result, db1)"
    and "engine_step\<^sup>*\<^sup>* db1 db2" and "\<not> db_read_only db2" and "\<not> db_in_tx db2"
    and contracts: "\<forall>key v. validate (env' :: engine_env) key v = validate (env :: engine_env) key v"
    and hashes: "\<forall>v. canonical_hash env' v = canonical_hash env v"
  shows "\<exists>answer. accept_turn env' profile params configuration' method action_params db2 = (Inr answer, db2)
    \<and> jget answer ''turn_id'' = jget result ''turn_id'' \<and> jget answer ''reused_existing_action'' = JBool True"
proof -
  let ?client = "jstr (jget params ''client_action_id'')"
  obtain h where h: "rbind (validate env ''start-turn'' (JObj params)) (\<lambda>_. canonical_hash env (JObj action_params)) = Inr h"
    and t: "transaction (accept_body env profile params configuration method h) db = (Inr result, db1)"
    using assms(2) unfolding accept_turn_def by (auto split: sum.splits)
  obtain d where d: "accept_body env profile params configuration method h (db\<lparr>db_in_tx := True\<rparr>) = Inr (result, d)" "db1 = d\<lparr>db_in_tx := False\<rparr>"
    using t by (rule transaction_Inr)
  obtain r where r: "existing_action profile method ?client h d = Inr (Some r)" and turn: "jget r ''turn_id'' = jget result ''turn_id''"
    using accept_body_recorded [OF d(1)] by blast
  have "engine_reachable db1" by (rule reachable_step [OF assms(1) Accept [OF assms(2)]])
  then have "grows db1 db2" using reachable_grows assms(3) by blast
  then obtain zs where "db_actions db2 = db_actions d @ zs" using d(2) by (auto simp: grows_def)
  then have "existing_action profile method ?client h (db2\<lparr>db_in_tx := True\<rparr>) = Inr (Some r)"
    by (intro existing_action_append [OF r]) simp
  then have "accept_body env' profile params configuration' method h (db2\<lparr>db_in_tx := True\<rparr>)
      = Inr (dict_set r ''reused_existing_action'' (JBool True), db2\<lparr>db_in_tx := True\<rparr>)"
    by (simp add: accept_body_def)
  moreover have "db2\<lparr>db_in_tx := False\<rparr> = db2" using assms(5) by simp
  ultimately have "accept_turn env' profile params configuration' method action_params db2
      = (Inr (dict_set r ''reused_existing_action'' (JBool True)), db2)"
    using h assms(4,5) contracts hashes by (simp add: accept_turn_def transaction_def)
  then show ?thesis using turn by (simp add: jget_set)
qed

theorem accepted_action_replayed_witness:
  "\<exists>answer. accept_turn (sample_env ''f'') ''profile'' sample_params [] ''session.start_turn'' sample_params claimed_db = (Inr answer, claimed_db)
    \<and> jget answer ''turn_id'' = JStr ''turn-1''"
proof -
  have "engine_step\<^sup>*\<^sup>* accepted_db claimed_db" using claimed by (blast intro: Claim)
  moreover have "validate (sample_env ''f'') key v = validate (sample_env ''e'') key v" "canonical_hash (sample_env ''f'') v = canonical_hash (sample_env ''e'') v" for key v
    by (simp_all add: sample_env_def validate_def validate_contract_def contract_def canonical_hash_def encoded_def)
  ultimately show ?thesis
    using accepted_action_replayed [OF reachable_sample sample_accepted [unfolded sample_accept_def], of claimed_db "sample_env ''f''" "[]"]
      claimed_state
    by (auto simp: jget_def dict_get_or_def dict_get_def)
qed

end
