(* ===== verification/Tool_Executor.thy ===== *)
theory Tool_Executor
  imports Turn_State Perm_Risk Protocol
begin

text \<open>
  \<open>ToolExecutor\<close> of \<open>forge/runtime/executor.py\<close>: the one path from a tool request to its
  execution. The registry, the hooks, the checkpoint store, the workspace tracker, the journal and
  the tool itself act on a world \<open>'w\<close> and are fields of the environment; each may raise. The
  permission manager is the one of \<open>Perm_Policy\<close>, the classification the one of \<open>Perm_Risk\<close>. The log
  records the calls of the executor in their order; it is not part of the program.
\<close>

section \<open>State and exceptions\<close>

text \<open>
  \<open>CancelledError\<close>, \<open>CheckpointError\<close>, the two exceptions a turn treats on its own (\<open>BudgetExhausted\<close>,
  \<open>TimeoutError\<close>), and any other exception, with the attribute \<open>kind\<close> when it has one.
\<close>

datatype exec_exn = XCancelled | XCheckpoint str | XBudget str | XTimeout str | XError "str option" str

record hook_outcome =
  ho_allowed :: bool
  ho_arguments :: "jdict option"
  ho_context :: "str list"
  ho_reason :: str

record workspace_change =
  wc_revision :: int
  wc_paths :: "str list"

datatype exec_log =
    LHook str bool
  | LInScope tool_call
  | LDecision perm_request perm_action
  | LCaptured str "str list"
  | LStarted tool_call
  | LRun tool_call
  | LRecorded str "str list"
  | LCompleted str exec_status

record 'w executor_state =
  xs_perm :: perm_state
  xs_cache :: "(str, tool_result) dict"
  xs_log :: "exec_log list"
  xs_world :: 'w

record 'w exec_env =
  xe_effect :: "str \<Rightarrow> str option"
  xe_validate :: "str \<Rightarrow> jdict \<Rightarrow> tool_result option"
  xe_request :: "str \<Rightarrow> jdict \<Rightarrow> perm_request option"
  xe_frepr :: "pyfloat \<Rightarrow> str"
  xe_sha :: "str \<Rightarrow> str"
  xe_handler :: "'w \<Rightarrow> (perm_request \<Rightarrow> approval_response) option"
  xe_in_roots :: "str \<Rightarrow> bool"
  xe_paths :: "tool_call \<Rightarrow> str list"
  xe_hook :: "(str \<Rightarrow> tool_call \<Rightarrow> jdict \<Rightarrow> tool_result option \<Rightarrow> 'w \<Rightarrow> (exec_exn + hook_outcome) \<times> 'w) option"
  xe_tracked :: bool
  xe_observer :: bool
  xe_state :: "'w \<Rightarrow> int \<times> int"
  xe_fingerprint :: "'w \<Rightarrow> str \<Rightarrow> str option"
  xe_watch :: "str list \<Rightarrow> 'w \<Rightarrow> (exec_exn + unit) \<times> 'w"
  xe_store :: bool
  xe_capture :: "str \<Rightarrow> tool_call \<Rightarrow> str list \<Rightarrow> 'w \<Rightarrow> (exec_exn + str list) \<times> 'w"
  xe_record :: "str \<Rightarrow> str list \<Rightarrow> 'w \<Rightarrow> (exec_exn + unit) \<times> 'w"
  xe_started :: "tool_call \<Rightarrow> 'w \<Rightarrow> (exec_exn + unit) \<times> 'w"
  xe_run :: "tool_call \<Rightarrow> 'w \<Rightarrow> (exec_exn + tool_result) \<times> 'w"
  xe_mark :: "'w \<Rightarrow> 'w"
  xe_refresh :: "str list option \<Rightarrow> 'w \<Rightarrow> (exec_exn + workspace_change option) \<times> 'w"
  xe_completed :: "execution_record \<Rightarrow> 'w \<Rightarrow> (exec_exn + unit) \<times> 'w"
  xe_elapsed :: "'w \<Rightarrow> pyfloat"

record exec_outcome =
  xo_result :: tool_result
  xo_record :: execution_record
  xo_arguments :: jdict
  xo_change :: "workspace_change option"

text \<open>Steps that may raise; what a step did before it raised stays done.\<close>

type_synonym ('s, 'a) xm = "'s \<Rightarrow> (exec_exn + 'a) \<times> 's"
type_synonym ('w, 'a) xstep = "('w executor_state, 'a) xm"

definition xret :: "'a \<Rightarrow> ('s, 'a) xm" where
  "xret x s = (Inr x, s)"

definition xraise :: "exec_exn \<Rightarrow> ('s, 'a) xm" where
  "xraise e s = (Inl e, s)"

definition xbind :: "('s, 'a) xm \<Rightarrow> ('a \<Rightarrow> ('s, 'b) xm) \<Rightarrow> ('s, 'b) xm" where
  "xbind m f s = (case m s of (Inl e, s') \<Rightarrow> (Inl e, s') | (Inr x, s') \<Rightarrow> f x s')"

definition xlog :: "exec_log \<Rightarrow> ('w, unit) xstep" where
  "xlog l s = (Inr (), s\<lparr>xs_log := xs_log s @ [l]\<rparr>)"

definition xworld :: "('w \<Rightarrow> (exec_exn + 'a) \<times> 'w) \<Rightarrow> ('w, 'a) xstep" where
  "xworld f s = (case f (xs_world s) of (r, w) \<Rightarrow> (r, s\<lparr>xs_world := w\<rparr>))"

definition failure :: "str \<Rightarrow> str \<Rightarrow> str \<Rightarrow> jdict \<Rightarrow> tool_result" where
  "failure code message content details = \<lparr>tr_success = False, tr_summary = message, tr_content = content,
     tr_error = Some \<lparr>te_code = code, te_message = message, te_details = details\<rparr>, tr_metadata = []\<rparr>"

lemma failure_is_tool_fail: "message \<noteq> [] \<Longrightarrow> tool_fail code message None content details [] = Inr (failure code message content details)"
  by (simp add: tool_fail_def mk_tool_result_def failure_def)

section \<open>The outcome\<close>

definition with_execution :: "tool_result \<Rightarrow> exec_status \<Rightarrow> int \<Rightarrow> int \<Rightarrow> tool_result" where
  "with_execution r status revision epoch = r\<lparr>tr_metadata :=
     dict_update (tr_metadata r) [(''execution_status'', JStr (status_name status)),
       (''workspace_revision'', JInt revision), (''environment_epoch'', JInt epoch)]\<rparr>"

definition exec_done ::
    "'w exec_env \<Rightarrow> tool_call \<Rightarrow> tool_result \<Rightarrow> exec_status \<Rightarrow> jdict \<Rightarrow> int \<times> int \<Rightarrow> workspace_change option \<Rightarrow> ('w, exec_outcome) xstep" where
  "exec_done env call r status arguments revision change s =
     (let r' = with_execution r status (fst revision) (snd revision);
          rec = execution_record_from_result call r' status (max 0 (xe_elapsed env (xs_world s))) (fst revision) (snd revision) in
      case xe_completed env rec (xs_world s) of
        (Inl e, w) \<Rightarrow> (Inl e, s\<lparr>xs_world := w\<rparr>)
      | (Inr _, w) \<Rightarrow>
          (Inr \<lparr>xo_result = r', xo_record = rec, xo_arguments = arguments, xo_change = change\<rparr>,
           s\<lparr>xs_log := xs_log s @ [LCompleted (tc_id call) status], xs_world := w\<rparr>))"

definition exec_record_result :: "'w exec_env \<Rightarrow> tool_call \<Rightarrow> tool_result \<Rightarrow> exec_status \<Rightarrow> ('w, exec_outcome) xstep" where
  "exec_record_result env call r status s =
     exec_done env call r status (tc_arguments call) (xe_state env (xs_world s)) None s"

definition run_hook :: "'w exec_env \<Rightarrow> str \<Rightarrow> tool_call \<Rightarrow> jdict \<Rightarrow> tool_result option \<Rightarrow> ('w, hook_outcome) xstep" where
  "run_hook env name call arguments result =
     (case xe_hook env of
        None \<Rightarrow> xret \<lparr>ho_allowed = True, ho_arguments = Some arguments, ho_context = [], ho_reason = []\<rparr>
      | Some hook \<Rightarrow> xbind (xworld (hook name call arguments result)) (\<lambda>h. xbind (xlog (LHook name (ho_allowed h))) (\<lambda>_. xret h)))"

text \<open>The paths a hook sees where the executor got no path resolver.\<close>

definition default_tool_paths :: "tool_call \<Rightarrow> str list" where
  "default_tool_paths call =
     fromkeys (map slashes (filter (\<lambda>v. v \<noteq> []) (List.map_filter (jget_str (tc_arguments call)) [''path'', ''cwd''])))"

section \<open>Before the execution\<close>

text \<open>What the checks of a call end in: a result that is recorded as rejected, or the arguments to run.\<close>

datatype prepared = Refused tool_result jdict | Ready jdict

definition override :: "hook_outcome \<Rightarrow> jdict \<Rightarrow> jdict" where
  "override h arguments = (case ho_arguments h of None \<Rightarrow> arguments | Some a \<Rightarrow> a)"

definition checked_edit :: "'w exec_env \<Rightarrow> tool_call \<Rightarrow> jdict \<Rightarrow> ('w, prepared) xstep" where
  "checked_edit env call arguments =
     (if xe_effect env (tc_name call) \<noteq> Some ''workspace_write'' then xret (Ready arguments)
      else xbind (run_hook env ''BeforeFileEdit'' (call\<lparr>tc_arguments := arguments\<rparr>) arguments None) (\<lambda>edit.
        let arguments' = override edit arguments in
        case (if ho_arguments edit = None then None else xe_validate env (tc_name call) arguments') of
          Some r \<Rightarrow> xret (Refused r arguments')
        | None \<Rightarrow>
            if \<not> ho_allowed edit
            then xret (Refused (failure ''hook_denied'' ''BeforeFileEdit hook denied this operation.'' (ho_reason edit) []) arguments')
            else xret (Ready arguments')))"

definition checked_arguments :: "'w exec_env \<Rightarrow> tool_call \<Rightarrow> ('w, prepared) xstep" where
  "checked_arguments env call =
     (case xe_validate env (tc_name call) (tc_arguments call) of
        Some r \<Rightarrow> xret (Refused r (tc_arguments call))
      | None \<Rightarrow>
          xbind (run_hook env ''PreToolUse'' call (tc_arguments call) None) (\<lambda>pre.
          let arguments = override pre (tc_arguments call) in
          if \<not> ho_allowed pre
          then xret (Refused (failure ''hook_denied'' ''PreToolUse hook denied this operation.'' (ho_reason pre) []) arguments)
          else case xe_validate env (tc_name call) arguments of
            Some r \<Rightarrow> xret (Refused r arguments)
          | None \<Rightarrow> checked_edit env call arguments))"

text \<open>The scope checker is an argument of \<open>execute\<close>; \<open>None\<close> where the caller gives none.\<close>

type_synonym 'w scope_checker = "(tool_call \<Rightarrow> 'w \<Rightarrow> (exec_exn + tool_result option) \<times> 'w) option"

definition checked_scope :: "'w scope_checker \<Rightarrow> tool_call \<Rightarrow> jdict \<Rightarrow> ('w, prepared) xstep" where
  "checked_scope scope call arguments =
     (case scope of
        None \<Rightarrow> xret (Ready arguments)
      | Some check \<Rightarrow>
          xbind (xworld (check (call\<lparr>tc_arguments := arguments\<rparr>))) (\<lambda>e.
          case e of
            None \<Rightarrow> xbind (xlog (LInScope (call\<lparr>tc_arguments := arguments\<rparr>))) (\<lambda>_. xret (Ready arguments))
          | Some r \<Rightarrow> xret (Refused r arguments)))"

definition risk_label :: "perm_risk \<Rightarrow> str" where
  "risk_label r = (case r of LowRisk \<Rightarrow> ''low'' | MediumRisk \<Rightarrow> ''medium'' | HighRisk \<Rightarrow> ''high'' | CriticalRisk \<Rightarrow> ''critical'')"

definition exec_request :: "'w exec_env \<Rightarrow> tool_call \<Rightarrow> jdict \<Rightarrow> perm_request" where
  "exec_request env call arguments =
     (case xe_request env (tc_name call) arguments of
        Some rq \<Rightarrow> rq
      | None \<Rightarrow> classify_tool_call (xe_frepr env) (call\<lparr>tc_arguments := arguments\<rparr>) (xe_effect env (tc_name call)))"

definition denied_result :: "tool_call \<Rightarrow> perm_request \<Rightarrow> perm_decision \<Rightarrow> tool_result" where
  "denied_result call rq d = failure ''permission_denied'' (de_reason d) []
     [(''tool'', JStr (tc_name call)), (''capability'', JStr (pq_capability rq)), (''risk'', JStr (risk_label (pq_risk rq))),
      (''targets'', JList (map JStr (pq_targets rq))), (''source'', JStr (de_source d))]"

definition exn_text :: "py_exn \<Rightarrow> str" where
  "exn_text e = (case e of ValueError m \<Rightarrow> m | KeyError m \<Rightarrow> m | TypeError m \<Rightarrow> m | RuntimeError m \<Rightarrow> m | OSError m \<Rightarrow> m | AttributeError m \<Rightarrow> m)"

definition authorized :: "'w exec_env \<Rightarrow> tool_call \<Rightarrow> jdict \<Rightarrow> ('w, prepared) xstep" where
  "authorized env call arguments s =
     (let rq = exec_request env call arguments in
      case authorize (xe_sha env) (xe_handler env (xs_world s)) (xe_in_roots env) rq (xs_perm s) of
        (pm, Inl e) \<Rightarrow> (Inl (XError None (exn_text e)), s\<lparr>xs_perm := pm\<rparr>)
      | (pm, Inr d) \<Rightarrow>
          (Inr (if de_action d = Deny then Refused (denied_result call rq d) arguments else Ready arguments),
           s\<lparr>xs_perm := pm, xs_log := xs_log s @ [LDecision rq (de_action d)]\<rparr>))"

section \<open>The execution\<close>

definition cache_key :: "'w exec_env \<Rightarrow> tool_call \<Rightarrow> 'w \<Rightarrow> str option" where
  "cache_key env call w =
     (if xe_observer env \<or> tc_name call \<noteq> ''read_file'' \<or> \<not> xe_tracked env then None
      else (case jget_str (tc_arguments call) ''path'' of
          None \<Rightarrow> None
        | Some p \<Rightarrow> map_option (\<lambda>f. json_dumps (xe_frepr env) (sort_tree (JObj (tc_arguments call))) @ f) (xe_fingerprint env w p)))"

definition exec_paths :: "'w exec_env \<Rightarrow> tool_call \<Rightarrow> str list" where
  "exec_paths env call = (if xe_effect env (tc_name call) \<noteq> Some ''workspace_write'' then [] else xe_paths env call)"

text \<open>
  The body of the \<open>try\<close>, in two parts: \<open>execution_started\<close> is set between them. It ends in the result
  and the paths the checkpoint covers.
\<close>

definition before_run :: "'w exec_env \<Rightarrow> str option \<Rightarrow> tool_call \<Rightarrow> ('w, str list) xstep" where
  "before_run env checkpoint call =
     (let paths = exec_paths env call in
      xbind (if xe_tracked env \<and> xe_effect env (tc_name call) = Some ''workspace_write'' then xworld (xe_watch env paths) else xret ()) (\<lambda>_.
      xbind (case checkpoint of
          None \<Rightarrow> xret paths
        | Some c \<Rightarrow>
            if paths = [] then xret paths
            else if \<not> xe_store env then xraise (XCheckpoint ''Checkpoint store is unavailable.'')
            else xbind (xworld (xe_capture env c call paths)) (\<lambda>paths. xbind (xlog (LCaptured c paths)) (\<lambda>_. xret paths)))
        (\<lambda>paths.
      xbind (xworld (xe_started env call)) (\<lambda>_. xbind (xlog (LStarted call)) (\<lambda>_. xret paths)))))"

definition run_recorded :: "'w exec_env \<Rightarrow> str option \<Rightarrow> tool_call \<Rightarrow> str list \<Rightarrow> ('w, tool_result) xstep" where
  "run_recorded env checkpoint call paths =
     xbind (xlog (LRun call)) (\<lambda>_. xbind (xworld (xe_run env call)) (\<lambda>r.
     xbind (case checkpoint of
         None \<Rightarrow> xret ()
       | Some c \<Rightarrow> if paths = [] then xret () else xbind (xworld (xe_record env c paths)) (\<lambda>_. xlog (LRecorded c paths)))
       (\<lambda>_. xret r)))"

text \<open>The \<open>except\<close> clauses; \<open>str\<close> and \<open>getattr(error, 'kind', None)\<close> of the error.\<close>

definition error_text :: "exec_exn \<Rightarrow> str" where
  "error_text e = (case e of XCancelled \<Rightarrow> [] | XCheckpoint m \<Rightarrow> m | XBudget m \<Rightarrow> m | XTimeout m \<Rightarrow> m | XError _ m \<Rightarrow> m)"

definition error_kind :: "exec_exn \<Rightarrow> str option" where
  "error_kind e = (case e of XError k _ \<Rightarrow> k | _ \<Rightarrow> None)"

definition effectful :: "'w exec_env \<Rightarrow> tool_call \<Rightarrow> bool" where
  "effectful env call \<longleftrightarrow> xe_effect env (tc_name call) \<in> {Some ''workspace_write'', Some ''process''}"

definition failed_run ::
    "'w exec_env \<Rightarrow> tool_call \<Rightarrow> jdict \<Rightarrow> int \<times> int \<Rightarrow> bool \<Rightarrow> exec_exn \<Rightarrow> ('w, exec_outcome) xstep" where
  "failed_run env call arguments revision started e s =
     (case e of
        XCancelled \<Rightarrow>
          exec_done env call (failure ''execution_cancelled'' ''Tool execution was cancelled before a determinate result was recorded.'' [] [])
            (if effectful env call then Indeterminate else Cancelled) arguments (xe_state env (xs_world s)) None s
      | XCheckpoint m \<Rightarrow>
          exec_done env call (failure ''checkpoint_failed''
              (if started then ''The operation ran but its checkpoint result could not be recorded. Inspect current files before any retry.''
               else ''Workspace execution was refused because its checkpoint could not be created.'') m [])
            (if started then Indeterminate else Rejected) arguments revision None s
      | _ \<Rightarrow>
          exec_done env call (failure (case error_kind e of None \<Rightarrow> ''executor_failed'' | Some k \<Rightarrow> k)
              (''Tool executor failed before a determinate result: '' @ error_text e) [] [])
            (if started \<and> effectful env call then Indeterminate else Rejected) arguments (xe_state env (xs_world s)) None s)"

section \<open>After the execution\<close>

type_synonym 'w transformer = "(tool_result \<Rightarrow> 'w \<Rightarrow> (exec_exn + tool_result) \<times> 'w) option"

definition observe_change :: "'w exec_env \<Rightarrow> tool_call \<Rightarrow> str list \<Rightarrow> ('w, workspace_change option) xstep" where
  "observe_change env call paths s =
     (let effect = xe_effect env (tc_name call);
          s = (if effect = Some ''process'' \<and> tc_name call \<noteq> ''verify'' \<and> xe_tracked env
               then s\<lparr>xs_world := xe_mark env (xs_world s)\<rparr> else s) in
      if xe_tracked env \<and> effect \<noteq> Some ''read_only''
      then xworld (xe_refresh env (if effect = Some ''workspace_write'' then Some paths else None)) s
      else (Inr None, s))"

definition process_result_metadata :: "'w exec_env \<Rightarrow> tool_call \<Rightarrow> workspace_change option \<Rightarrow> tool_result \<Rightarrow> 'w \<Rightarrow> tool_result" where
  "process_result_metadata env call change r w =
     (if xe_effect env (tc_name call) = Some ''process'' then
        r\<lparr>tr_metadata := dict_update (tr_metadata r)
          ((''environment_epoch'', JInt (snd (xe_state env w)))
           # (case change of None \<Rightarrow> [] | Some c \<Rightarrow> [(''workspace_revision'', JInt (wc_revision c))]))\<rparr>
      else r)"

definition store_cache :: "'w exec_env \<Rightarrow> tool_call \<Rightarrow> str option \<Rightarrow> tool_result \<Rightarrow> ('w, unit) xstep" where
  "store_cache env call key r s =
     (case key of
        None \<Rightarrow> (Inr (), s)
      | Some k \<Rightarrow>
          if tr_success r \<and> cache_key env call (xs_world s) = Some k
          then (Inr (), s\<lparr>xs_cache := dict_set (if 128 \<le> length (xs_cache s) then [] else xs_cache s) k r\<rparr>)
          else (Inr (), s))"

definition conclude_run ::
    "'w exec_env \<Rightarrow> 'w transformer \<Rightarrow> tool_call \<Rightarrow> tool_call \<Rightarrow> str option \<Rightarrow> workspace_change option \<Rightarrow> tool_result \<Rightarrow> ('w, exec_outcome) xstep" where
  "conclude_run env transform call effective key change r =
     xbind (if xe_effect env (tc_name call) = Some ''workspace_write'' \<and> tr_success r
         then xbind (run_hook env ''AfterFileEdit'' effective (tc_arguments effective) None) (\<lambda>_. xret ()) else xret ()) (\<lambda>_.
     xbind (run_hook env ''PostToolUse'' effective (tc_arguments effective) (Some r)) (\<lambda>_.
     xbind (case transform of None \<Rightarrow> xret r | Some f \<Rightarrow> xworld (f r)) (\<lambda>r.
     xbind (store_cache env effective key r) (\<lambda>_ s.
     exec_done env call r
       (if map_option te_code (tr_error r) = Some ''INDETERMINATE'' then Indeterminate else Executed)
       (tc_arguments effective) (xe_state env (xs_world s)) change s))))"

definition after_run ::
    "'w exec_env \<Rightarrow> 'w transformer \<Rightarrow> tool_call \<Rightarrow> tool_call \<Rightarrow> str option \<Rightarrow> str list \<Rightarrow> tool_result \<Rightarrow> ('w, exec_outcome) xstep" where
  "after_run env transform call effective key paths r =
     xbind (observe_change env effective paths) (\<lambda>change s.
       conclude_run env transform call effective key change (process_result_metadata env effective change r (xs_world s)) s)"

definition run_authorized ::
    "'w exec_env \<Rightarrow> str option \<Rightarrow> 'w transformer \<Rightarrow> tool_call \<Rightarrow> int \<times> int \<Rightarrow> jdict \<Rightarrow> ('w, exec_outcome) xstep" where
  "run_authorized env checkpoint transform call revision arguments s =
     (let effective = call\<lparr>tc_arguments := arguments\<rparr>;
          key = (if xe_effect env (tc_name call) = Some ''read_only'' then cache_key env effective (xs_world s) else None) in
      case (case key of None \<Rightarrow> None | Some k \<Rightarrow> dict_get (xs_cache s) k) of
        Some r \<Rightarrow>
          (let r = r\<lparr>tr_metadata := dict_set (tr_metadata r) ''cache_hit'' (JBool True)\<rparr> in
           xbind (run_hook env ''PostToolUse'' effective arguments (Some r)) (\<lambda>_ s.
           exec_done env call r Cached arguments (xe_state env (xs_world s)) None s) s)
      | None \<Rightarrow>
          (let s = (if xe_effect env (tc_name call) \<noteq> Some ''read_only'' then s\<lparr>xs_cache := []\<rparr> else s) in
           case before_run env checkpoint effective s of
             (Inl e, s) \<Rightarrow> failed_run env call arguments revision False e s
           | (Inr paths, s) \<Rightarrow>
               (case run_recorded env checkpoint effective paths s of
                  (Inl e, s) \<Rightarrow> failed_run env call arguments revision True e s
                | (Inr r, s) \<Rightarrow> after_run env transform call effective key paths r s)))"

definition execute_call ::
    "'w exec_env \<Rightarrow> str option \<Rightarrow> 'w scope_checker \<Rightarrow> 'w transformer \<Rightarrow> tool_call \<Rightarrow> ('w, exec_outcome) xstep" where
  "execute_call env checkpoint scope transform call s =
     (let revision = xe_state env (xs_world s);
          refused = (\<lambda>r arguments. exec_done env call r Rejected arguments revision None) in
      xbind (checked_arguments env call) (\<lambda>p. case p of
          Refused r arguments \<Rightarrow> refused r arguments
        | Ready arguments \<Rightarrow>
      xbind (checked_scope scope call arguments) (\<lambda>p. case p of
          Refused r arguments \<Rightarrow> refused r arguments
        | Ready arguments \<Rightarrow>
      xbind (authorized env call arguments) (\<lambda>p. case p of
          Refused r arguments \<Rightarrow> refused r arguments
        | Ready arguments \<Rightarrow> run_authorized env checkpoint transform call revision arguments))) s)"

end
