(* ===== verification/Executor_Facts.thy ===== *)
theory Executor_Facts
  imports Tool_Executor
begin

text \<open>
  What the log of one call of the executor can hold. A rule per step (\<open>logs_bind\<close> for the sequence)
  gives the entries a step adds; the pipeline of checks is then composed step by step. The two
  properties say when a tool runs and what the recorded status means.
\<close>

section \<open>What the log of a step may hold\<close>

definition logs :: "('w, 'a) xstep \<Rightarrow> (exec_exn + 'a \<Rightarrow> exec_log list \<Rightarrow> bool) \<Rightarrow> bool" where
  "logs m P \<longleftrightarrow> (\<forall>s r s'. m s = (r, s') \<longrightarrow> (\<exists>l. xs_log s' = xs_log s @ l \<and> P r l))"

named_theorems log_rules

lemma logs_ret [log_rules]: "P (Inr x) [] \<Longrightarrow> logs (xret x) P"
  by (simp add: logs_def xret_def)

lemma logs_raise [log_rules]: "P (Inl e) [] \<Longrightarrow> logs (xraise e) P"
  by (simp add: logs_def xraise_def)

lemma logs_bind:
  assumes "logs m Q" and "\<And>e l. Q (Inl e) l \<Longrightarrow> P (Inl e) l" and f: "\<And>x l. Q (Inr x) l \<Longrightarrow> logs (f x) (\<lambda>r l'. P r (l @ l'))"
  shows "logs (xbind m f) P"
  unfolding logs_def
proof (intro allI impI)
  fix s r s' assume run: "xbind m f s = (r, s')"
  obtain r1 s1 where m: "m s = (r1, s1)" by fastforce
  then obtain l where l: "xs_log s1 = xs_log s @ l" "Q r1 l" using assms(1) unfolding logs_def by blast
  show "\<exists>l. xs_log s' = xs_log s @ l \<and> P r l"
  proof (cases r1)
    case (Inl e)
    then show ?thesis using run m l assms(2) by (auto simp: xbind_def)
  next
    case (Inr x)
    then have "f x s1 = (r, s')" using run m by (simp add: xbind_def)
    then obtain l' where "xs_log s' = xs_log s1 @ l'" "P r (l @ l')" using f [of x l] l(2) Inr unfolding logs_def by blast
    then show ?thesis using l(1) by auto
  qed
qed

lemma logs_mono: "logs m Q \<Longrightarrow> (\<And>r l. Q r l \<Longrightarrow> P r l) \<Longrightarrow> logs m P"
  unfolding logs_def by blast

lemma logs_world [log_rules]: "(\<And>r. P r []) \<Longrightarrow> logs (xworld f) P"
  by (auto simp: logs_def xworld_def split: prod.splits)

lemma logs_xlog [log_rules]: "P (Inr ()) [l] \<Longrightarrow> logs (xlog l) P"
  by (simp add: logs_def xlog_def)

lemma logs_bind_world: "(\<And>e. P (Inl e) []) \<Longrightarrow> (\<And>x. logs (g x) P) \<Longrightarrow> logs (xbind (xworld f) g) P"
  by (rule logs_bind [of _ "\<lambda>_ l. l = []"]) (auto intro: log_rules)

lemma logs_bind_log: "logs (g ()) (\<lambda>r l. P r (e # l)) \<Longrightarrow> logs (xbind (xlog e) g) P"
  by (rule logs_bind [of _ "\<lambda>r l. l = [e] \<and> r = Inr ()"]) (auto intro: log_rules)

lemma logsD: "logs m P \<Longrightarrow> m s = (r, s') \<Longrightarrow> \<exists>l. xs_log s' = xs_log s @ l \<and> P r l"
  unfolding logs_def by blast

fun quiet :: "exec_log \<Rightarrow> bool" where
  "quiet (LHook _ _) = True" | "quiet (LInScope _) = True" | "quiet (LDecision _ _) = True" | "quiet (LCaptured _ _) = True"
| "quiet (LStarted _) = True" | "quiet (LRecorded _ _) = True" | "quiet _ = False"

lemma run_hook_allowed:
  "logs (run_hook env name call a r) (\<lambda>x l. list_all quiet l \<and> (\<forall>h. x = Inr h \<and> ho_allowed h \<longrightarrow> (\<forall>n. LHook n False \<notin> set l)))"
  unfolding run_hook_def
  by (cases "xe_hook env") (auto intro!: log_rules logs_bind_world logs_bind_log)

lemma run_hook_logs: "logs (run_hook env name call a r) (\<lambda>_. list_all quiet)"
  by (rule logs_mono [OF run_hook_allowed]) simp

lemma checked_edit_logs:
  "xe_validate env (tc_name call) a = None \<Longrightarrow>
   logs (checked_edit env call a) (\<lambda>r l. list_all quiet l
     \<and> (\<forall>b. r = Inr (Ready b) \<longrightarrow> xe_validate env (tc_name call) b = None \<and> (\<forall>n. LHook n False \<notin> set l)))"
  unfolding checked_edit_def Let_def
  by (auto intro!: log_rules logs_bind [OF run_hook_allowed] simp: override_def split: option.split if_split)

lemma checked_arguments_logs:
  "logs (checked_arguments env call) (\<lambda>r l. list_all quiet l
     \<and> (\<forall>b. r = Inr (Ready b) \<longrightarrow> xe_validate env (tc_name call) b = None \<and> (\<forall>n. LHook n False \<notin> set l)))"
  unfolding checked_arguments_def Let_def
  by (auto intro!: log_rules logs_bind [OF run_hook_allowed] logs_mono [OF checked_edit_logs] split: option.split if_split)

lemma checked_scope_logs:
  "logs (checked_scope scope call a) (\<lambda>r l. list_all quiet l
     \<and> (\<forall>b. r = Inr (Ready b) \<longrightarrow> b = a \<and> (\<forall>n. LHook n False \<notin> set l)
          \<and> (scope \<noteq> None \<longrightarrow> LInScope (call\<lparr>tc_arguments := a\<rparr>) \<in> set l)))"
  unfolding checked_scope_def
  by (auto intro!: log_rules logs_bind_world logs_bind_log split: option.split)

lemma approval_decides: "snd (request_approval sha h rq src pm) = Inr d \<Longrightarrow> de_action d = Allow \<or> de_action d = Deny"
  by (auto simp: request_approval_def perm_decide_def Let_def split: if_splits option.splits perm_choice.splits sum.splits)

lemma authorize_decides: "snd (authorize sha h roots rq pm) = Inr d \<Longrightarrow> de_action d = Allow \<or> de_action d = Deny"
  by (auto simp: authorize_def perm_decide_def Let_def dest!: approval_decides split: if_splits perm_action.splits)

lemma authorized_logs:
  "logs (authorized env call a) (\<lambda>r l. list_all quiet l \<and> (\<forall>b. r = Inr (Ready b) \<longrightarrow> b = a \<and> l = [LDecision (exec_request env call a) Allow]))"
  unfolding logs_def
proof (intro allI impI)
  fix s r s' assume run: "authorized env call a s = (r, s')"
  obtain pm x where d: "authorize (xe_sha env) (xe_handler env (xs_world s)) (xe_in_roots env) (exec_request env call a) (xs_perm s) = (pm, x)"
    by fastforce
  then have "x = Inr y \<Longrightarrow> de_action y = Allow \<or> de_action y = Deny" for y using authorize_decides [of _ _ _ _ _ y] by (metis snd_conv)
  then show "\<exists>l. xs_log s' = xs_log s @ l \<and> list_all quiet l \<and> (\<forall>b. r = Inr (Ready b) \<longrightarrow> b = a \<and> l = [LDecision (exec_request env call a) Allow])"
    using run d by (cases x) (auto simp: authorized_def Let_def split: if_splits)
qed

section \<open>The execution in the log\<close>

lemma done_logs:
  "logs (exec_done env call r st a rv ch) (\<lambda>x l. case x of Inl e \<Rightarrow> l = [] | Inr out \<Rightarrow> l = [LCompleted (tc_id call) st] \<and> er_status (xo_record out) = st)"
  by (auto simp: logs_def exec_done_def Let_def execution_record_from_result_def split: prod.splits sum.splits)

lemma before_run_logs:
  "logs (before_run env ck call) (\<lambda>r l. list_all quiet l \<and> (\<forall>paths. r = Inr paths \<longrightarrow> LStarted call \<in> set l \<and> (\<forall>n. LHook n False \<notin> set l)
     \<and> (\<forall>c. ck = Some c \<and> exec_paths env call \<noteq> [] \<longrightarrow> (\<exists>ps. LCaptured c ps \<in> set l))))"
proof -
  let ?Q = "\<lambda>r l. list_all quiet l \<and> (\<forall>paths. r = Inr paths \<longrightarrow> (\<forall>n. LHook n False \<notin> set l) \<and> (\<forall>c. ck = Some c \<and> exec_paths env call \<noteq> [] \<longrightarrow> (\<exists>ps. LCaptured c ps \<in> set l)))"
  have capture: "logs (case ck of None \<Rightarrow> xret paths
        | Some c \<Rightarrow> if paths = [] then xret paths
            else if \<not> xe_store env then xraise (XCheckpoint m)
            else xbind (xworld (xe_capture env c call paths)) (\<lambda>paths. xbind (xlog (LCaptured c paths)) (\<lambda>_. xret paths))) ?Q"
    if "paths = exec_paths env call" for paths m
    using that by (cases ck) (auto intro!: log_rules logs_bind_world logs_bind_log)
  show ?thesis unfolding before_run_def Let_def
    by (rule logs_bind [of _ "\<lambda>_ l. l = []"], simp add: log_rules, simp, rule logs_bind [OF capture [OF refl]])
      (auto intro!: log_rules logs_bind_world logs_bind_log)
qed

lemma run_recorded_logs: "logs (run_recorded env ck call paths) (\<lambda>r l. \<exists>l'. l = LRun call # l' \<and> list_all quiet l')"
  unfolding run_recorded_def
  by (auto intro!: log_rules logs_bind_world logs_bind_log logs_bind [of _ "\<lambda>_. list_all quiet"] split: option.split)

lemma failed_run_done:
  "\<exists>r st rv. failed_run env call a rv0 started e s = exec_done env call r st a rv None s
     \<and> (started \<and> effectful env call \<longrightarrow> st = Indeterminate) \<and> st \<noteq> Executed"
  unfolding failed_run_def
  by (cases e) (simp only: exec_exn.case, intro exI conjI, rule refl, simp, simp)+

lemma failed_run_logs:
  "logs (failed_run env call a rv started e) (\<lambda>x l. case x of Inl e \<Rightarrow> l = []
     | Inr out \<Rightarrow> \<exists>st. l = [LCompleted (tc_id call) st] \<and> er_status (xo_record out) = st
         \<and> (started \<and> effectful env call \<longrightarrow> st = Indeterminate) \<and> st \<noteq> Executed)"
  unfolding logs_def
proof (intro allI impI)
  fix s x s' assume run: "failed_run env call a rv started e s = (x, s')"
  have "\<exists>r st rv. exec_done env call r st a rv None s = (x, s') \<and> (started \<and> effectful env call \<longrightarrow> st = Indeterminate) \<and> st \<noteq> Executed"
    using failed_run_done [of env call a rv started e s] run by metis
  then obtain r st rv where done': "exec_done env call r st a rv None s = (x, s')"
    "started \<and> effectful env call \<longrightarrow> st = Indeterminate" "st \<noteq> Executed" by blast
  from done_logs [unfolded logs_def, rule_format, OF done'(1)] done'(2,3)
  show "\<exists>l. xs_log s' = xs_log s @ l \<and> (case x of Inl e \<Rightarrow> l = []
     | Inr out \<Rightarrow> \<exists>st. l = [LCompleted (tc_id call) st] \<and> er_status (xo_record out) = st
         \<and> (started \<and> effectful env call \<longrightarrow> st = Indeterminate) \<and> st \<noteq> Executed)"
    by (auto split: sum.splits)
qed

lemma observe_change_logs: "logs (observe_change env call paths) (\<lambda>_ l. l = [])"
  by (auto simp: logs_def observe_change_def xworld_def Let_def split: prod.splits if_splits)

lemma store_cache_logs: "logs (store_cache env call key r) (\<lambda>x l. l = [] \<and> x = Inr ())"
  by (auto simp: logs_def store_cache_def split: option.splits if_splits)

lemma logs_state: "(\<And>t. logs (m t) P) \<Longrightarrow> logs (\<lambda>s. m s s) P"
  by (auto simp: logs_def)

text \<open>What a step writes that ends in an outcome: quiet entries and the one completion.\<close>

definition ends_quietly :: "exec_status set \<Rightarrow> tool_call \<Rightarrow> exec_exn + exec_outcome \<Rightarrow> exec_log list \<Rightarrow> bool" where
  "ends_quietly S call x l \<longleftrightarrow> (case x of Inl e \<Rightarrow> list_all quiet l
     | Inr out \<Rightarrow> er_status (xo_record out) \<in> S \<and> (\<exists>l'. list_all quiet l' \<and> l = l' @ [LCompleted (tc_id call) (er_status (xo_record out))]))"

lemma ends_quietly_app: "list_all quiet l \<Longrightarrow> ends_quietly S call x l' \<Longrightarrow> ends_quietly S call x (l @ l')"
  by (auto simp: ends_quietly_def split: sum.splits)

lemma done_ends: "st \<in> S \<Longrightarrow> logs (exec_done env call r st a rv ch) (ends_quietly S call)"
  by (rule logs_mono [OF done_logs]) (auto simp: ends_quietly_def split: sum.splits)

lemma done_state_ends: "st \<in> S \<Longrightarrow> logs (\<lambda>s. exec_done env call r st a (g s) ch s) (ends_quietly S call)"
  by (rule logs_state [of "\<lambda>t. exec_done env call r st a (g t) ch"]) (rule done_ends)

lemma ends_bind:
  assumes "logs m (\<lambda>_. list_all quiet)" "\<And>x. logs (f x) (ends_quietly S call)"
  shows "logs (xbind m f) (ends_quietly S call)"
  by (rule logs_bind [OF assms(1)]) (auto simp: ends_quietly_def [of _ _ "Inl _"] intro!: logs_mono [OF assms(2)] ends_quietly_app)

lemma quiet_of_Nil: "logs m (\<lambda>_ l. l = []) \<Longrightarrow> logs m (\<lambda>_. list_all quiet)"
  by (erule logs_mono) simp

lemma conclude_run_logs: "logs (conclude_run env transform call effective key change r) (ends_quietly {Executed, Indeterminate} call)"
  unfolding conclude_run_def
proof (intro ends_bind)
  show "logs (if xe_effect env (tc_name call) = Some ''workspace_write'' \<and> tr_success r
          then xbind (run_hook env ''AfterFileEdit'' effective (tc_arguments effective) None) (\<lambda>_. xret ()) else xret ()) (\<lambda>_. list_all quiet)"
    by (auto intro!: log_rules logs_bind [OF run_hook_logs])
  show "logs (case transform of None \<Rightarrow> xret r | Some f \<Rightarrow> xworld (f r)) (\<lambda>_. list_all quiet)"
    by (auto intro!: log_rules split: option.split)
  show "logs (store_cache env effective key r') (\<lambda>_. list_all quiet)" for r'
    by (rule logs_mono [OF store_cache_logs]) simp
  show "logs (\<lambda>s. exec_done env call r' (if map_option te_code (tr_error r') = Some ''INDETERMINATE'' then Indeterminate else Executed)
      (tc_arguments effective) (xe_state env (xs_world s)) change s) (ends_quietly {Executed, Indeterminate} call)" for r'
    by (rule done_state_ends) simp
qed (rule run_hook_logs)+

lemma after_run_logs: "logs (after_run env transform call effective key paths r) (ends_quietly {Executed, Indeterminate} call)"
  unfolding after_run_def
proof (rule ends_bind [OF quiet_of_Nil [OF observe_change_logs]])
  fix change
  show "logs (\<lambda>s. conclude_run env transform call effective key change (process_result_metadata env effective change r (xs_world s)) s)
      (ends_quietly {Executed, Indeterminate} call)"
    by (rule logs_state [of "\<lambda>t. conclude_run env transform call effective key change (process_result_metadata env effective change r (xs_world t))"])
      (rule conclude_run_logs)
qed

text \<open>
  \<open>justified\<close>: the log of one call in which the tool runs at most once, with the given arguments, after
  it was recorded as started and, where a checkpoint is asked for, its targets were captured; and
  the one completion is honest: an effectful call that is recorded as rejected, cached or cancelled
  has not run.
\<close>

definition justified_run :: "'w exec_env \<Rightarrow> str option \<Rightarrow> tool_call \<Rightarrow> exec_log list \<Rightarrow> bool" where
  "justified_run env ck call l \<longleftrightarrow> (\<exists>pre post. l = pre @ LRun call # post \<and> list_all quiet pre \<and> (\<forall>c. LRun c \<notin> set post) \<and> LStarted call \<in> set pre
     \<and> (\<forall>n. LHook n False \<notin> set pre)
     \<and> (\<forall>c. ck = Some c \<and> exec_paths env call \<noteq> [] \<longrightarrow> (\<exists>ps. LCaptured c ps \<in> set pre)))"

definition honest_end :: "'w exec_env \<Rightarrow> tool_call \<Rightarrow> exec_exn + exec_outcome \<Rightarrow> exec_log list \<Rightarrow> bool" where
  "honest_end env call x l \<longleftrightarrow> (\<forall>out. x = Inr out \<longrightarrow> (\<exists>l'. l = l' @ [LCompleted (tc_id call) (er_status (xo_record out))]
       \<and> (\<forall>i st. LCompleted i st \<notin> set l'))
     \<and> (effectful env call \<and> er_status (xo_record out) \<in> {Rejected, Cached, Cancelled} \<longrightarrow> (\<forall>c. LRun c \<notin> set l))
     \<and> (er_status (xo_record out) = Executed \<longrightarrow> (\<exists>c. LRun c \<in> set l)))"

lemma quiet_no_run: "list_all quiet l \<Longrightarrow> LRun c \<notin> set l" "list_all quiet l \<Longrightarrow> LCompleted i st \<notin> set l"
  by (auto simp: list_all_iff)

lemma ends_quietly_honest: "Executed \<notin> S \<Longrightarrow> ends_quietly S call x l \<Longrightarrow> honest_end env call x l \<and> (\<forall>c. LRun c \<notin> set l)"
  by (auto simp: ends_quietly_def honest_end_def quiet_no_run split: sum.splits)

lemma ends_quietly_no_run: "ends_quietly S call x l \<Longrightarrow> \<forall>c. LRun c \<notin> set l"
  by (auto simp: ends_quietly_def quiet_no_run split: sum.splits)

definition ran_and_ended :: "'w exec_env \<Rightarrow> tool_call \<Rightarrow> exec_exn + exec_outcome \<Rightarrow> exec_log list \<Rightarrow> bool" where
  "ran_and_ended env call x l \<longleftrightarrow> (\<forall>c. LRun c \<notin> set l)
     \<and> (\<forall>out. x = Inr out \<longrightarrow> (\<exists>l'. list_all quiet l' \<and> l = l' @ [LCompleted (tc_id call) (er_status (xo_record out))])
         \<and> (effectful env call \<longrightarrow> er_status (xo_record out) \<notin> {Rejected, Cached, Cancelled}))"

lemma ends_quietly_ran:
  assumes "ends_quietly {Executed, Indeterminate} call x l"
  shows "ran_and_ended env call x l"
  unfolding ran_and_ended_def
proof (intro conjI allI impI)
  fix c show "LRun c \<notin> set l" using ends_quietly_no_run [OF assms] by blast
next
  fix out assume "x = Inr out"
  then have "er_status (xo_record out) \<in> {Executed, Indeterminate}"
    "\<exists>l'. list_all quiet l' \<and> l = l' @ [LCompleted (tc_id call) (er_status (xo_record out))]"
    using assms by (simp_all add: ends_quietly_def)
  then show "\<exists>l'. list_all quiet l' \<and> l = l' @ [LCompleted (tc_id call) (er_status (xo_record out))]"
    "er_status (xo_record out) \<notin> {Rejected, Cached, Cancelled}" by (blast, auto)
qed

lemma failed_ran:
  assumes "failed_run env call a rv True e v = (x, s')"
  shows "\<exists>l. xs_log s' = xs_log v @ l \<and> ran_and_ended env call x l"
proof -
  obtain l where l: "xs_log s' = xs_log v @ l" "case x of Inl e \<Rightarrow> l = [] | Inr out \<Rightarrow> \<exists>st. l = [LCompleted (tc_id call) st]
      \<and> er_status (xo_record out) = st \<and> (True \<and> effectful env call \<longrightarrow> st = Indeterminate) \<and> st \<noteq> Executed"
    using logsD [OF failed_run_logs assms] by blast
  then show ?thesis by (intro exI [of _ l]) (auto simp: ran_and_ended_def split: sum.splits)
qed

lemma honest_ran:
  assumes pre: "\<forall>i st. LCompleted i st \<notin> set pre" "LRun d \<in> set pre" and ran: "ran_and_ended env call x l"
  shows "honest_end env call x (pre @ l)"
  unfolding honest_end_def
proof (intro allI impI conjI)
  fix out assume out: "x = Inr out"
  then obtain l' where "list_all quiet l'" "l = l' @ [LCompleted (tc_id call) (er_status (xo_record out))]"
    using ran unfolding ran_and_ended_def by blast
  then show "\<exists>l'. pre @ l = l' @ [LCompleted (tc_id call) (er_status (xo_record out))] \<and> (\<forall>i st. LCompleted i st \<notin> set l')"
    using pre(1) quiet_no_run(2) [of l'] by (intro exI [of _ "pre @ l'"]) simp
next
  fix out c assume out: "x = Inr out" "effectful env call \<and> er_status (xo_record out) \<in> {Rejected, Cached, Cancelled}"
  then show "LRun c \<notin> set (pre @ l)" using ran unfolding ran_and_ended_def by blast
next
  show "\<exists>c. LRun c \<in> set (pre @ l)" using pre(2) by auto
qed

definition authorized_run :: "'w exec_env \<Rightarrow> str option \<Rightarrow> tool_call \<Rightarrow> jdict \<Rightarrow> exec_exn + exec_outcome \<Rightarrow> exec_log list \<Rightarrow> bool" where
  "authorized_run env ck call a x l \<longleftrightarrow> honest_end env call x l
     \<and> (\<forall>c. LRun c \<in> set l \<longrightarrow> c = call\<lparr>tc_arguments := a\<rparr> \<and> justified_run env ck c l)"

lemma not_run_authorized: "honest_end env call x l \<Longrightarrow> \<forall>c. LRun c \<notin> set l \<Longrightarrow> authorized_run env ck call a x l"
  by (simp add: authorized_run_def)

lemma ran_authorized:
  assumes pre: "list_all quiet l1" "LStarted (call\<lparr>tc_arguments := a\<rparr>) \<in> set l1"
      "\<forall>n. LHook n False \<notin> set l1"
      "\<forall>c. ck = Some c \<and> exec_paths env (call\<lparr>tc_arguments := a\<rparr>) \<noteq> [] \<longrightarrow> (\<exists>ps. LCaptured c ps \<in> set l1)"
    and post: "list_all quiet l2" and ran: "ran_and_ended env call x l3"
  shows "authorized_run env ck call a x (l1 @ LRun (call\<lparr>tc_arguments := a\<rparr>) # l2 @ l3)"
  unfolding authorized_run_def
proof (intro conjI allI impI)
  let ?call = "call\<lparr>tc_arguments := a\<rparr>"
  have "\<forall>i st. LCompleted i st \<notin> set (l1 @ LRun ?call # l2)"
    using quiet_no_run(2) [OF pre(1)] quiet_no_run(2) [OF post] by simp
  from honest_ran [OF this _ ran, of ?call] show "honest_end env call x (l1 @ LRun ?call # l2 @ l3)" by simp
  have no3: "\<forall>c. LRun c \<notin> set l3" using ran unfolding ran_and_ended_def by blast
  fix c assume "LRun c \<in> set (l1 @ LRun ?call # l2 @ l3)"
  then show c: "c = ?call" using no3 quiet_no_run(1) [OF pre(1)] quiet_no_run(1) [OF post] by auto
  show "justified_run env ck c (l1 @ LRun ?call # l2 @ l3)"
    unfolding justified_run_def c
    by (rule exI [of _ l1], rule exI [of _ "l2 @ l3"]) (use pre no3 quiet_no_run(1) [OF post] in auto)
qed

lemma run_authorized_logs: "logs (run_authorized env ck transform call rv a) (authorized_run env ck call a)"
  unfolding logs_def
proof (intro allI impI)
  fix s x s' assume run: "run_authorized env ck transform call rv a s = (x, s')"
  let ?call = "call\<lparr>tc_arguments := a\<rparr>"
  let ?key = "if xe_effect env (tc_name call) = Some ''read_only'' then cache_key env ?call (xs_world s) else None"
  show "\<exists>l. xs_log s' = xs_log s @ l \<and> authorized_run env ck call a x l"
  proof (cases "case ?key of None \<Rightarrow> None | Some k \<Rightarrow> dict_get (xs_cache s) k")
    case (Some r)
    let ?r = "r\<lparr>tr_metadata := dict_set (tr_metadata r) ''cache_hit'' (JBool True)\<rparr>"
    let ?m = "xbind (run_hook env ''PostToolUse'' ?call a (Some ?r)) (\<lambda>_ s. exec_done env call ?r Cached a (xe_state env (xs_world s)) None s)"
    have "?m s = (x, s')" using run Some by (simp add: run_authorized_def Let_def)
    moreover have "logs ?m (ends_quietly {Cached} call)"
      by (rule ends_bind [OF run_hook_logs done_state_ends]) simp
    ultimately obtain l where "xs_log s' = xs_log s @ l" "ends_quietly {Cached} call x l" using logsD by blast
    then show ?thesis using ends_quietly_honest [of "{Cached}" call x l env] not_run_authorized by blast
  next
    case None
    define t where "t = (if xe_effect env (tc_name call) \<noteq> Some ''read_only'' then s\<lparr>xs_cache := []\<rparr> else s)"
    obtain p u where b: "before_run env ck ?call t = (p, u)" by fastforce
    obtain l1 where l1: "xs_log u = xs_log s @ l1" "list_all quiet l1"
      and ok: "\<forall>paths. p = Inr paths \<longrightarrow> LStarted ?call \<in> set l1 \<and> (\<forall>n. LHook n False \<notin> set l1) \<and> (\<forall>c. ck = Some c \<and> exec_paths env ?call \<noteq> [] \<longrightarrow> (\<exists>ps. LCaptured c ps \<in> set l1))"
      using logsD [OF before_run_logs b] by (auto simp: t_def)
    show ?thesis
    proof (cases p)
      case (Inl e)
      then have "failed_run env call a rv False e u = (x, s')" using run None b by (simp add: run_authorized_def Let_def t_def)
      then obtain l2 where f: "xs_log s' = xs_log u @ l2" "case x of Inl e \<Rightarrow> l2 = [] | Inr out \<Rightarrow> \<exists>st. l2 = [LCompleted (tc_id call) st]
          \<and> er_status (xo_record out) = st \<and> (False \<and> effectful env call \<longrightarrow> st = Indeterminate) \<and> st \<noteq> Executed"
        using logsD [OF failed_run_logs] by blast
      have "ends_quietly (- {Executed}) call x (l1 @ l2)" using f(2) l1 by (auto simp: ends_quietly_def split: sum.splits)
      then have "authorized_run env ck call a x (l1 @ l2)"
        using ends_quietly_honest [of "- {Executed}"] not_run_authorized by blast
      moreover have "xs_log s' = xs_log s @ l1 @ l2" using f(1) l1(1) by simp
      ultimately show ?thesis by blast
    next
      case (Inr paths)
      obtain q v where rr: "run_recorded env ck ?call paths u = (q, v)" by fastforce
      obtain l2 where l2: "xs_log v = xs_log u @ LRun ?call # l2" "list_all quiet l2" using logsD [OF run_recorded_logs rr] by blast
      obtain l3 where l3: "xs_log s' = xs_log v @ l3" "ran_and_ended env call x l3"
      proof (cases q)
        case (Inl e)
        then have "failed_run env call a rv True e v = (x, s')" using run None b Inr rr by (simp add: run_authorized_def Let_def t_def)
        from failed_ran [OF this] show ?thesis using that by blast
      next
        case result: (Inr r)
        have "after_run env transform call ?call ?key paths r v = (x, s')"
          using run None b Inr rr result by (simp add: run_authorized_def Let_def t_def)
        from logsD [OF after_run_logs this] show ?thesis using that ends_quietly_ran by blast
      qed
      have "authorized_run env ck call a x (l1 @ LRun ?call # l2 @ l3)"
        by (rule ran_authorized [OF l1(2) _ _ _ l2(2) l3(2)]) (use ok Inr in blast)+
      moreover have "xs_log s' = xs_log s @ l1 @ LRun ?call # l2 @ l3" using l1(1) l2(1) l3(1) by simp
      ultimately show ?thesis by blast
    qed
  qed
qed

section \<open>What a run of a tool rests on\<close>

lemma honest_app:
  assumes "list_all quiet l" and honest: "honest_end env call x l'"
  shows "honest_end env call x (l @ l')"
  unfolding honest_end_def
proof (intro allI impI conjI)
  fix out assume "x = Inr out"
  then obtain k where "l' = k @ [LCompleted (tc_id call) (er_status (xo_record out))]" "\<forall>i st. LCompleted i st \<notin> set k"
    using honest unfolding honest_end_def by blast
  then show "\<exists>k. l @ l' = k @ [LCompleted (tc_id call) (er_status (xo_record out))] \<and> (\<forall>i st. LCompleted i st \<notin> set k)"
    using quiet_no_run(2) [OF assms(1)] by (intro exI [of _ "l @ k"]) simp
next
  fix out c assume "x = Inr out" "effectful env call \<and> er_status (xo_record out) \<in> {Rejected, Cached, Cancelled}"
  then have "LRun c \<notin> set l'" using honest unfolding honest_end_def by blast
  then show "LRun c \<notin> set (l @ l')" using quiet_no_run(1) [OF assms(1)] by simp
next
  fix out assume "x = Inr out" "er_status (xo_record out) = Executed"
  then show "\<exists>c. LRun c \<in> set (l @ l')" using honest unfolding honest_end_def by auto
qed

lemma quiet_honest: "list_all quiet l \<Longrightarrow> honest_end env call (Inl e) l"
  by (simp add: honest_end_def)

lemma refused_honest: "logs (exec_done env call r Rejected a rv None) (\<lambda>x l. honest_end env call x l \<and> (\<forall>c. LRun c \<notin> set l))"
  by (rule logs_mono [OF done_ends [of Rejected "{Rejected}"]]) (auto dest: ends_quietly_honest [rotated])

text \<open>
  \<open>admitted c l\<close>: the entries \<open>l\<close> show that the call \<open>c\<close> was admitted. It is the requested call but for
  the arguments; these are valid, in scope and allowed as they are run; no hook objected.
\<close>

definition admitted :: "'w exec_env \<Rightarrow> bool \<Rightarrow> tool_call \<Rightarrow> tool_call \<Rightarrow> exec_log list \<Rightarrow> bool" where
  "admitted env scoped call c l \<longleftrightarrow> c = call\<lparr>tc_arguments := tc_arguments c\<rparr> \<and> xe_validate env (tc_name call) (tc_arguments c) = None
     \<and> LDecision (exec_request env call (tc_arguments c)) Allow \<in> set l \<and> (scoped \<longrightarrow> LInScope c \<in> set l)
     \<and> (\<forall>n. LHook n False \<notin> set l)"

definition run_justified ::
    "'w exec_env \<Rightarrow> str option \<Rightarrow> tool_call \<Rightarrow> (tool_call \<Rightarrow> exec_log list \<Rightarrow> bool) \<Rightarrow> exec_exn + exec_outcome \<Rightarrow> exec_log list \<Rightarrow> bool" where
  "run_justified env ck call R x l \<longleftrightarrow> honest_end env call x l
     \<and> (\<forall>c. LRun c \<in> set l \<longrightarrow> justified_run env ck c l \<and> R c (takeWhile quiet l))"

lemma justified_prefix:
  assumes "justified_run env ck c l"
  shows "\<exists>post. l = takeWhile quiet l @ LRun c # post \<and> (\<forall>d. LRun d \<notin> set post) \<and> LStarted c \<in> set (takeWhile quiet l)
     \<and> (\<forall>n. LHook n False \<notin> set (takeWhile quiet l))
     \<and> (\<forall>k. ck = Some k \<and> exec_paths env c \<noteq> [] \<longrightarrow> (\<exists>ps. LCaptured k ps \<in> set (takeWhile quiet l)))"
proof -
  obtain pre post where p: "l = pre @ LRun c # post" "list_all quiet pre" "\<forall>d. LRun d \<notin> set post" "LStarted c \<in> set pre"
    "\<forall>n. LHook n False \<notin> set pre" "\<forall>k. ck = Some k \<and> exec_paths env c \<noteq> [] \<longrightarrow> (\<exists>ps. LCaptured k ps \<in> set pre)"
    using assms unfolding justified_run_def by blast
  have "takeWhile quiet l = pre" using p(1,2) by (simp add: takeWhile_append2 list_all_iff)
  then show ?thesis using p by blast
qed

lemma justified_app:
  assumes "list_all quiet l" "\<forall>n. LHook n False \<notin> set l" "justified_run env ck c l'"
  shows "justified_run env ck c (l @ l')"
proof -
  obtain pre post where p: "l' = pre @ LRun c # post" "list_all quiet pre" "\<forall>d. LRun d \<notin> set post" "LStarted c \<in> set pre"
    "\<forall>n. LHook n False \<notin> set pre" "\<forall>k. ck = Some k \<and> exec_paths env c \<noteq> [] \<longrightarrow> (\<exists>ps. LCaptured k ps \<in> set pre)"
    using assms(3) unfolding justified_run_def by blast
  show ?thesis unfolding justified_run_def
    by (rule exI [of _ "l @ pre"], rule exI [of _ post]) (use p assms(1,2) in auto)
qed

lemma run_justified_app:
  assumes l: "list_all quiet l" "\<forall>n. LHook n False \<notin> set l" and x: "run_justified env ck call R x l'"
    and R: "\<And>c p. R c p \<Longrightarrow> R' c (l @ p)"
  shows "run_justified env ck call R' x (l @ l')"
  unfolding run_justified_def
proof (intro conjI allI impI)
  show "honest_end env call x (l @ l')" using l(1) x honest_app unfolding run_justified_def by blast
  fix c assume "LRun c \<in> set (l @ l')"
  then have "LRun c \<in> set l'" using quiet_no_run(1) [OF l(1)] by simp
  then have c: "justified_run env ck c l'" "R c (takeWhile quiet l')" using x unfolding run_justified_def by blast+
  have "takeWhile quiet (l @ l') = l @ takeWhile quiet l'" using l(1) by (simp add: list_all_iff)
  then show "R' c (takeWhile quiet (l @ l'))" using R [OF c(2)] by simp
  show "justified_run env ck c (l @ l')" using justified_app [OF l c(1)] .
qed

lemma quiet_justified:
  fixes e :: exec_exn
  assumes "list_all quiet l"
  shows "run_justified env ck call R (Inl e) l"
  using quiet_no_run(1) [OF assms] quiet_honest [OF assms] by (simp add: run_justified_def)

lemma refused_after:
  assumes "list_all quiet l"
  shows "logs (exec_done env call r Rejected a rv None) (\<lambda>x l'. run_justified env ck call R x (l @ l'))"
proof (rule logs_mono [OF refused_honest])
  fix x l' assume "honest_end env call x l' \<and> (\<forall>c. LRun c \<notin> set l')"
  then have "honest_end env call x (l @ l')" "\<forall>c. LRun c \<notin> set l'" using honest_app [OF assms] by blast+
  then show "run_justified env ck call R x (l @ l')" using quiet_no_run(1) [OF assms] by (simp add: run_justified_def)
qed

text \<open>One check of the pipeline: what it lets through goes on to the next.\<close>

lemma logs_prepared:
  assumes m: "logs m (\<lambda>r l. list_all quiet l \<and> (\<forall>b. r = Inr (Ready b) \<longrightarrow> ok b l \<and> (\<forall>n. LHook n False \<notin> set l)))"
    and after: "\<And>b l. ok b l \<Longrightarrow> logs (k b) (run_justified env ck call (R b))"
    and R: "\<And>b l c p. ok b l \<Longrightarrow> R b c p \<Longrightarrow> R' c (l @ p)"
  shows "logs (xbind m (\<lambda>p. case p of Refused r a \<Rightarrow> exec_done env call r Rejected a rv None | Ready a \<Rightarrow> k a)) (run_justified env ck call R')"
proof (rule logs_bind [OF m])
  fix e :: exec_exn and l
  assume "list_all quiet l \<and> (\<forall>b. Inl e = Inr (Ready b) \<longrightarrow> ok b l \<and> (\<forall>n. LHook n False \<notin> set l))"
  then show "run_justified env ck call R' (Inl e) l" using quiet_justified by blast
next
  fix p l assume p: "list_all quiet l \<and> (\<forall>b. Inr p = Inr (Ready b) \<longrightarrow> ok b l \<and> (\<forall>n. LHook n False \<notin> set l))"
  show "logs (case p of Refused r a \<Rightarrow> exec_done env call r Rejected a rv None | Ready a \<Rightarrow> k a) (\<lambda>r l'. run_justified env ck call R' r (l @ l'))"
  proof (cases p)
    case (Refused r a)
    have "logs (exec_done env call r Rejected a rv None) (\<lambda>x l'. run_justified env ck call R' x (l @ l'))"
      by (rule refused_after) (use p in blast)
    then show ?thesis using Refused by simp
  next
    case (Ready a)
    then have ok: "list_all quiet l" "ok a l" "\<forall>n. LHook n False \<notin> set l" using p by simp_all
    have "logs (k a) (\<lambda>r l'. run_justified env ck call R' r (l @ l'))"
      by (rule logs_mono [OF after [OF ok(2)]], rule run_justified_app [OF ok(1,3)], assumption, rule R [OF ok(2)])
    then show ?thesis using Ready by simp
  qed
qed

lemma run_after_decision: "logs (run_authorized env ck transform call rv a) (run_justified env ck call (\<lambda>c p. c = call\<lparr>tc_arguments := a\<rparr> \<and> (\<forall>n. LHook n False \<notin> set p)))"
  by (rule logs_mono [OF run_authorized_logs]) (auto simp: authorized_run_def run_justified_def dest: justified_prefix)

lemma authorized_then_run:
  "logs (xbind (authorized env call a) (\<lambda>p. case p of Refused r a \<Rightarrow> exec_done env call r Rejected a rv None
      | Ready a \<Rightarrow> run_authorized env ck transform call rv a))
    (run_justified env ck call (\<lambda>c p. c = call\<lparr>tc_arguments := a\<rparr> \<and> (\<forall>n. LHook n False \<notin> set p) \<and> LDecision (exec_request env call a) Allow \<in> set p))"
  by (rule logs_prepared [where ok = "\<lambda>b l. b = a \<and> l = [LDecision (exec_request env call a) Allow]", OF logs_mono [OF authorized_logs] run_after_decision])
    auto

lemma scoped_then_run:
  "logs (xbind (checked_scope scope call a) (\<lambda>p. case p of Refused r a \<Rightarrow> exec_done env call r Rejected a rv None
      | Ready a \<Rightarrow> xbind (authorized env call a) (\<lambda>p. case p of Refused r a \<Rightarrow> exec_done env call r Rejected a rv None
      | Ready a \<Rightarrow> run_authorized env ck transform call rv a)))
    (run_justified env ck call (\<lambda>c p. c = call\<lparr>tc_arguments := a\<rparr> \<and> (\<forall>n. LHook n False \<notin> set p) \<and> LDecision (exec_request env call a) Allow \<in> set p
       \<and> (scope \<noteq> None \<longrightarrow> LInScope c \<in> set p)))"
  by (rule logs_prepared [where ok = "\<lambda>b l. b = a \<and> (\<forall>n. LHook n False \<notin> set l) \<and> (scope \<noteq> None \<longrightarrow> LInScope (call\<lparr>tc_arguments := a\<rparr>) \<in> set l)",
        OF logs_mono [OF checked_scope_logs] authorized_then_run])
    auto

lemma checked_then_run:
  "logs (xbind (checked_arguments env call) (\<lambda>p. case p of Refused r a \<Rightarrow> exec_done env call r Rejected a rv None
      | Ready a \<Rightarrow> xbind (checked_scope scope call a) (\<lambda>p. case p of Refused r a \<Rightarrow> exec_done env call r Rejected a rv None
      | Ready a \<Rightarrow> xbind (authorized env call a) (\<lambda>p. case p of Refused r a \<Rightarrow> exec_done env call r Rejected a rv None
      | Ready a \<Rightarrow> run_authorized env ck transform call rv a))))
    (run_justified env ck call (admitted env (scope \<noteq> None) call))"
  by (rule logs_prepared [where ok = "\<lambda>b l. xe_validate env (tc_name call) b = None \<and> (\<forall>n. LHook n False \<notin> set l)",
        OF logs_mono [OF checked_arguments_logs] scoped_then_run])
    (auto simp: admitted_def)

lemma execute_call_logs: "logs (execute_call env ck scope transform call) (run_justified env ck call (admitted env (scope \<noteq> None) call))"
  unfolding execute_call_def Let_def
  by (rule logs_state [of "\<lambda>t. xbind (checked_arguments env call) (\<lambda>p. case p of Refused r a \<Rightarrow> exec_done env call r Rejected a (xe_state env (xs_world t)) None
      | Ready a \<Rightarrow> xbind (checked_scope scope call a) (\<lambda>p. case p of Refused r a \<Rightarrow> exec_done env call r Rejected a (xe_state env (xs_world t)) None
      | Ready a \<Rightarrow> xbind (authorized env call a) (\<lambda>p. case p of Refused r a \<Rightarrow> exec_done env call r Rejected a (xe_state env (xs_world t)) None
      | Ready a \<Rightarrow> run_authorized env ck transform call (xe_state env (xs_world t)) a)))"]) (rule checked_then_run)


section \<open>Properties\<close>

text \<open>
  C31: A tool runs only when everything was checked for what actually runs. If the log of one call
  of the executor has a run, it has exactly one. The call that runs is the requested one except
  for its arguments, which hooks may have replaced; the final arguments passed the registry's
  validation and the caller's scope check, and the permission manager allowed the request that
  was derived from them. Before the run no hook had objected, the run was journaled as started, and
  where a checkpoint is asked for its files were captured.
\<close>

theorem executed_call_justified:
  assumes exec: "execute_call env ck scope transform call s = (x, s')"
    and log: "xs_log s' = xs_log s @ l" and ran: "LRun c \<in> set l"
  shows "\<exists>pre post. l = pre @ LRun c # post \<and> (\<forall>d. LRun d \<notin> set pre \<union> set post)
     \<and> c = call\<lparr>tc_arguments := tc_arguments c\<rparr> \<and> xe_validate env (tc_name call) (tc_arguments c) = None
     \<and> (scope \<noteq> None \<longrightarrow> LInScope c \<in> set pre)
     \<and> LDecision (exec_request env call (tc_arguments c)) Allow \<in> set pre
     \<and> (\<forall>n. LHook n False \<notin> set pre) \<and> LStarted c \<in> set pre
     \<and> (\<forall>k. ck = Some k \<and> exec_paths env c \<noteq> [] \<longrightarrow> (\<exists>ps. LCaptured k ps \<in> set pre))"
proof -
  have "run_justified env ck call (admitted env (scope \<noteq> None) call) x l"
    using logsD [OF execute_call_logs exec] log by auto
  then have just: "justified_run env ck c l" and adm: "admitted env (scope \<noteq> None) call c (takeWhile quiet l)"
    using ran unfolding run_justified_def by blast+
  from justified_prefix [OF just] obtain post where "l = takeWhile quiet l @ LRun c # post" "\<forall>d. LRun d \<notin> set post" "LStarted c \<in> set (takeWhile quiet l)"
    "\<forall>k. ck = Some k \<and> exec_paths env c \<noteq> [] \<longrightarrow> (\<exists>ps. LCaptured k ps \<in> set (takeWhile quiet l))"
    by (elim exE conjE)
  moreover have "\<forall>d. LRun d \<notin> set (takeWhile quiet l)" by (auto dest: set_takeWhileD)
  ultimately show ?thesis using adm unfolding admitted_def by blast
qed

text \<open>
  C32: The recorded status is honest. A call that returns wrote exactly one completion, the last
  entry, with the status of its record. A call recorded as executed did run its tool; a call of a
  tool that changes the workspace or starts a process is recorded as rejected, cached or cancelled
  only if the tool was not started, whichever step raised.
\<close>

theorem recorded_status_honest:
  assumes exec: "execute_call env ck scope transform call s = (Inr out, s')"
    and log: "xs_log s' = xs_log s @ l"
  shows "(\<exists>l'. l = l' @ [LCompleted (tc_id call) (er_status (xo_record out))] \<and> (\<forall>i st. LCompleted i st \<notin> set l'))
     \<and> (er_status (xo_record out) = Executed \<longrightarrow> (\<exists>c. LRun c \<in> set l))
     \<and> (effectful env call \<and> er_status (xo_record out) \<in> {Rejected, Cached, Cancelled} \<longrightarrow> (\<forall>c. LRun c \<notin> set l))"
proof -
  have "run_justified env ck call (admitted env (scope \<noteq> None) call) (Inr out) l"
    using logsD [OF execute_call_logs exec] log by auto
  then show ?thesis unfolding run_justified_def honest_end_def by blast
qed

text \<open>A registry with one writing tool, a hook, a checkpoint store and an approving user, for the witnesses.\<close>

definition sample_registry :: "unit exec_env" where
  "sample_registry = \<lparr>xe_effect = (\<lambda>n. if n = ''write_file'' then Some ''workspace_write'' else Some ''read_only''),
     xe_validate = (\<lambda>_ a. if dict_get a ''path'' = None then Some (failure ''INVALID_ARGUMENTS'' ''path'' [] []) else None),
     xe_request = (\<lambda>_ _. None), xe_frepr = (\<lambda>_. ''0.0''), xe_sha = (\<lambda>s. s), xe_handler = (\<lambda>_. Some (\<lambda>_. \<lparr>ap_choice = AllowOnce, ap_reason = []\<rparr>)),
     xe_in_roots = (\<lambda>_. True), xe_paths = default_tool_paths,
     xe_hook = Some (\<lambda>_ _ a _ w. (Inr \<lparr>ho_allowed = True, ho_arguments = Some a, ho_context = [], ho_reason = []\<rparr>, w)),
     xe_tracked = False, xe_observer = False, xe_state = (\<lambda>_. (0, 0)), xe_fingerprint = (\<lambda>_ _. None),
     xe_watch = (\<lambda>_ w. (Inr (), w)), xe_store = True, xe_capture = (\<lambda>_ _ ps w. (Inr ps, w)), xe_record = (\<lambda>_ _ w. (Inr (), w)),
     xe_started = (\<lambda>_ w. (Inr (), w)), xe_run = (\<lambda>_ w. (Inl (XError None ''disk full''), w)), xe_mark = (\<lambda>w. w),
     xe_refresh = (\<lambda>_ w. (Inr None, w)), xe_completed = (\<lambda>_ w. (Inr (), w)), xe_elapsed = (\<lambda>_. 0)\<rparr>"

definition sample_write :: tool_call where
  "sample_write = \<lparr>tc_index = 0, tc_id = ''c1'', tc_name = ''write_file'', tc_arguments = [(''path'', JStr ''a.txt'')]\<rparr>"

definition sample_state :: "unit executor_state" where
  "sample_state = \<lparr>xs_perm = sample_manager, xs_cache = [], xs_log = [], xs_world = ()\<rparr>"

definition sample_execution :: "(exec_exn + exec_outcome) \<times> unit executor_state" where
  "sample_execution = execute_call sample_registry (Some ''k'') None None sample_write sample_state"

lemma sample_execution_log:
  "xs_log (snd sample_execution) =
     [LHook ''PreToolUse'' True, LHook ''BeforeFileEdit'' True, LDecision (exec_request sample_registry sample_write (tc_arguments sample_write)) Allow,
      LCaptured ''k'' [''a.txt''], LStarted sample_write, LRun sample_write, LCompleted ''c1'' Indeterminate]"
  by code_simp

lemma sample_execution_status: "case fst sample_execution of Inl _ \<Rightarrow> False | Inr out \<Rightarrow> er_status (xo_record out) = Indeterminate"
  by code_simp

theorem executed_call_justified_witness:
  "\<exists>pre post. xs_log (snd sample_execution) = pre @ LRun sample_write # post
     \<and> LDecision (exec_request sample_registry sample_write (tc_arguments sample_write)) Allow \<in> set pre
     \<and> (\<exists>ps. LCaptured ''k'' ps \<in> set pre)"
proof -
  obtain x s' where run: "execute_call sample_registry (Some ''k'') None None sample_write sample_state = (x, s')" by fastforce
  then have s': "s' = snd sample_execution" by (simp add: sample_execution_def)
  have ran: "LRun sample_write \<in> set (xs_log (snd sample_execution))" by (simp add: sample_execution_log)
  have log: "xs_log s' = xs_log sample_state @ xs_log (snd sample_execution)" by (simp add: s' sample_state_def)
  have paths: "exec_paths sample_registry sample_write \<noteq> []" by code_simp
  from executed_call_justified [OF run log ran] obtain pre post where "xs_log (snd sample_execution) = pre @ LRun sample_write # post"
    "LDecision (exec_request sample_registry sample_write (tc_arguments sample_write)) Allow \<in> set pre"
    "\<forall>k. Some ''k'' = Some k \<and> exec_paths sample_registry sample_write \<noteq> [] \<longrightarrow> (\<exists>ps. LCaptured k ps \<in> set pre)"
    by (elim exE conjE)
  then show ?thesis using paths by blast
qed

theorem recorded_status_honest_witness:
  "\<exists>l'. xs_log (snd sample_execution) = l' @ [LCompleted ''c1'' Indeterminate] \<and> (\<forall>i st. LCompleted i st \<notin> set l')"
proof -
  obtain x s' where run: "execute_call sample_registry (Some ''k'') None None sample_write sample_state = (x, s')" by fastforce
  then have e: "s' = snd sample_execution" "x = fst sample_execution" by (simp_all add: sample_execution_def)
  then obtain out where out: "x = Inr out" "er_status (xo_record out) = Indeterminate"
    using sample_execution_status by (cases "fst sample_execution") auto
  have "xs_log s' = xs_log sample_state @ xs_log (snd sample_execution)" by (simp add: e sample_state_def)
  from recorded_status_honest [OF run [unfolded out(1)] this] show ?thesis by (simp add: out(2) sample_write_def)
qed

end
