(* ===== verification/Event_Stream.thy ===== *)
theory Event_Stream
  imports Engine_Events
begin

text \<open>
  \<open>EventStream\<close> of \<open>forge/engine/event_stream.py\<close>: bounded, acknowledged replay of the event log. A
  subscription holds how far the log was scanned, how far the client acknowledged, and the cursor
  of the batch it still has to acknowledge. Cursors are signed: the codec (\<open>base64\<close>), the signature
  (\<open>hmac\<close> with the key of the store), \<open>json.loads\<close> and the snapshot a client starts from are fields of
  the environment, the clock is the argument \<open>now\<close> of an operation.
\<close>

record stream_env = engine_env +
  sm_b64 :: "str \<Rightarrow> str"
  sm_unb64 :: "str \<Rightarrow> str option"
  sm_mac :: "str \<Rightarrow> str"
  sm_loads :: "str \<Rightarrow> json option"
  sm_profile :: str
  sm_ttl :: int
  sm_snapshot :: "engine_db \<Rightarrow> jdict \<Rightarrow> engine_exn + json \<times> bool"

record subscription =
  sub_scope :: jdict
  sub_scanned :: nat
  sub_acked :: nat
  sub_pending :: "str option"

record event_stream =
  es_generation :: str
  es_ephemeral :: bool
  es_subs :: "(str, subscription) dict"

definition new_stream :: "str \<Rightarrow> bool \<Rightarrow> event_stream" where
  "new_stream generation ephemeral = \<lparr>es_generation = generation, es_ephemeral = ephemeral, es_subs = []\<rparr>"

section \<open>Cursors\<close>

definition invalid_cursor :: "str \<Rightarrow> engine_exn" where
  "invalid_cursor m = ContractError ''INVALID_CURSOR'' m"

definition artifact_limit :: "str \<Rightarrow> engine_exn" where
  "artifact_limit m = ContractError ''ARTIFACT_LIMIT'' m"

definition cursor_value :: "('a stream_env_scheme) \<Rightarrow> event_stream \<Rightarrow> jdict \<Rightarrow> str \<Rightarrow> int \<Rightarrow> int \<Rightarrow> json" where
  "cursor_value env st scope seq issued expires =
     JObj [(''generation'', JStr (es_generation st)), (''profile'', JStr (sm_profile env)), (''scope'', JObj scope),
       (''seq'', JStr seq), (''issued_utc'', JInt issued), (''expires_utc'', JInt expires)]"

definition stream_cursor :: "('a stream_env_scheme) \<Rightarrow> event_stream \<Rightarrow> pyfloat \<Rightarrow> jdict \<Rightarrow> nat \<Rightarrow> str" where
  "stream_cursor env st now scope seq =
     (let issued = \<lfloor>now\<rfloor>;
          raw = encoded env (cursor_value env st scope (nat_str seq) issued (issued + sm_ttl env)) in
      rstrip_chars ''='' (sm_b64 env raw) @ ''.'' @ sm_mac env raw)"

text \<open>\<open>body + '=' * (-len(body) % 4)\<close>\<close>

definition padded :: "str \<Rightarrow> str" where
  "padded body = body @ replicate ((4 - length body mod 4) mod 4) (CHR ''='')"

text \<open>\<open>split('.')\<close> has to give two parts.\<close>

definition cursor_parts :: "str \<Rightarrow> (str \<times> str) option" where
  "cursor_parts c =
     (case dropWhile (\<lambda>x. x \<noteq> CHR ''.'') c of
        [] \<Rightarrow> None
      | _ # signed \<Rightarrow> (if CHR ''.'' \<in> set signed then None else Some (takeWhile (\<lambda>x. x \<noteq> CHR ''.'') c, signed)))"

definition cursor_payload :: "('a stream_env_scheme) \<Rightarrow> str \<Rightarrow> json option" where
  "cursor_payload env c =
     (case cursor_parts c of
        None \<Rightarrow> None
      | Some (body, signed) \<Rightarrow>
          (case sm_unb64 env (padded body) of
             None \<Rightarrow> None
           | Some raw \<Rightarrow> if sm_mac env raw \<noteq> signed then None else sm_loads env raw))"

text \<open>Every way to fail ends in the same error; dictionaries compare without order.\<close>

definition decoded_seq :: "('a stream_env_scheme) \<Rightarrow> event_stream \<Rightarrow> pyfloat \<Rightarrow> str \<Rightarrow> jdict \<Rightarrow> nat option" where
  "decoded_seq env st now c scope =
     (case cursor_payload env c of
        Some (JObj v) \<Rightarrow>
          (case (jget v ''seq'', jget v ''issued_utc'', jget v ''expires_utc'') of
             (JStr text, JInt issued, JInt expires) \<Rightarrow>
               (case parse_int text of
                  None \<Rightarrow> None
                | Some seq \<Rightarrow>
                    if expires - issued \<noteq> sm_ttl env \<or> \<not> (of_int issued \<le> now \<and> now < of_int expires) then None
                    else if sort_tree (JObj v) \<noteq> sort_tree (cursor_value env st scope (int_str seq) issued expires) \<or> seq < 0 then None
                    else Some (nat seq))
           | _ \<Rightarrow> None)
      | _ \<Rightarrow> None)"

definition decode_cursor :: "('a stream_env_scheme) \<Rightarrow> event_stream \<Rightarrow> pyfloat \<Rightarrow> str \<Rightarrow> jdict \<Rightarrow> engine_exn + nat" where
  "decode_cursor env st now c scope =
     (case decoded_seq env st now c scope of
        None \<Rightarrow> Inl (invalid_cursor ''Cursor is expired or invalid for this store, profile or scope; rebuild the snapshot and mark a history gap'')
      | Some seq \<Rightarrow> Inr seq)"

section \<open>Subscribing\<close>

definition scope_kind :: "jdict \<Rightarrow> str" where
  "scope_kind scope = jstr (jget scope ''kind'')"

definition scope_ids :: "engine_db \<Rightarrow> str \<Rightarrow> str set" where
  "scope_ids db kind =
     (if kind = ''workspace'' then ew_id ` set (db_workspaces db)
      else if kind = ''session'' then es_id ` set (db_sessions db)
      else if kind = ''turn'' then tu_id ` set (db_turns db)
      else rn_id ` set (db_runs db))"

definition check_scope :: "('a stream_env_scheme) \<Rightarrow> jdict \<Rightarrow> engine_db \<Rightarrow> engine_exn + unit" where
  "check_scope env scope db =
     rbind (validate env ''scope'' (JObj scope)) (\<lambda>_.
     guard (scope_kind scope \<noteq> ''all'' \<and> jstr (jget scope ''id'') \<notin> scope_ids db (scope_kind scope))
       (not_found ''Subscription scope not found'') (Inr ()))"

definition high_watermark :: "engine_db \<Rightarrow> nat" where
  "high_watermark db = fold max (map er_seq (db_events db)) 0"

definition low_watermark :: "engine_db \<Rightarrow> nat" where
  "low_watermark db = (case map er_seq (db_events db) of [] \<Rightarrow> 1 | n # ns \<Rightarrow> fold min ns n)"

definition subscribe :: "('a stream_env_scheme) \<Rightarrow> pyfloat \<Rightarrow> jdict \<Rightarrow> engine_db \<Rightarrow> event_stream \<Rightarrow>
    (engine_exn + jdict) \<times> event_stream \<times> engine_db" where
  "subscribe env now params db st =
     (let scope = jobj (jget params ''scope''); high = high_watermark db; low = low_watermark db;
          checked =
            rbind (validate env ''events.subscribe.request'' (JObj params)) (\<lambda>_.
            guard (16 \<le> length (es_subs st)) (artifact_limit ''Subscription limit reached'') (
            rbind (check_scope env scope db) (\<lambda>_.
            rbind (sm_snapshot env db scope) (\<lambda>(snapshot, gap).
            rbind (case dict_get params ''after_cursor'' of None \<Rightarrow> Inr high | Some c \<Rightarrow> decode_cursor env st now (jstr c) scope) (\<lambda>start.
            guard (high < start \<or> start < low - 1) (invalid_cursor ''Cursor is outside retained history'') (
            let result = [(''subscription_id'', JStr (new_id env ''sub'' db)), (''snapshot'', snapshot),
                  (''cursor'', JStr (stream_cursor env st now scope start)), (''high_watermark'', JStr (nat_str high)),
                  (''history_gap'', JBool (gap \<or> 1 < low \<or> es_ephemeral st))] in
            rbind (validate env ''events.subscribe.result'' (JObj result)) (\<lambda>_. Inr (result, start)))))))) in
      case checked of
        Inl e \<Rightarrow> (Inl e, st, tick db)
      | Inr (result, start) \<Rightarrow>
          (Inr result, st\<lparr>es_subs := dict_set (es_subs st) (new_id env ''sub'' db)
             \<lparr>sub_scope = scope, sub_scanned = start, sub_acked = start, sub_pending = None\<rparr>\<rparr>, tick db))"

section \<open>Batches\<close>

text \<open>\<open>int(event['store_seq'])\<close>\<close>

definition event_seq :: "jdict \<Rightarrow> nat" where
  "event_seq e = (case parse_int (jstr (jget e ''store_seq'')) of None \<Rightarrow> 0 | Some i \<Rightarrow> nat i)"

definition event_matches :: "jdict \<Rightarrow> jdict \<Rightarrow> engine_exn + bool" where
  "event_matches scope e =
     (if scope_kind scope = ''all'' then Inr True
      else (case dict_get e (scope_kind scope @ ''_id'') of
          None \<Rightarrow> Inl (StoreRuntime (scope_kind scope @ ''_id''))
        | Some v \<Rightarrow> Inr (v = jget scope ''id'')))"

definition batch_of :: "str \<Rightarrow> str \<Rightarrow> jdict list \<Rightarrow> jdict" where
  "batch_of sid c events =
     [(''jsonrpc'', JStr ''2.0''), (''method'', JStr ''events.batch''),
      (''params'', JObj [(''subscription_id'', JStr sid), (''cursor'', JStr c), (''events'', JList (map JObj events))])]"

definition oversized :: "('a stream_env_scheme) \<Rightarrow> jdict \<Rightarrow> bool" where
  "oversized env batch \<longleftrightarrow> 65536 < utf8_length (encoded env (JObj batch))"

text \<open>The loop over at most a hundred events: the events of the batch and how far the log is scanned.\<close>

fun scan_events ::
    "('a stream_env_scheme) \<Rightarrow> (nat \<Rightarrow> str) \<Rightarrow> str \<Rightarrow> jdict \<Rightarrow> jdict list \<Rightarrow> jdict list \<Rightarrow> nat \<Rightarrow> engine_exn + jdict list \<times> nat" where
  "scan_events env cursor_at sid scope [] events scanned = Inr (events, scanned)"
| "scan_events env cursor_at sid scope (e # es) events scanned =
     rbind (event_matches scope e) (\<lambda>m.
     let candidate = (if m then events @ [e] else events) in
     if candidate \<noteq> [] \<and> oversized env (batch_of sid (cursor_at (event_seq e)) candidate)
     then guard (events = []) (artifact_limit ''Event needs an artifact reference before streaming'') (Inr (events, scanned))
     else scan_events env cursor_at sid scope es candidate (event_seq e))"

definition next_batch ::
    "('a stream_env_scheme) \<Rightarrow> pyfloat \<Rightarrow> str \<Rightarrow> engine_db \<Rightarrow> event_stream \<Rightarrow> (engine_exn + jdict option) \<times> event_stream" where
  "next_batch env now sid db st =
     (case dict_get (es_subs st) sid of
        None \<Rightarrow> (Inl (not_found ''Subscription not found''), st)
      | Some sub \<Rightarrow>
          if sub_pending sub \<noteq> None then (Inr None, st)
          else (let cursor_at = stream_cursor env st now (sub_scope sub) in
            case rbind (events_after db (sub_scanned sub) 100)
                   (\<lambda>es. scan_events env cursor_at sid (sub_scope sub) es [] (sub_scanned sub)) of
              Inl e \<Rightarrow> (Inl e, st)
            | Inr (events, scanned) \<Rightarrow>
                (let st1 = st\<lparr>es_subs := dict_set (es_subs st) sid (sub\<lparr>sub_scanned := scanned\<rparr>)\<rparr>;
                     batch = batch_of sid (cursor_at scanned) events in
                 if events = [] then (Inr None, st1)
                 else (case validate env ''event-notification'' (JObj batch) of
                     Inl e \<Rightarrow> (Inl e, st1)
                   | Inr _ \<Rightarrow>
                       (Inr (Some batch), st\<lparr>es_subs := dict_set (es_subs st) sid
                          (sub\<lparr>sub_scanned := scanned, sub_pending := Some (cursor_at scanned)\<rparr>)\<rparr>)))))"

definition ack_result :: jdict where
  "ack_result = [(''acknowledged'', JBool True)]"

definition ack :: "('a stream_env_scheme) \<Rightarrow> pyfloat \<Rightarrow> jdict \<Rightarrow> event_stream \<Rightarrow> (engine_exn + jdict) \<times> event_stream" where
  "ack env now params st =
     (let sid = jstr (jget params ''subscription_id''); c = jstr (jget params ''cursor'') in
      case validate env ''events.ack.request'' (JObj params) of
        Inl e \<Rightarrow> (Inl e, st)
      | Inr _ \<Rightarrow>
          (case dict_get (es_subs st) sid of
             None \<Rightarrow> (Inl (not_found ''Subscription not found''), st)
           | Some sub \<Rightarrow>
               (case decode_cursor env st now c (sub_scope sub) of
                  Inl e \<Rightarrow> (Inl e, st)
                | Inr seq \<Rightarrow>
                    if seq = sub_acked sub then (Inr ack_result, st)
                    else if sub_pending sub \<noteq> Some c then (Inl (invalid_cursor ''Ack must match an emitted batch''), st)
                    else (Inr ack_result, st\<lparr>es_subs := dict_set (es_subs st) sid (sub\<lparr>sub_acked := seq, sub_pending := None\<rparr>)\<rparr>))))"

definition unsubscribe :: "('a stream_env_scheme) \<Rightarrow> jdict \<Rightarrow> event_stream \<Rightarrow> (engine_exn + jdict) \<times> event_stream" where
  "unsubscribe env params st =
     (case validate env ''events.unsubscribe.request'' (JObj params) of
        Inl e \<Rightarrow> (Inl e, st)
      | Inr _ \<Rightarrow> (Inr [(''unsubscribed'', JBool True)],
          st\<lparr>es_subs := dict_pop (es_subs st) (jstr (jget params ''subscription_id''))\<rparr>))"

text \<open>
  The pump of \<open>forge/engine/rpc.py\<close> for one subscription: a batch goes to the connection, a contract
  error ends the subscription, any other exception the pump.
\<close>

definition pump :: "('a stream_env_scheme) \<Rightarrow> pyfloat \<Rightarrow> str \<Rightarrow> engine_db \<Rightarrow> event_stream \<Rightarrow> (engine_exn + jdict option) \<times> event_stream" where
  "pump env now sid db st =
     (case next_batch env now sid db st of
        (Inl (ContractError kind m), st1) \<Rightarrow> (Inr None, st1\<lparr>es_subs := dict_pop (es_subs st1) sid\<rparr>)
      | r \<Rightarrow> r)"

end
