(* ===== verification/Stream_Facts.thy ===== *)
theory Stream_Facts
  imports Event_Stream Engine_Safety "HOL-Library.Multiset"
begin

text \<open>
  What a subscriber receives. \<open>log_between\<close> is the reference: the events of the log in a range of
  sequence numbers that belong to the scope, in order. The batches delivered so far are exactly the
  range between the start of the subscription and the point it scanned to, whatever happens to
  the log meanwhile, and a client that acknowledges what it gets reaches the end of the log.
\<close>

section \<open>Sequence numbers in events\<close>

lemma strip_no_space: "\<forall>c\<in>set s. \<not> py_isspace c \<Longrightarrow> py_strip s = s"
proof -
  assume s: "\<forall>c\<in>set s. \<not> py_isspace c"
  then have "dropWhile py_isspace s = s" "dropWhile py_isspace (rev s) = rev s"
    by (metis dropWhile_eq_self_iff hd_in_set, metis dropWhile_eq_self_iff hd_in_set set_rev)
  then show ?thesis by (simp add: py_strip_def py_lstrip_def py_rstrip_def)
qed

lemma parse_int_nat_str: "parse_int (nat_str n) = Some (int n)"
proof -
  have d: "\<forall>c\<in>set (nat_str n). py_isdigit c" by (rule nat_str_digits)
  obtain c cs where c: "nat_str n = c # cs" using nat_str_nonempty [of n] by (cases "nat_str n") auto
  have "py_strip (nat_str n) = nat_str n"
    by (rule strip_no_space) (use d in \<open>auto simp: py_isdigit_def py_isspace_def\<close>)
  moreover have "\<not> startswith (nat_str n) ''-''" "\<not> startswith (nat_str n) ''+''"
    using d by (auto simp: c py_isdigit_def)
  ultimately show ?thesis using d by (simp add: parse_int_def Let_def parse_nat_str list_all_iff)
qed

lemma event_seq_stored [simp]: "event_seq (stored_view e) = er_seq e"
  by (simp add: event_seq_def stored_view_def jget_def dict_get_or_def dict_get_set jstr_def parse_int_nat_str)

section \<open>The log in order\<close>

definition log_rows :: "engine_db \<Rightarrow> event_row list" where
  "log_rows db = sort_key er_seq (db_events db)"

definition in_scope :: "jdict \<Rightarrow> jdict \<Rightarrow> bool" where
  "in_scope scope e \<longleftrightarrow> event_matches scope e = Inr True"

definition log_between :: "engine_db \<Rightarrow> jdict \<Rightarrow> nat \<Rightarrow> nat \<Rightarrow> jdict list" where
  "log_between db scope a b = filter (in_scope scope) (map stored_view (filter (\<lambda>e. a < er_seq e \<and> er_seq e \<le> b) (log_rows db)))"

text \<open>The rows of \<open>events\<close> have distinct sequence numbers, none above the last one given.\<close>

definition log_ok :: "engine_db \<Rightarrow> bool" where
  "log_ok db \<longleftrightarrow> distinct (map er_seq (db_events db)) \<and> (\<forall>e\<in>set (db_events db). 0 < er_seq e \<and> er_seq e \<le> db_last_seq db)"

definition log_grows :: "engine_db \<Rightarrow> engine_db \<Rightarrow> bool" where
  "log_grows db db' \<longleftrightarrow> (\<exists>new. db_events db' = db_events db @ new \<and> (\<forall>e\<in>set new. db_last_seq db < er_seq e)) \<and> log_ok db'"

text \<open>The engine's only way to write the log keeps this.\<close>

lemma insert_event_grows:
  assumes "log_ok db" "insert_event env body source seq db = Inr (x, db')"
  shows "log_grows db db' \<and> db_last_seq db \<le> db_last_seq db'"
proof -
  have "db' = db \<or> (\<exists>e. er_seq e = db_last_seq db + 1 \<and> db_events db' = db_events db @ [e] \<and> db_last_seq db' = db_last_seq db + 1)"
    using assms(2)
    by (cases "filter (\<lambda>e. same_event e (jstr (jget body ''event_id'')) source seq) (db_events db)")
      (auto simp: insert_event_def in_tx_def guard_def Let_def split: if_splits option.splits)
  then show ?thesis
  proof
    assume "db' = db"
    then show ?thesis using assms(1) by (auto simp: log_grows_def)
  next
    assume "\<exists>e. er_seq e = db_last_seq db + 1 \<and> db_events db' = db_events db @ [e] \<and> db_last_seq db' = db_last_seq db + 1"
    then show ?thesis using assms(1) by (force simp: log_grows_def log_ok_def)
  qed
qed

lemma log_rows_sorted: "log_ok db \<Longrightarrow> sorted_wrt (\<lambda>x y. er_seq x < er_seq y) (log_rows db)"
proof -
  assume "log_ok db"
  then have "distinct (map er_seq (log_rows db))"
    by (simp add: log_ok_def log_rows_def distinct_map inj_on_def)
  moreover have "sorted (map er_seq (log_rows db))" by (simp add: log_rows_def)
  ultimately have "sorted_wrt (<) (map er_seq (log_rows db))" by (simp add: strict_sorted_iff)
  then show ?thesis by (simp add: sorted_wrt_map)
qed

lemma take_as_filter:
  assumes "sorted_wrt (\<lambda>x y. key x < (key y :: nat)) xs" "0 < k" "k \<le> length xs"
  shows "take k xs = filter (\<lambda>x. key x \<le> key (xs ! (k - 1))) xs"
proof -
  have "filter (\<lambda>x. key x \<le> key (xs ! (k - 1))) (take k xs) = take k xs"
  proof (rule filter_True, rule ballI)
    fix x assume "x \<in> set (take k xs)"
    then obtain i where "i < k" "i < length xs" "x = xs ! i" by (auto simp: in_set_conv_nth)
    then show "key x \<le> key (xs ! (k - 1))"
      using sorted_wrt_nth_less [OF assms(1), of i "k - 1"] assms(2,3)
      by (metis One_nat_def Suc_pred diff_less leD le_less_linear less_Suc_eq less_imp_le_nat order.refl order_less_le_trans zero_less_one)
  qed
  moreover have "filter (\<lambda>x. key x \<le> key (xs ! (k - 1))) (drop k xs) = []"
  proof (rule filter_False, rule ballI)
    fix x assume "x \<in> set (drop k xs)"
    then obtain i where "i < length xs - k" "x = xs ! (k + i)" by (auto simp: in_set_conv_nth)
    then show "\<not> key x \<le> key (xs ! (k - 1))"
      using sorted_wrt_nth_less [OF assms(1), of "k - 1" "k + i"] assms(2) by (simp add: not_le)
  qed
  ultimately show ?thesis by (metis append_Nil2 append_take_drop_id filter_append)
qed

lemma log_between_self [simp]: "log_between db scope a a = []"
  by (auto simp: log_between_def filter_empty_conv)

lemma log_between_split:
  assumes "log_ok db" "a \<le> b" "b \<le> c"
  shows "log_between db scope a c = log_between db scope a b @ log_between db scope b c"
proof -
  have "filter (\<lambda>e. a < er_seq e \<and> er_seq e \<le> c) xs = filter (\<lambda>e. a < er_seq e \<and> er_seq e \<le> b) xs @ filter (\<lambda>e. b < er_seq e \<and> er_seq e \<le> c) xs"
    if "sorted_wrt (\<lambda>x y. er_seq x < er_seq y) xs" for xs
    using that
  proof (induction xs)
    case (Cons x xs)
    show ?case
    proof (cases "er_seq x \<le> b")
      case False
      then have "\<forall>e\<in>set xs. b < er_seq e" using Cons.prems by auto
      then have "filter (\<lambda>e. a < er_seq e \<and> er_seq e \<le> b) xs = []" by (auto simp: filter_empty_conv)
      then show ?thesis using Cons False assms(2) by auto
    qed (use Cons assms(2,3) in auto)
  qed simp
  from this [OF log_rows_sorted [OF assms(1)]] show ?thesis by (simp add: log_between_def)
qed

lemma log_between_grows:
  assumes "log_ok db" "log_grows db db'" "b \<le> db_last_seq db"
  shows "log_between db' scope a b = log_between db scope a b"
proof -
  obtain new where new: "db_events db' = db_events db @ new" "\<forall>e\<in>set new. db_last_seq db < er_seq e"
    using assms(2) unfolding log_grows_def by blast
  have "filter P (sort_key er_seq (xs @ new)) = filter P (sort_key er_seq xs)" if "\<forall>e\<in>set new. \<not> P e" for P and xs :: "event_row list"
  proof -
    have "filter P (sort_key er_seq (xs @ new)) = sort_key er_seq (filter P (xs @ new))" by (simp only: filter_sort)
    also have "filter P (xs @ new) = filter P xs" using that by (simp add: filter_empty_conv)
    finally show ?thesis by (simp only: filter_sort)
  qed
  from this [of "\<lambda>e. a < er_seq e \<and> er_seq e \<le> b" "db_events db"] show ?thesis
    using new assms(3) by (fastforce simp: log_between_def log_rows_def)
qed

section \<open>One batch\<close>

lemma scan_events_spec:
  assumes "scan_events env C sid scope es acc n = Inr (acc', n')"
  shows "\<exists>k\<le>length es. acc' = acc @ filter (in_scope scope) (take k es) \<and> n' = (if k = 0 then n else event_seq (es ! (k - 1)))
     \<and> (k < length es \<longrightarrow> acc' \<noteq> [])
     \<and> (0 < k \<and> acc' \<noteq> [] \<longrightarrow> \<not> oversized env (batch_of sid (C n') acc'))"
  using assms
proof (induction es arbitrary: acc n)
  case Nil
  then show ?case by simp
next
  case (Cons e es)
  then obtain m where m: "event_matches scope e = Inr m" by (cases "event_matches scope e") auto
  let ?c = "if m then acc @ [e] else acc"
  have c: "?c = acc @ filter (in_scope scope) [e]" using m by (simp add: in_scope_def)
  show ?case
  proof (cases "?c \<noteq> [] \<and> oversized env (batch_of sid (C (event_seq e)) ?c)")
    case True
    then have "acc' = acc" "n' = n" "acc \<noteq> []" using Cons.prems m by (auto simp: Let_def guard_def split: if_splits)
    then show ?thesis by (intro exI [of _ 0]) simp
  next
    case False
    then have "scan_events env C sid scope (e # es) acc n = scan_events env C sid scope es ?c (event_seq e)"
      using m by (simp only: scan_events.simps Let_def rbind.simps if_False)
    then have "scan_events env C sid scope es ?c (event_seq e) = Inr (acc', n')" using Cons.prems by simp
    from Cons.IH [OF this] obtain k where k: "k \<le> length es" "acc' = ?c @ filter (in_scope scope) (take k es)"
      "n' = (if k = 0 then event_seq e else event_seq (es ! (k - 1)))" "k < length es \<longrightarrow> acc' \<noteq> []"
      "0 < k \<and> acc' \<noteq> [] \<longrightarrow> \<not> oversized env (batch_of sid (C n') acc')" by blast
    have "\<not> oversized env (batch_of sid (C n') acc')" if "acc' \<noteq> []"
      using that k False by (cases k) auto
    moreover have "acc' = acc @ filter (in_scope scope) (take (Suc k) (e # es))" using k(2) c by simp
    moreover have "n' = event_seq ((e # es) ! (Suc k - 1))" using k(3) by (cases k) simp_all
    ultimately show ?thesis using k(1,4) by (intro exI [of _ "Suc k"]) simp
  qed
qed

definition ahead :: "engine_db \<Rightarrow> nat \<Rightarrow> event_row list" where
  "ahead db n = filter (\<lambda>e. n < er_seq e) (log_rows db)"

lemma events_after_ahead: "events_after db n 100 = Inr (map stored_view (take 100 (ahead db n)))"
  by (simp add: events_after_def ahead_def log_rows_def)

lemma ahead_shrinks:
  assumes "e \<in> set (ahead db n)"
  shows "length (ahead db (er_seq e)) < length (ahead db n)"
proof -
  have "n < er_seq e" using assms by (simp add: ahead_def)
  then have "ahead db (er_seq e) = filter (\<lambda>x. er_seq e < er_seq x) (ahead db n)"
    by (auto simp: ahead_def intro: filter_cong)
  then show ?thesis using length_filter_less [OF assms, of "\<lambda>x. er_seq e < er_seq x"] by simp
qed

lemma scanned_between:
  assumes ok: "log_ok db" and scan: "scan_events env C sid scope (map stored_view (take 100 (ahead db n))) [] n = Inr (events, n')"
  shows "events = log_between db scope n n'" "n \<le> n'" "n' = n \<or> n' \<le> db_last_seq db"
    "n' = n \<longrightarrow> ahead db n = []" "events \<noteq> [] \<Longrightarrow> n < n'" "n' \<noteq> n \<longrightarrow> length (ahead db n') < length (ahead db n)"
    "events \<noteq> [] \<Longrightarrow> \<not> oversized env (batch_of sid (C n') events)"
proof -
  let ?es = "take 100 (ahead db n)"
  have srt: "sorted_wrt (\<lambda>x y. er_seq x < er_seq y) (ahead db n)"
    unfolding ahead_def by (intro sorted_wrt_filter log_rows_sorted ok)
  obtain k where k: "k \<le> length ?es" "events = filter (in_scope scope) (take k (map stored_view ?es))"
      "n' = (if k = 0 then n else event_seq (map stored_view ?es ! (k - 1)))" "k < length ?es \<longrightarrow> events \<noteq> []"
      "0 < k \<and> events \<noteq> [] \<longrightarrow> \<not> oversized env (batch_of sid (C n') events)"
    using scan_events_spec [OF scan] by (elim exE conjE) (simp only: length_map append_Nil)
  have all: "events = log_between db scope n n' \<and> n \<le> n' \<and> (n' = n \<or> n' \<le> db_last_seq db)
     \<and> (n' = n \<longrightarrow> ahead db n = []) \<and> (n' \<noteq> n \<longrightarrow> length (ahead db n') < length (ahead db n)) \<and> (events \<noteq> [] \<longrightarrow> n < n' \<and> 0 < k)"
  proof (cases "k = 0")
    case True
    then have "events = []" "n' = n" "?es = []" using k by auto
    then show ?thesis by simp
  next
    case False
    then have len: "k \<le> length (ahead db n)" "k \<le> 100" using k(1) by simp_all
    then have n': "n' = er_seq (ahead db n ! (k - 1))" 
    proof -
      have "k - 1 < length ?es" using k(1) False by linarith
      from nth_map [OF this, of stored_view] show ?thesis using k(3) False len by simp
    qed
    have mem: "ahead db n ! (k - 1) \<in> set (ahead db n)" using False len by simp
    then have "length (ahead db n') < length (ahead db n)" using ahead_shrinks n' by simp
    moreover have "n < n'" "n' \<le> db_last_seq db" using ok mem by (auto simp: n' ahead_def log_rows_def log_ok_def)
    moreover have "take k ?es = filter (\<lambda>e. er_seq e \<le> n') (ahead db n)"
      using take_as_filter [OF srt _ len(1)] False len by (simp add: n' min_def)
    then have "map stored_view (take k ?es) = map stored_view (filter (\<lambda>e. n < er_seq e \<and> er_seq e \<le> n') (log_rows db))"
      by (simp add: ahead_def conj_commute)
    ultimately show ?thesis using k(2) False by (simp add: log_between_def take_map)
  qed
  then show "events = log_between db scope n n'" "n \<le> n'" "n' = n \<or> n' \<le> db_last_seq db" "n' = n \<longrightarrow> ahead db n = []"
    "n' \<noteq> n \<longrightarrow> length (ahead db n') < length (ahead db n)" "events \<noteq> [] \<Longrightarrow> n < n'" "events \<noteq> [] \<Longrightarrow> \<not> oversized env (batch_of sid (C n') events)" using k(5) by auto
qed

section \<open>The size of a batch\<close>

lemma utf8_length_simps [simp]: "utf8_length [] = 0" "utf8_length (c # s) = (if CHR 0x80 \<le> c then 2 else 1) + utf8_length s"
  by (simp_all add: utf8_length_def)

lemma utf8_length_append [simp]: "utf8_length (s @ t) = utf8_length s + utf8_length t"
  by (simp add: utf8_length_def)

lemma utf8_length_join: "utf8_length (py_join sep xs) = sum_list (map utf8_length xs) + (length xs - 1) * utf8_length sep"
  by (induction sep xs rule: py_join.induct) auto

lemma sum_list_sort_key: "sum_list (map f (sort_key k xs)) = sum_list (map (f :: _ \<Rightarrow> nat) xs)"
proof -
  have "mset (map f (sort_key k xs)) = mset (map f xs)" by simp
  then show ?thesis by (metis sum_mset_sum_list)
qed

lemma sorted_same_size: "utf8_length (json_compact frepr (sort_tree v)) = utf8_length (json_compact frepr v)"
proof (induction v)
  case (JObj kvs)
  have "utf8_length (json_compact frepr (sort_tree (snd kv))) = utf8_length (json_compact frepr (snd kv))" if "kv \<in> set kvs" for kv
    by (rule JObj [OF that]) (simp add: snds.simps)
  then show ?case
    by (simp add: utf8_length_join sum_list_sort_key comp_def, intro arg_cong [where f = sum_list] map_cong refl) simp
next
  case (JList vs)
  then show ?case
    by (simp add: utf8_length_join comp_def, intro arg_cong [where f = sum_list] map_cong refl) simp
qed simp_all

section \<open>One step of a subscription\<close>

definition batch_events :: "jdict \<Rightarrow> jdict list" where
  "batch_events b = map jobj (jlist (jget (jobj (jget b ''params'')) ''events''))"

definition batch_cursor :: "jdict \<Rightarrow> str" where
  "batch_cursor b = jstr (jget (jobj (jget b ''params'')) ''cursor'')"

lemma batch_of_parts [simp]: "batch_events (batch_of sid c events) = events" "batch_cursor (batch_of sid c events) = c"
  by (simp_all add: batch_events_def batch_cursor_def batch_of_def jobj_def jlist_def jstr_def comp_def)

lemma next_batch_cases:
  assumes ok: "log_ok db" and sub: "dict_get (es_subs st) sid = Some sub" and le: "sub_scanned sub \<le> db_last_seq db"
    and step: "next_batch env now sid db st = (Inr r, st')"
  obtains (waiting) "sub_pending sub \<noteq> None" "r = None" "st' = st"
  | (skipped) n where "r = None" "dict_get (es_subs st') sid = Some (sub\<lparr>sub_scanned := n\<rparr>)"
      "log_between db (sub_scope sub) (sub_scanned sub) n = []" "sub_scanned sub \<le> n" "n \<le> db_last_seq db"
      "n = sub_scanned sub \<longrightarrow> ahead db n = []" "n \<noteq> sub_scanned sub \<longrightarrow> length (ahead db n) < length (ahead db (sub_scanned sub))" "es_generation st' = es_generation st" "sub_pending sub = None"
  | (batch) n where "sub_pending sub = None" "sub_scanned sub < n" "n \<le> db_last_seq db"
      "length (ahead db n) < length (ahead db (sub_scanned sub))"
      "r = Some (batch_of sid (stream_cursor env st now (sub_scope sub) n) (log_between db (sub_scope sub) (sub_scanned sub) n))"
      "dict_get (es_subs st') sid = Some (sub\<lparr>sub_scanned := n, sub_pending := Some (stream_cursor env st now (sub_scope sub) n)\<rparr>)"
      "es_generation st' = es_generation st"
proof (cases "sub_pending sub = None")
  case False
  then show ?thesis using waiting sub step by (auto simp: next_batch_def)
next
  case True
  let ?C = "stream_cursor env st now (sub_scope sub)"
  obtain events n where scan: "scan_events env ?C sid (sub_scope sub) (map stored_view (take 100 (ahead db (sub_scanned sub)))) [] (sub_scanned sub) = Inr (events, n)"
    using step True sub
    by (cases "scan_events env ?C sid (sub_scope sub) (map stored_view (take 100 (ahead db (sub_scanned sub)))) [] (sub_scanned sub)")
      (auto simp: next_batch_def events_after_ahead Let_def)
  note between = scanned_between [OF ok scan]
  show ?thesis
  proof (cases "events = []")
    case empty: True
    then have "r = None" "st' = st\<lparr>es_subs := dict_set (es_subs st) sid (sub\<lparr>sub_scanned := n\<rparr>)\<rparr>"
      using step True sub scan by (simp_all add: next_batch_def events_after_ahead Let_def)
    then show ?thesis using skipped [of n] between le empty True by (auto simp: dict_get_set)
  next
    case False
    then have "r = Some (batch_of sid (?C n) events)"
      "st' = st\<lparr>es_subs := dict_set (es_subs st) sid (sub\<lparr>sub_scanned := n, sub_pending := Some (?C n)\<rparr>)\<rparr>"
      using step True sub scan by (auto simp: next_batch_def events_after_ahead Let_def split: sum.splits)
    then show ?thesis using batch [of n] between le False True by (auto simp: dict_get_set)
  qed
qed

lemma ack_keeps:
  assumes "ack env now params st = (r, st')" "dict_get (es_subs st') i = Some sub'"
  shows "\<exists>sub. dict_get (es_subs st) i = Some sub \<and> sub_scope sub' = sub_scope sub \<and> sub_scanned sub' = sub_scanned sub"
  using assms by (auto simp: ack_def Let_def dict_get_set split: sum.splits option.splits if_splits)

section \<open>Runs\<close>

text \<open>
  The life of one subscription: the log grows, batches are taken, acknowledgements arrive, the other
  subscriptions do what they want. \<open>delivered\<close> are the events of the batches so far.
\<close>

inductive stream_run :: "('a stream_env_scheme) \<Rightarrow> str \<Rightarrow> nat \<Rightarrow> engine_db \<Rightarrow> event_stream \<Rightarrow> jdict list \<Rightarrow> bool" for env sid start where
  opened: "log_ok db \<Longrightarrow> subscribe env now params db st = (Inr result, st', db') \<Longrightarrow> sid = new_id env ''sub'' db \<Longrightarrow>
    dict_get (es_subs st') sid = Some sub \<Longrightarrow> sub_scanned sub = start \<Longrightarrow> stream_run env sid start db' st' []"
| grown: "stream_run env sid start db st l \<Longrightarrow> log_grows db db' \<Longrightarrow> db_last_seq db \<le> db_last_seq db' \<Longrightarrow> stream_run env sid start db' st l"
| taken: "stream_run env sid start db st l \<Longrightarrow> next_batch env now sid db st = (Inr r, st') \<Longrightarrow>
    stream_run env sid start db st' (l @ (case r of None \<Rightarrow> [] | Some b \<Rightarrow> batch_events b))"
| acked: "stream_run env sid start db st l \<Longrightarrow> ack env now params st = (r, st') \<Longrightarrow> stream_run env sid start db st' l"
| others: "stream_run env sid start db st l \<Longrightarrow> dict_get (es_subs st') sid = dict_get (es_subs st) sid \<Longrightarrow> stream_run env sid start db st' l"

lemma high_watermark_le: "log_ok db \<Longrightarrow> high_watermark db \<le> db_last_seq db"
proof -
  have "fold max xs a \<le> b" if "\<forall>x\<in>set xs. x \<le> b" "a \<le> b" for xs and a b :: nat
    using that by (induction xs arbitrary: a) auto
  then show "log_ok db \<Longrightarrow> high_watermark db \<le> db_last_seq db" by (auto simp: high_watermark_def log_ok_def)
qed

lemma subscribed:
  assumes "subscribe env now params db st = (Inr result, st', db')" "dict_get (es_subs st') (new_id env ''sub'' db) = Some sub"
  shows "sub_scanned sub \<le> high_watermark db" "sub_acked sub = sub_scanned sub" "sub_pending sub = None" "db' = tick db"
  using assms by (auto simp: subscribe_def Let_def dict_get_set guard_def split: sum.splits if_splits option.splits)

lemma log_ok_tick [simp]: "log_ok (tick db) = log_ok db" "log_between (tick db) = log_between db" "db_last_seq (tick db) = db_last_seq db"
  by (simp_all add: log_ok_def tick_def log_between_def log_rows_def fun_eq_iff)

lemma stream_run_log:
  "stream_run env sid start db st l \<Longrightarrow> log_ok db \<and> (\<forall>sub. dict_get (es_subs st) sid = Some sub \<longrightarrow>
     start \<le> sub_scanned sub \<and> sub_scanned sub \<le> db_last_seq db \<and> l = log_between db (sub_scope sub) start (sub_scanned sub))"
proof (induction rule: stream_run.induct)
  case (opened db now params st result st' db' sub)
  then show ?case using subscribed [OF opened(2)] high_watermark_le [OF opened(1)] by auto
next
  case (grown db st l db')
  then show ?case using log_between_grows [of db db'] by (auto simp: log_grows_def)
next
  case (taken db st l now r st')
  then have ok: "log_ok db" by blast
  show ?case
  proof (cases "dict_get (es_subs st) sid")
    case None
    then show ?thesis using taken(2) by (simp add: next_batch_def)
  next
    case (Some sub)
    then have le: "start \<le> sub_scanned sub" "sub_scanned sub \<le> db_last_seq db" "l = log_between db (sub_scope sub) start (sub_scanned sub)"
      using taken.IH by auto
    from ok Some le(2) taken(2) show ?thesis
    proof (cases rule: next_batch_cases)
      case waiting
      then show ?thesis using taken.IH by simp
    next
      case (skipped n)
      then show ?thesis using ok le log_between_split [OF ok le(1) skipped(4)] by auto
    next
      case (batch n)
      then show ?thesis using ok le log_between_split [OF ok le(1), of n] by auto
    qed
  qed
next
  case (acked db st l now params r st')
  show ?case
  proof (intro conjI allI impI)
    show "log_ok db" using acked.IH by blast
    fix sub' assume "dict_get (es_subs st') sid = Some sub'"
    from ack_keeps [OF acked(2) this] obtain sub where "dict_get (es_subs st) sid = Some sub"
      "sub_scope sub' = sub_scope sub" "sub_scanned sub' = sub_scanned sub" by blast
    then show "start \<le> sub_scanned sub'" "sub_scanned sub' \<le> db_last_seq db" "l = log_between db (sub_scope sub') start (sub_scanned sub')"
      using acked.IH by auto
  qed
qed auto

section \<open>Cursors come back\<close>

lemma sort_tree_idem [simp]: "sort_tree (sort_tree v) = sort_tree v"
proof (induction v)
  case (JObj kvs)
  let ?f = "\<lambda>kv. (fst kv, sort_tree (snd kv))"
  have "map ?f (sort_key fst (map ?f kvs)) = sort_key fst (map ?f kvs)"
  proof (rule map_idI)
    fix x assume "x \<in> set (sort_key fst (map ?f kvs))"
    then obtain kv where kv: "kv \<in> set kvs" "x = ?f kv" by auto
    then have "sort_tree (sort_tree (snd kv)) = sort_tree (snd kv)" by (intro JObj [of kv]) (auto simp: prod_set_simps snds.simps)
    then show "?f x = x" using kv(2) by simp
  qed
  then show ?case by (simp add: sort_key_id_if_sorted)
next
  case (JList vs)
  then show ?case by (simp add: comp_def)
qed simp_all

text \<open>What the stream relies on: the codec and the parser give back the payload of a cursor, and neither
  part of a cursor holds a dot.\<close>

definition cursor_codec :: "('a stream_env_scheme) \<Rightarrow> json \<Rightarrow> bool" where
  "cursor_codec env v \<longleftrightarrow> (let raw = encoded env v in
     sm_unb64 env (padded (rstrip_chars ''='' (sm_b64 env raw))) = Some raw
     \<and> CHR ''.'' \<notin> set (sm_b64 env raw) \<and> CHR ''.'' \<notin> set (sm_mac env raw) \<and> sm_loads env raw = Some (sort_tree v))"

lemma cursor_parts_join: "CHR ''.'' \<notin> set a \<Longrightarrow> CHR ''.'' \<notin> set b \<Longrightarrow> cursor_parts (a @ ''.'' @ b) = Some (a, b)"
proof -
  assume a: "CHR ''.'' \<notin> set a" and b: "CHR ''.'' \<notin> set b"
  have "dropWhile (\<lambda>x. x \<noteq> CHR ''.'') (a @ ''.'' @ b) = ''.'' @ b" "takeWhile (\<lambda>x. x \<noteq> CHR ''.'') (a @ ''.'' @ b) = a"
    using a by (induction a) auto
  then show ?thesis using b by (simp add: cursor_parts_def)
qed

lemma set_rstrip: "set (rstrip_chars cs s) \<subseteq> set s"
  by (auto simp: rstrip_chars_def dest: set_dropWhileD)

lemma int_str_nat: "int_str (int n) = nat_str n"
  by (simp add: int_str_def)

lemma cursor_roundtrip:
  assumes codec: "cursor_codec env (cursor_value env st scope (nat_str n) \<lfloor>now\<rfloor> (\<lfloor>now\<rfloor> + sm_ttl env))" and ttl: "0 < sm_ttl env"
  shows "decode_cursor env st now (stream_cursor env st now scope n) scope = Inr n"
proof -
  define v where "v = cursor_value env st scope (nat_str n) \<lfloor>now\<rfloor> (\<lfloor>now\<rfloor> + sm_ttl env)"
  define raw where "raw = encoded env v"
  have c: "sm_unb64 env (padded (rstrip_chars ''='' (sm_b64 env raw))) = Some raw"
     "CHR ''.'' \<notin> set (sm_b64 env raw)" "CHR ''.'' \<notin> set (sm_mac env raw)" "sm_loads env raw = Some (sort_tree v)"
    using codec by (simp_all add: cursor_codec_def Let_def v_def [symmetric] raw_def [symmetric])
  have cur: "stream_cursor env st now scope n = rstrip_chars ''='' (sm_b64 env raw) @ ''.'' @ sm_mac env raw"
    by (simp add: stream_cursor_def Let_def raw_def v_def)
  have "CHR ''.'' \<notin> set (rstrip_chars ''='' (sm_b64 env raw))" using c(2) set_rstrip by blast
  then have "cursor_payload env (stream_cursor env st now scope n) = Some (sort_tree v)"
    unfolding cursor_payload_def cur by (subst cursor_parts_join [OF _ c(3)]) (simp_all add: c)
  moreover obtain d where d: "sort_tree v = JObj d" by (simp add: v_def cursor_value_def)
  moreover obtain dv where dv: "v = JObj dv" "distinct (map fst dv)" by (simp add: v_def cursor_value_def)
  moreover have look: "jget d k = sort_tree (jget dv k)" for k
    using jget_sort_tree [OF dv(2), of k] d by (simp only: dv(1)) (simp add: jobj_def)
  have "jget d ''seq'' = JStr (nat_str n)" "jget d ''issued_utc'' = JInt \<lfloor>now\<rfloor>" "jget d ''expires_utc'' = JInt (\<lfloor>now\<rfloor> + sm_ttl env)"
    using dv(1) unfolding look by (auto simp: v_def cursor_value_def)
  moreover have "of_int \<lfloor>now\<rfloor> \<le> now" "now < of_int (\<lfloor>now\<rfloor> + sm_ttl env)" using ttl by linarith+
  moreover have "sort_tree (JObj d) = sort_tree v" using d by (metis sort_tree_idem)
  ultimately show ?thesis
    by (simp add: decode_cursor_def decoded_seq_def parse_int_nat_str int_str_nat v_def [symmetric])
qed

section \<open>Catching up\<close>

text \<open>\<open>n\<close> rounds of a client: it asks for a batch and acknowledges the one it gets.\<close>

definition ack_params :: "str \<Rightarrow> str \<Rightarrow> jdict" where
  "ack_params sid c = [(''subscription_id'', JStr sid), (''cursor'', JStr c)]"

fun drain :: "nat \<Rightarrow> ('a stream_env_scheme) \<Rightarrow> pyfloat \<Rightarrow> str \<Rightarrow> engine_db \<Rightarrow> event_stream \<Rightarrow> jdict list \<times> event_stream" where
  "drain 0 env now sid db st = ([], st)"
| "drain (Suc n) env now sid db st =
     (case next_batch env now sid db st of
        (Inr (Some b), st1) \<Rightarrow>
          (case drain n env now sid db (snd (ack env now (ack_params sid (batch_cursor b)) st1)) of
             (es, st2) \<Rightarrow> (batch_events b @ es, st2))
      | (_, st1) \<Rightarrow> drain n env now sid db st1)"

text \<open>
  What the stream relies on for the events of the log: they name the entity of the scope, each fits
  into a batch of its own, nests shallowly enough inside it, and the schemas accept what they are
  written for: batches of 1 to 100 stored events and acknowledgements, with the cursors the stream
  issues for positions of the log.
\<close>

definition deliverable :: "('a stream_env_scheme) \<Rightarrow> event_stream \<Rightarrow> pyfloat \<Rightarrow> str \<Rightarrow> jdict \<Rightarrow> engine_db \<Rightarrow> bool" where
  "deliverable env st now sid scope db \<longleftrightarrow> (let es = stored_view ` set (db_events db) in
     (\<forall>e\<in>es. (\<exists>m. event_matches scope e = Inr m) \<and> check_tree 3 (JObj e) = Inr ()
        \<and> (in_scope scope e \<longrightarrow> \<not> oversized env (batch_of sid (stream_cursor env st now scope (event_seq e)) [e])))
     \<and> (\<forall>n\<le>db_last_seq db. \<forall>events. set events \<subseteq> es \<and> events \<noteq> [] \<and> length events \<le> 100 \<longrightarrow>
          pe_contract env ''event-notification'' (JObj (batch_of sid (stream_cursor env st now scope n) events)) = None)
     \<and> (\<forall>n\<le>db_last_seq db. pe_contract env ''events.ack.request'' (JObj (ack_params sid (stream_cursor env st now scope n))) = None)
     \<and> (\<forall>n\<le>db_last_seq db. cursor_codec env (cursor_value env st scope (nat_str n) \<lfloor>now\<rfloor> (\<lfloor>now\<rfloor> + sm_ttl env))))"

lemma scan_events_returns:
  assumes "\<forall>e\<in>set es. (\<exists>m. event_matches scope e = Inr m) \<and> (in_scope scope e \<longrightarrow> \<not> oversized env (batch_of sid (C (event_seq e)) [e]))"
  shows "\<exists>r. scan_events env C sid scope es acc n = Inr r"
  using assms
proof (induction es arbitrary: acc n)
  case (Cons e es)
  obtain m where m: "event_matches scope e = Inr m" using Cons.prems by auto
  show ?case
  proof (cases "(if m then acc @ [e] else acc) \<noteq> [] \<and> oversized env (batch_of sid (C (event_seq e)) (if m then acc @ [e] else acc))")
    case True
    then have "acc \<noteq> []" using Cons.prems m by (auto simp: in_scope_def split: if_splits)
    then show ?thesis using True m by (auto simp: Let_def guard_def)
  next
    case False
    then have "scan_events env C sid scope (e # es) acc n = scan_events env C sid scope es (if m then acc @ [e] else acc) (event_seq e)"
      using m by (simp only: scan_events.simps Let_def rbind.simps if_False)
    then show ?thesis using Cons by simp
  qed
qed simp

lemma scan_events_length: "scan_events env C sid scope es acc n = Inr (events, m) \<Longrightarrow> length events \<le> length acc + length es"
proof (induction es arbitrary: acc n)
  case (Cons e es)
  obtain k where "event_matches scope e = Inr k" using Cons.prems by (cases "event_matches scope e") simp_all
  with Cons.prems Cons.IH [of "if k then acc @ [e] else acc" "event_seq e"] show ?case
    by (auto simp: Let_def guard_def split: if_splits)
qed simp

lemma log_between_stored: "set (log_between db scope a b) \<subseteq> stored_view ` set (db_events db)"
  by (auto simp: log_between_def log_rows_def)

lemma batch_valid:
  assumes "deliverable env st now sid scope db" "set events \<subseteq> stored_view ` set (db_events db)"
    and count: "events \<noteq> []" "length events \<le> 100" and c: "c = stream_cursor env st now scope n" "n \<le> db_last_seq db"
    and size: "\<not> oversized env (batch_of sid c events)"
  shows "validate env ''event-notification'' (JObj (batch_of sid c events)) = Inr ()"
proof -
  have "check_tree 0 (JObj (batch_of sid c events)) = Inr ()"
    using assms(1,2) by (auto simp: batch_of_def MAX_DEPTH_def guard_def deliverable_def Let_def numeral_eq_Suc)
  moreover have "\<not> 65536 < utf8_length (json_compact (pe_frepr env) (JObj (batch_of sid c events)))"
    using size unfolding oversized_def encoded_def sorted_same_size .
  ultimately show ?thesis
    using assms(1,2) count c by (auto simp: validate_def validate_contract_def contract_def deliverable_def Let_def guard_def)
qed

lemma next_batch_returns:
  assumes ok: "log_ok db" and d: "deliverable env st now sid (sub_scope sub) db"
    and sub: "dict_get (es_subs st) sid = Some sub" and idle: "sub_pending sub = None"
  shows "\<exists>r st'. next_batch env now sid db st = (Inr r, st')"
proof -
  let ?C = "stream_cursor env st now (sub_scope sub)"
  have "\<forall>e\<in>set (map stored_view (take 100 (ahead db (sub_scanned sub)))). (\<exists>m. event_matches (sub_scope sub) e = Inr m)
      \<and> (in_scope (sub_scope sub) e \<longrightarrow> \<not> oversized env (batch_of sid (?C (event_seq e)) [e]))"
    using d by (auto simp: deliverable_def Let_def ahead_def log_rows_def dest!: in_set_takeD)
  from scan_events_returns [OF this] obtain events n where
    scan: "scan_events env ?C sid (sub_scope sub) (map stored_view (take 100 (ahead db (sub_scanned sub)))) [] (sub_scanned sub) = Inr (events, n)"
    by fast
  have "validate env ''event-notification'' (JObj (batch_of sid (?C n) events)) = Inr ()" if "events \<noteq> []"
  proof (rule batch_valid [OF d _ that _ refl _ scanned_between(7) [OF ok scan that]])
    show "set events \<subseteq> stored_view ` set (db_events db)"
      using scanned_between(1) [OF ok scan] log_between_stored by simp
    show "length events \<le> 100" using scan_events_length [OF scan] by simp
    show "n \<le> db_last_seq db" using scanned_between(3,5) [OF ok scan] that by auto
  qed
  then show ?thesis using sub idle scan by (auto simp: next_batch_def events_after_ahead Let_def)
qed

lemma ack_batch:
  assumes d: "deliverable env st now sid (sub_scope sub) db" and ttl: "0 < sm_ttl env" and n: "n \<le> db_last_seq db" "sub_acked sub < n"
    and sub: "dict_get (es_subs st) sid = Some sub" and c: "sub_pending sub = Some (stream_cursor env st now (sub_scope sub) n)"
  shows "ack env now (ack_params sid (stream_cursor env st now (sub_scope sub) n)) st
     = (Inr ack_result, st\<lparr>es_subs := dict_set (es_subs st) sid (sub\<lparr>sub_acked := n, sub_pending := None\<rparr>)\<rparr>)"
proof -
  let ?c = "stream_cursor env st now (sub_scope sub) n"
  have "validate env ''events.ack.request'' (JObj (ack_params sid ?c)) = Inr ()"
    using d n by (auto simp: validate_def validate_contract_def contract_def deliverable_def Let_def ack_params_def guard_def MAX_DEPTH_def)
  moreover have "decode_cursor env st now ?c (sub_scope sub) = Inr n"
    by (rule cursor_roundtrip [OF _ ttl]) (use d n in \<open>auto simp: deliverable_def Let_def\<close>)
  ultimately show ?thesis using sub c n(2) by (simp add: ack_def ack_params_def jstr_def)
qed

lemma deliverable_cong: "es_generation st' = es_generation st \<Longrightarrow> deliverable env st' now sid scope db = deliverable env st now sid scope db"
proof -
  assume g: "es_generation st' = es_generation st"
  then have v: "cursor_value env st' = cursor_value env st" by (simp add: cursor_value_def fun_eq_iff)
  then have "stream_cursor env st' = stream_cursor env st" by (simp add: stream_cursor_def fun_eq_iff)
  then show ?thesis by (simp only: deliverable_def v)
qed

lemma drain_delivers:
  assumes ok: "log_ok db" and ttl: "0 < sm_ttl env" and "deliverable env st now sid (sub_scope sub) db"
    and "dict_get (es_subs st) sid = Some sub" "sub_pending sub = None" "sub_acked sub \<le> sub_scanned sub" "sub_scanned sub \<le> db_last_seq db"
    and "length (ahead db (sub_scanned sub)) \<le> n"
  shows "fst (drain n env now sid db st) = log_between db (sub_scope sub) (sub_scanned sub) (db_last_seq db)"
  using assms(3-8)
proof (induction n arbitrary: st sub)
  case 0
  then have none: "ahead db (sub_scanned sub) = []" by simp
  have "log_between db (sub_scope sub) (sub_scanned sub) (db_last_seq db) = []"
    using none by (auto simp: log_between_def ahead_def filter_empty_conv)
  then show ?case by simp
next
  case (Suc n)
  obtain r st1 where step: "next_batch env now sid db st = (Inr r, st1)"
    using next_batch_returns [OF ok Suc.prems(1,2,3)] by blast
  from ok Suc.prems(2,5) step show ?case
  proof (cases rule: next_batch_cases)
    case waiting
    then show ?thesis using Suc.prems(3) by simp
  next
    case (skipped m)
    let ?sub = "sub\<lparr>sub_scanned := m\<rparr>"
    have "length (ahead db m) \<le> n" using skipped(6,7) Suc.prems(6) by (cases "m = sub_scanned sub") auto
    moreover have "deliverable env st1 now sid (sub_scope sub) db" using Suc.prems(1) deliverable_cong [OF skipped(8)] by blast
    ultimately have "fst (drain n env now sid db st1) = log_between db (sub_scope ?sub) (sub_scanned ?sub) (db_last_seq db)"
      using Suc.prems(3,4) skipped(2,4,5) by (intro Suc.IH) simp_all
    then show ?thesis using step skipped(1,3) log_between_split [OF ok skipped(4,5)] by simp
  next
    case (batch m)
    let ?c = "stream_cursor env st now (sub_scope sub) m" and ?sub = "sub\<lparr>sub_scanned := m, sub_pending := Some (stream_cursor env st now (sub_scope sub) m)\<rparr>"
    let ?acked = "?sub\<lparr>sub_acked := m, sub_pending := None\<rparr>"
    let ?st2 = "st1\<lparr>es_subs := dict_set (es_subs st1) sid (?sub\<lparr>sub_acked := m, sub_pending := None\<rparr>)\<rparr>"
    have "stream_cursor env st1 = stream_cursor env st" using batch(7) by (simp add: stream_cursor_def cursor_value_def fun_eq_iff)
    then have "ack env now (ack_params sid ?c) st1 = (Inr ack_result, ?st2)"
      using ack_batch [of env st1 now sid ?sub db m] Suc.prems(1,4) ttl batch(2,3,6) deliverable_cong [OF batch(7), of env] by simp
    moreover have "deliverable env ?st2 now sid (sub_scope sub) db"
      using Suc.prems(1) batch(7) deliverable_cong [of ?st2 st env] by simp
    then have "fst (drain n env now sid db ?st2) = log_between db (sub_scope ?acked) (sub_scanned ?acked) (db_last_seq db)"
      using Suc.prems(6) batch(3,4) by (intro Suc.IH) (simp_all add: dict_get_set)
    ultimately show ?thesis
      using step batch(5) log_between_split [OF ok less_imp_le [OF batch(2)] batch(3)] by (auto split: prod.splits)
  qed
qed

end
