(* ===== verification/Stream_Safety.thy ===== *)
theory Stream_Safety
  imports Stream_Facts
begin

text \<open>What the event stream promises its subscribers, and a small log to try it on.\<close>

section \<open>A log of two events\<close>

text \<open>The codec escapes the dot and the equals sign; the parser knows the cursors of this log.\<close>

fun escaped :: "str \<Rightarrow> str" where
  "escaped [] = []"
| "escaped (c # s) = (if c = CHR ''.'' then ''xd'' else if c = CHR ''='' then ''xe'' else if c = CHR ''x'' then ''xx'' else [c]) @ escaped s"

fun unescaped :: "str \<Rightarrow> str" where
  "unescaped (c # d # s) =
     (if c = CHR ''x'' then (if d = CHR ''d'' then CHR ''.'' else if d = CHR ''e'' then CHR ''='' else CHR ''x'') # unescaped s
      else c # unescaped (d # s))"
| "unescaped s = s"

lemma unescaped_escaped: "unescaped (escaped s) = s"
proof (induction s)
  case (Cons c s)
  then show ?case by (cases "escaped s") auto
qed simp

lemma escaped_plain: "CHR ''.'' \<notin> set (escaped s)" "CHR ''='' \<notin> set (escaped s)"
  by (induction s) auto

definition all_events :: jdict where
  "all_events = [(''kind'', JStr ''all'')]"

definition cursor_texts :: "(str \<times> json) list" where
  "cursor_texts = map (\<lambda>n. let v = JObj [(''generation'', JStr ''g''), (''profile'', JStr ''p''), (''scope'', JObj all_events),
       (''seq'', JStr (nat_str n)), (''issued_utc'', JInt 0), (''expires_utc'', JInt 60)] in
     (encoded (sample_env ''e'') v, sort_tree v)) [0, 1, 2]"

text \<open>The bounds of the schemas of a notification and of an acknowledgement (\<open>_generated_contracts.json\<close>).\<close>

definition cursor_bounds :: "jdict \<Rightarrow> bool" where
  "cursor_bounds p = (case dict_get p ''cursor'' of Some (JStr c) \<Rightarrow> 1 \<le> length c \<and> length c \<le> 4096 | _ \<Rightarrow> False)"

definition schema_bounds :: "str \<Rightarrow> json \<Rightarrow> str option" where
  "schema_bounds schema document =
     (if (case document of
            JObj d \<Rightarrow>
              (if schema = ''event-notification'' then
                 (case dict_get d ''params'' of
                    Some (JObj p) \<Rightarrow> cursor_bounds p \<and> (case dict_get p ''events'' of
                        Some (JList es) \<Rightarrow> 1 \<le> length es \<and> length es \<le> 100 | _ \<Rightarrow> False)
                  | _ \<Rightarrow> False)
               else schema = ''events.ack.request'' \<longrightarrow> cursor_bounds d)
          | _ \<Rightarrow> True) then None else Some ''out of bounds'')"

definition stream_world :: stream_env where
  "stream_world = \<lparr>pe_sha = pe_sha (sample_env ''e''), pe_frepr = pe_frepr (sample_env ''e''), pe_contract = schema_bounds,
      pe_methods = pe_methods (sample_env ''e''), pe_events = pe_events (sample_env ''e''), ee_epoch = ee_epoch (sample_env ''e''),
      ee_uuid = ee_uuid (sample_env ''e''), ee_now = ee_now (sample_env ''e''), ee_ns = ee_ns (sample_env ''e''),
      ee_prices = None, ee_capture = ee_capture (sample_env ''e''), ee_project = ee_project (sample_env ''e''),
      sm_b64 = escaped, sm_unb64 = (\<lambda>t. Some (unescaped (filter (\<lambda>c. c \<noteq> CHR ''='') t))), sm_mac = (\<lambda>_. ''m''),
      sm_loads = map_of cursor_texts, sm_profile = ''p'', sm_ttl = 60, sm_snapshot = (\<lambda>_ _. Inr (JNull, False))\<rparr>"

definition log_row :: "nat \<Rightarrow> event_row" where
  "log_row n = \<lparr>er_seq = n, er_id = ''evt-'' @ nat_str n, er_source = ''s'', er_source_seq = n, er_body = [(''event_type'', JStr ''note'')], er_hash = ''h''\<rparr>"

definition grown_db :: engine_db where
  "grown_db = (tick sample_db)\<lparr>db_events := [log_row 1, log_row 2], db_last_seq := 2\<rparr>"

definition opened_stream :: event_stream where
  "opened_stream = fst (snd (subscribe stream_world 0 [(''scope'', JObj all_events)] sample_db (new_stream ''g'' False)))"

definition opened_sub :: subscription where
  "opened_sub = \<lparr>sub_scope = all_events, sub_scanned = 0, sub_acked = 0, sub_pending = None\<rparr>"

definition opened_id :: str where
  "opened_id = new_id stream_world ''sub'' sample_db"

lemma opened: "dict_get (es_subs opened_stream) opened_id = Some opened_sub"
  by code_simp

lemma opened_returns: "case subscribe stream_world 0 [(''scope'', JObj all_events)] sample_db (new_stream ''g'' False) of
    (Inr _, _, db) \<Rightarrow> db = tick sample_db | _ \<Rightarrow> False"
  by code_simp

lemma grown: "log_ok sample_db" "log_grows (tick sample_db) grown_db" "log_ok grown_db"
  by (auto simp: log_ok_def log_grows_def grown_db_def sample_db_def tick_def log_row_def)

definition first_batch :: "(engine_exn + jdict option) \<times> event_stream" where
  "first_batch = next_batch stream_world 0 opened_id grown_db opened_stream"


section \<open>The stream can deliver this log\<close>

fun text_bound :: "json \<Rightarrow> nat" where
  "text_bound (JStr s) = 12 * length s + 2"
| "text_bound (JInt i) = utf8_length (int_str i)"
| "text_bound (JList vs) = 2 + sum_list (map text_bound vs) + length vs"
| "text_bound (JObj kvs) = 2 + sum_list (map (\<lambda>kv. 12 * length (fst kv) + 3 + text_bound (snd kv)) kvs) + length kvs"
| "text_bound _ = 5"

lemma utf8_length_le: "utf8_length s \<le> 2 * length s"
  using length_filter_le [of _ s] by (simp add: utf8_length_def)

lemma json_escape_bound: "utf8_length (json_escape c) \<le> 12"
  using utf8_length_le [of "json_escape c"] by (auto simp: json_escape_def split: if_splits)

lemma json_quote_bound: "utf8_length (json_quote s) \<le> 12 * length s + 2"
proof -
  have "utf8_length (concat (map json_escape s)) \<le> 12 * length s"
    by (induction s) (use json_escape_bound in \<open>auto simp: add_mono\<close>)
  moreover have "utf8_length [DQ] = 1" by code_simp
  ultimately show ?thesis by (simp only: json_quote_def utf8_length_append)
qed

lemma json_compact_bound: "utf8_length (json_compact (\<lambda>_. ''1.0'') v) \<le> text_bound v"
proof (induction v)
  case (JStr s)
  show ?case using json_quote_bound [of s] by simp
next
  case (JList vs)
  then have "sum_list (map (\<lambda>v. utf8_length (json_compact (\<lambda>_. ''1.0'') v)) vs) \<le> sum_list (map text_bound vs)"
    by (intro sum_list_mono) simp
  then show ?case by (simp add: utf8_length_join comp_def)
next
  case (JObj kvs)
  have "sum_list (map (\<lambda>kv. utf8_length (json_quote (fst kv)) + 1 + utf8_length (json_compact (\<lambda>_. ''1.0'') (snd kv))) kvs)
      \<le> sum_list (map (\<lambda>kv. 12 * length (fst kv) + 3 + text_bound (snd kv)) kvs)"
  proof (rule sum_list_mono)
    fix kv assume "kv \<in> set kvs"
    then have "utf8_length (json_compact (\<lambda>_. ''1.0'') (snd kv)) \<le> text_bound (snd kv)"
      by (rule JObj) (simp add: snds.simps)
    then show "utf8_length (json_quote (fst kv)) + 1 + utf8_length (json_compact (\<lambda>_. ''1.0'') (snd kv)) \<le> 12 * length (fst kv) + 3 + text_bound (snd kv)"
      using json_quote_bound [of "fst kv"] by linarith
  qed
  then show ?case by (simp add: utf8_length_join comp_def)
qed simp_all

lemma pe_frepr_world [simp]: "pe_frepr stream_world = (\<lambda>_. ''1.0'')" "pe_contract stream_world = schema_bounds"
  by (simp_all add: stream_world_def sample_env_def engine_env.defs)

lemma stream_world_simps [simp]: "sm_b64 stream_world = escaped" "sm_mac stream_world = (\<lambda>_. ''m'')" "sm_ttl stream_world = 60"
  "sm_profile stream_world = ''p''" "sm_loads stream_world = map_of cursor_texts"
  "sm_unb64 stream_world = (\<lambda>t. Some (unescaped (filter (\<lambda>c. c \<noteq> CHR ''='') t)))"
  by (simp_all add: stream_world_def)

lemma encoded_bound: "utf8_length (encoded stream_world v) \<le> text_bound v"
  using json_compact_bound [of v] by (simp add: encoded_def sorted_same_size)

lemma length_le_utf8: "length s \<le> utf8_length s"
  by (simp add: utf8_length_def)

lemma opened_generation: "es_generation opened_stream = ''g''"
  by code_simp

lemma digit_texts: "nat_str 0 = ''0''" "nat_str 1 = ''1''" "nat_str (Suc 0) = ''1''" "nat_str 2 = ''2''" "nat_str 60 = ''60''"
  by code_simp+

lemma cursor_length: "n \<le> 2 \<Longrightarrow> length (stream_cursor stream_world opened_stream 0 all_events n) \<le> 4000"
proof -
  assume n: "n \<le> 2"
  let ?v = "cursor_value stream_world opened_stream all_events (nat_str n) 0 60"
  have esc: "length (escaped s) \<le> 2 * length s" for s by (induction s) auto
  have "n = 0 \<or> n = 1 \<or> n = 2" using n by auto
  moreover note digit_texts
  ultimately have "text_bound ?v \<le> 1500"
    by (auto simp: cursor_value_def opened_generation all_events_def int_str_def)
  then have "length (encoded stream_world ?v) \<le> 1500" using encoded_bound [of ?v] length_le_utf8 [of "encoded stream_world ?v"] by linarith
  have "length (rstrip_chars ''='' s) \<le> length s" for s
    by (simp add: rstrip_chars_def) (metis length_dropWhile_le length_rev)
  from this [of "escaped (encoded stream_world ?v)"] have "length (rstrip_chars ''='' (escaped (encoded stream_world ?v))) \<le> 3000"
    using esc [of "encoded stream_world ?v"] \<open>length (encoded stream_world ?v) \<le> 1500\<close> by linarith
  then show ?thesis by (simp add: stream_cursor_def Let_def)
qed

definition cursor_json :: "str \<Rightarrow> json" where
  "cursor_json t = JObj [(''generation'', JStr ''g''), (''profile'', JStr ''p''), (''scope'', JObj all_events), (''seq'', JStr t),
     (''issued_utc'', JInt 0), (''expires_utc'', JInt 60)]"

lemma sorted_cursor: "sort_tree (cursor_json t) = JObj [(''expires_utc'', JInt 60), (''generation'', JStr ''g''), (''issued_utc'', JInt 0),
    (''profile'', JStr ''p''), (''scope'', JObj all_events), (''seq'', JStr t)]"
  by code_simp

lemma encoded_cursor: "\<exists>p. \<forall>t. encoded (sample_env ''e'') (cursor_json t) = p @ json_quote t @ ''}''"
  unfolding encoded_def sorted_cursor by (rule exI, rule allI, simp only: json_compact.simps list.map fst_conv snd_conv py_join.simps append.assoc append_same_eq) simp

lemma cursor_texts_distinct: "distinct (map fst cursor_texts)"
proof -
  obtain p where p: "\<And>t. encoded (sample_env ''e'') (cursor_json t) = p @ json_quote t @ ''}''" using encoded_cursor by blast
  have "map fst cursor_texts = map (\<lambda>n. encoded (sample_env ''e'') (cursor_json (nat_str n))) [0, 1, 2]"
    by (simp add: cursor_texts_def cursor_json_def Let_def)
  moreover have "json_quote ''0'' \<noteq> json_quote ''1''" "json_quote ''0'' \<noteq> json_quote ''2''" "json_quote ''1'' \<noteq> json_quote ''2''" by code_simp+
  ultimately show ?thesis by (simp only: p list.map digit_texts) simp
qed

lemma rstrip_absent: "c \<notin> set s \<Longrightarrow> rstrip_chars [c] s = s"
  by (cases s rule: rev_cases) (auto simp: rstrip_chars_def)

lemma log_row_seq [simp]: "er_seq (log_row n) = n"
  by (simp add: log_row_def)

lemma sample_codec: "n \<le> 2 \<Longrightarrow> cursor_codec stream_world (cursor_value stream_world opened_stream all_events (nat_str n) 0 60)"
proof -
  assume n: "n \<le> 2"
  let ?v = "cursor_value stream_world opened_stream all_events (nat_str n) 0 60"
  have "?v = JObj [(''generation'', JStr ''g''), (''profile'', JStr ''p''), (''scope'', JObj all_events), (''seq'', JStr (nat_str n)),
      (''issued_utc'', JInt 0), (''expires_utc'', JInt 60)]"
    by (simp add: cursor_value_def opened_generation)
  moreover have "encoded stream_world = encoded (sample_env ''e'')"
    by (simp add: encoded_def fun_eq_iff sample_env_def)
  ultimately have "(encoded stream_world ?v, sort_tree ?v) \<in> set cursor_texts"
    using n by (auto simp: cursor_texts_def Let_def le_Suc_eq numeral_2_eq_2)
  then have "map_of cursor_texts (encoded stream_world ?v) = Some (sort_tree ?v)"
    using cursor_texts_distinct by (simp add: map_of_is_SomeI)
  moreover have "rstrip_chars ''='' (escaped t) = escaped t" for t
    by (rule rstrip_absent [OF escaped_plain(2)])
  moreover have "filter (\<lambda>c. c \<noteq> CHR ''='') (padded (escaped t)) = escaped t" for t
    using escaped_plain(2) [of t] by (auto simp: padded_def filter_id_conv)
  ultimately show ?thesis by (simp add: cursor_codec_def Let_def unescaped_escaped escaped_plain)
qed

lemma sample_deliverable: "deliverable stream_world opened_stream 0 opened_id all_events grown_db"
proof -
  have shallow: "check_tree 3 (JObj (stored_view (log_row n))) = Inr ()" for n
    by (simp add: log_row_def stored_view_def MAX_DEPTH_def guard_def)
  have small: "\<not> oversized stream_world (batch_of opened_id (stream_cursor stream_world opened_stream 0 all_events n) [stored_view (log_row n)])"
    if "n = 1 \<or> n = 2" for n
  proof -
    let ?c = "stream_cursor stream_world opened_stream 0 all_events n"
    have "length ?c \<le> 4000" using cursor_length [of n] that by auto
    moreover have "length opened_id \<le> 10" by code_simp
    moreover have "length (nat_str n) = 1" using that by (auto simp: digit_texts)
    ultimately have "text_bound (JObj (batch_of opened_id ?c [stored_view (log_row n)])) \<le> 65536"
      by (simp add: batch_of_def log_row_def stored_view_def)
    then show ?thesis using encoded_bound [of "JObj (batch_of opened_id ?c [stored_view (log_row n)])"] by (simp add: oversized_def)
  qed
  have "1 \<le> length (stream_cursor stream_world opened_stream 0 all_events n)" for n
    by (simp add: stream_cursor_def Let_def)
  moreover have "length (stream_cursor stream_world opened_stream 0 all_events n) \<le> 4096" if "n \<le> 2" for n
    using cursor_length [OF that] by linarith
  ultimately have "cursor_bounds ((''cursor'', JStr (stream_cursor stream_world opened_stream 0 all_events n)) # p)" if "n \<le> 2" for n p
    using that by (simp add: cursor_bounds_def dict_get_Cons)
  then have accepted: "pe_contract stream_world ''event-notification''
        (JObj (batch_of opened_id (stream_cursor stream_world opened_stream 0 all_events n) events)) = None"
      "pe_contract stream_world ''events.ack.request'' (JObj (ack_params opened_id (stream_cursor stream_world opened_stream 0 all_events n))) = None"
    if "n \<le> 2" "events \<noteq> []" "length events \<le> 100" for n events
    using that by (auto simp: stream_world_def schema_bounds_def batch_of_def ack_params_def dict_get_Cons cursor_bounds_def Suc_le_eq)
  have "scope_kind all_events = ''all''" by code_simp
  moreover have "pe_contract stream_world ''events.ack.request'' (JObj (ack_params opened_id (stream_cursor stream_world opened_stream 0 all_events n))) = None"
    if "n \<le> 2" for n
    using accepted(2) [OF that, of "[[]]"] by simp
  ultimately show ?thesis
    using shallow small sample_codec accepted(1) by (auto simp: deliverable_def Let_def grown_db_def event_matches_def)
qed

section \<open>Properties\<close>

text \<open>
  C33: A subscriber receives the log without gaps, repetitions or reordering. Whatever happens between
  (the log grows, batches are taken, acknowledgements of any kind arrive, other subscriptions
  act), the batches delivered so far are together exactly the events of the scope between the start
  of the subscription and the point it scanned to.
\<close>

theorem subscriber_gets_log:
  assumes "stream_run env sid start db st delivered" and "dict_get (es_subs st) sid = Some sub"
  shows "delivered = log_between db (sub_scope sub) start (sub_scanned sub) \<and> start \<le> sub_scanned sub \<and> sub_scanned sub \<le> db_last_seq db"
  using stream_run_log [OF assms(1)] assms(2) by blast

lemma sample_log: "log_between grown_db all_events 0 2 = map stored_view [log_row 1, log_row 2]"
  by (simp add: log_between_def log_rows_def grown_db_def in_scope_def event_matches_def scope_kind_def all_events_def jget_def dict_get_or_def dict_get_def jstr_def)

lemma first_batch:
  obtains b st n where "next_batch stream_world 0 opened_id grown_db opened_stream = (Inr (Some b), st)" "0 < n"
    "dict_get (es_subs st) opened_id = Some (opened_sub\<lparr>sub_scanned := n, sub_pending := Some (stream_cursor stream_world opened_stream 0 all_events n)\<rparr>)"
proof -
  have sub: "sub_pending opened_sub = None" "sub_scope opened_sub = all_events" "sub_scanned opened_sub = 0" by (simp_all add: opened_sub_def)
  obtain r st where step: "next_batch stream_world 0 opened_id grown_db opened_stream = (Inr r, st)"
    using next_batch_returns [OF grown(3) _ opened sub(1)] sample_deliverable sub(2) by metis
  have le: "sub_scanned opened_sub \<le> db_last_seq grown_db" using sub by simp
  from grown(3) opened le step show ?thesis
  proof (cases rule: next_batch_cases)
    case (skipped n)
    have "n \<le> 2" using skipped(5) by (simp add: grown_db_def)
    moreover have "log_between grown_db all_events 0 n = log_between grown_db all_events 0 2" if "n = 2" using that by simp
    moreover have "log_between grown_db all_events 0 1 \<noteq> []"
      by (simp add: log_between_def log_rows_def grown_db_def in_scope_def event_matches_def scope_kind_def all_events_def jget_def dict_get_or_def dict_get_def jstr_def)
    moreover have "ahead grown_db 0 \<noteq> []" by (simp add: ahead_def log_rows_def grown_db_def)
    ultimately have False using skipped(3,6) sub sample_log by (cases "n = 0"; cases "n = 1") auto
    then show ?thesis ..
  next
    case (batch n)
    then show ?thesis using that [of _ st n] step sub by simp
  qed (use sub in simp)
qed

theorem subscriber_gets_log_witness:
  "\<exists>st delivered n. stream_run stream_world opened_id 0 grown_db st delivered \<and> 0 < n \<and> delivered = log_between grown_db all_events 0 n"
proof -
  obtain result where "subscribe stream_world 0 [(''scope'', JObj all_events)] sample_db (new_stream ''g'' False) = (Inr result, opened_stream, tick sample_db)"
    using opened_returns by (auto simp: opened_stream_def split: prod.splits sum.splits)
  then have "stream_run stream_world opened_id 0 (tick sample_db) opened_stream []"
    by (rule stream_run.opened [OF grown(1) _ opened_id_def opened]) (simp add: opened_sub_def)
  then have run: "stream_run stream_world opened_id 0 grown_db opened_stream []"
    by (rule stream_run.grown) (use grown(2) in \<open>simp_all add: grown_db_def sample_db_def tick_def\<close>)
  obtain b st n where step: "next_batch stream_world 0 opened_id grown_db opened_stream = (Inr (Some b), st)" "0 < n"
    "dict_get (es_subs st) opened_id = Some (opened_sub\<lparr>sub_scanned := n, sub_pending := Some (stream_cursor stream_world opened_stream 0 all_events n)\<rparr>)"
    by (rule first_batch)
  have taken: "stream_run stream_world opened_id 0 grown_db st (batch_events b)"
    using stream_run.taken [OF run step(1)] by simp
  from subscriber_gets_log [OF taken step(3)] have "batch_events b = log_between grown_db all_events 0 n"
    by (simp add: opened_sub_def)
  with taken step(2) show ?thesis by blast
qed

text \<open>
  C34: A client that asks for batches and acknowledges each one catches up: within as many rounds as
  the log has events ahead of it, it has received every event of its scope up to the last one, in
  order, although a batch is bounded to a hundred events and 64 KiB and an acknowledgement has to
  present the signed cursor. It is assumed that cursors are valid for some time and survive the
  encoding, that every event of the scope fits into a batch of its own and nests no deeper than the
  protocol allows, that the scope can be decided for every event, and that the schemas accept
  batches of 1 to 100 logged events and acknowledgements with the cursors the stream issues.
\<close>

theorem subscriber_catches_up:
  assumes "log_ok db" and "0 < sm_ttl env" and "deliverable env st now sid (sub_scope sub) db"
    and "dict_get (es_subs st) sid = Some sub" and "sub_pending sub = None"
    and "sub_acked sub \<le> sub_scanned sub" and "sub_scanned sub \<le> db_last_seq db"
    and "length (db_events db) \<le> rounds"
  shows "fst (drain rounds env now sid db st) = log_between db (sub_scope sub) (sub_scanned sub) (db_last_seq db)"
proof (rule drain_delivers [OF assms(1-7)])
  have "length (ahead db (sub_scanned sub)) \<le> length (log_rows db)" unfolding ahead_def by (rule length_filter_le)
  also have "\<dots> = length (db_events db)" by (simp add: log_rows_def)
  finally show "length (ahead db (sub_scanned sub)) \<le> rounds" using assms(8) by simp
qed

theorem subscriber_catches_up_witness:
  "fst (drain 2 stream_world 0 opened_id grown_db opened_stream) = log_between grown_db all_events 0 2"
proof -
  have last: "db_last_seq grown_db = 2" "length (db_events grown_db) = 2" by (simp_all add: grown_db_def)
  show ?thesis
    using subscriber_catches_up [OF grown(3) _ _ opened, where env = stream_world and now = 0 and rounds = 2] sample_deliverable last by (simp add: opened_sub_def)
qed

end
