(* ===== verification/Working_State.thy ===== *)
theory Working_State
  imports Runtime_State Py_Paths "HOL-Library.Product_Lexorder"
begin

text \<open>
  \<open>forge/context/working.py\<close>: what the tools of a turn have observed of the workspace. A file keeps the
  ranges of lines that were read; directories, search hits and discovered files are sets of entries
  tagged with the workspace revision. The state is an index for the prompt and for two questions of
  the runner (\<open>evidence_paths\<close>, \<open>has_external_blocker\<close>); it never gates a tool.
\<close>

section \<open>The lines of one file\<close>

record file_evidence =
  fe_path :: str
  fe_revision :: int
  fe_total :: int
  fe_ranges :: "(int \<times> int) list"

definition fe_covers :: "file_evidence \<Rightarrow> int \<Rightarrow> int \<Rightarrow> bool" where
  "fe_covers f first end_line \<longleftrightarrow> list_ex (\<lambda>(a, b). a \<le> first \<and> b \<ge> end_line) (fe_ranges f)"

text \<open>The merging loop of \<open>add\<close>; the accumulator holds \<open>merged\<close>, its last range first.\<close>

fun merge_ranges :: "(int \<times> int) list \<Rightarrow> (int \<times> int) list \<Rightarrow> (int \<times> int) list" where
  "merge_ranges merged [] = rev merged"
| "merge_ranges [] (r # rs) = merge_ranges [r] rs"
| "merge_ranges ((p, q) # merged) ((a, b) # rs) =
     (if a > q + 1 then merge_ranges ((a, b) # (p, q) # merged) rs
      else merge_ranges ((p, max q b) # merged) rs)"

definition fe_add :: "int \<Rightarrow> int \<Rightarrow> file_evidence \<Rightarrow> file_evidence" where
  "fe_add first end_line f =
     (if end_line < first \<or> fe_covers f first end_line then f
      else f\<lparr>fe_ranges := merge_ranges [] (sort (fe_ranges f @ [(first, end_line)]))\<rparr>)"

section \<open>The working state\<close>

record working_state =
  wk_files :: "(int \<times> str, file_evidence) dict"
  wk_directories :: "(int \<times> str) set"
  wk_hits :: "(int \<times> str \<times> int) set"
  wk_found :: "(int \<times> str) set"
  wk_failures :: "str list"
  wk_code :: "str option"

definition empty_working :: working_state where
  "empty_working = \<lparr>wk_files = [], wk_directories = {}, wk_hits = {}, wk_found = {}, wk_failures = [], wk_code = None\<rparr>"

definition external_blocker_codes :: "str list" where
  "external_blocker_codes = [''approval_required'', ''authentication_required'', ''permission_denied'',
     ''network_unavailable'', ''dependency_unavailable'']"

definition has_external_blocker :: "working_state \<Rightarrow> bool" where
  "has_external_blocker w \<longleftrightarrow> (case wk_code w of None \<Rightarrow> False | Some c \<Rightarrow> c \<in> set external_blocker_codes)"

definition working_path :: "str \<Rightarrow> str" where
  "working_path p = path_posix (slashes p)"

text \<open>\<open>int\<close> of a metadata value, and its exception.\<close>

definition int_field :: "jdict \<Rightarrow> str \<Rightarrow> py_exn + int" where
  "int_field d k = (case int_of (jget d k) of None \<Rightarrow> Inl (ValueError ''invalid literal for int()'') | Some i \<Rightarrow> Inr i)"

definition observe_read :: "(json \<Rightarrow> str) \<Rightarrow> tool_result \<Rightarrow> int \<Rightarrow> working_state \<Rightarrow> py_exn + working_state" where
  "observe_read pr result revision w =
     (let m = tr_metadata result; path = working_path (str_of pr (jget m ''path'')) in
      rbind (int_field m ''total_lines'') (\<lambda>total.
      rbind (int_field m ''start_line'') (\<lambda>first.
      rbind (int_field m ''end_line'') (\<lambda>end_line.
        let f = dict_get_or (wk_files w) (revision, path) \<lparr>fe_path = path, fe_revision = revision, fe_total = total, fe_ranges = []\<rparr> in
        Inr (w\<lparr>wk_files := dict_set (wk_files w) (revision, path) (fe_add first end_line f)\<rparr>)))))"

text \<open>\<open>line.split(':', 2)\<close>, where it has three parts.\<close>

definition hit_parts :: "str \<Rightarrow> (str \<times> str) option" where
  "hit_parts line = (case split_char (CHR '':'') line of p # n # _ # _ \<Rightarrow> Some (p, n) | _ \<Rightarrow> None)"

definition observe_hit :: "int \<Rightarrow> str \<Rightarrow> working_state \<Rightarrow> working_state" where
  "observe_hit revision line w =
     (case hit_parts line of
        None \<Rightarrow> w
      | Some (p, n) \<Rightarrow>
          (case parse_int n of
             None \<Rightarrow> w
           | Some k \<Rightarrow>
               if (case dict_get (wk_files w) (revision, working_path p) of None \<Rightarrow> False | Some f \<Rightarrow> fe_covers f k k) then w
               else w\<lparr>wk_hits := insert (revision, working_path p, k) (wk_hits w)\<rparr>))"

definition observe_grep :: "tool_result \<Rightarrow> int \<Rightarrow> working_state \<Rightarrow> working_state" where
  "observe_grep result revision w = fold (observe_hit revision) (splitlines (tr_content result)) w"

definition observe_found :: "int \<Rightarrow> str \<Rightarrow> working_state \<Rightarrow> working_state" where
  "observe_found revision line w =
     (let path = working_path (py_strip line) in
      if path = [] \<or> path = ''.'' \<or> dict_get (wk_files w) (revision, path) \<noteq> None then w
      else w\<lparr>wk_found := insert (revision, path) (wk_found w)\<rparr>)"

definition observe_find_files :: "tool_result \<Rightarrow> int \<Rightarrow> working_state \<Rightarrow> working_state" where
  "observe_find_files result revision w = fold (observe_found revision) (splitlines (tr_content result)) w"

definition observe_result :: "(json \<Rightarrow> str) \<Rightarrow> tool_call \<Rightarrow> tool_result \<Rightarrow> int \<Rightarrow> working_state \<Rightarrow> py_exn + working_state" where
  "observe_result pr call result revision w =
     (if \<not> tr_success result then
        Inr (case tr_error result of
            None \<Rightarrow> w
          | Some e \<Rightarrow> w\<lparr>wk_code := Some (te_code e),
                wk_failures := slice_last 5 (wk_failures w @ [tc_name call @ '': '' @ te_code e])\<rparr>)
      else (let w = w\<lparr>wk_code := None\<rparr> in
        if tc_name call = ''read_file'' then
          (if {''path'', ''start_line'', ''end_line'', ''total_lines''} \<subseteq> set (map fst (tr_metadata result))
           then observe_read pr result revision w else Inr w)
        else if tc_name call = ''list_directory'' then
          Inr (w\<lparr>wk_directories := insert (revision, working_path
            (case dict_get (tr_metadata result) ''path'' of None \<Rightarrow> ''.'' | Some v \<Rightarrow> str_of pr v)) (wk_directories w)\<rparr>)
        else if tc_name call = ''grep'' then Inr (observe_grep result revision w)
        else if tc_name call = ''find_files'' then Inr (observe_find_files result revision w)
        else Inr w))"

text \<open>The newest evidence of each path, the first of equals.\<close>

definition latest_file :: "file_evidence \<Rightarrow> (str, file_evidence) dict \<Rightarrow> (str, file_evidence) dict" where
  "latest_file f d = (case dict_get d (fe_path f) of
       None \<Rightarrow> dict_set d (fe_path f) f
     | Some p \<Rightarrow> if fe_revision f > fe_revision p then dict_set d (fe_path f) f else d)"

definition working_parent :: "str \<Rightarrow> str" where
  "working_parent p = working_path (path_root p @ py_join ''/'' (butlast (path_segments p)))"

definition advance_revision :: "int \<Rightarrow> str list \<Rightarrow> working_state \<Rightarrow> working_state" where
  "advance_revision revision changed_paths w =
     (let changed = map working_path changed_paths;
          latest = dict_values (fold latest_file (dict_values (wk_files w)) []);
          kept = filter (\<lambda>f. fe_path f \<notin> set changed) latest;
          invalid = map working_parent changed in
      w\<lparr>wk_files := map (\<lambda>f. ((revision, fe_path f), f\<lparr>fe_revision := revision\<rparr>)) kept,
        wk_directories := (\<lambda>d. (revision, snd d)) ` Set.filter (\<lambda>d. snd d \<notin> set invalid) (wk_directories w),
        wk_hits := (\<lambda>h. (revision, snd h)) ` Set.filter (\<lambda>h. fst (snd h) \<notin> set changed) (wk_hits w),
        wk_found := (\<lambda>d. (revision, snd d)) ` Set.filter (\<lambda>d. snd d \<notin> set changed) (wk_found w),
        wk_code := None\<rparr>)"

definition invalidate_process_caches :: "working_state \<Rightarrow> working_state" where
  "invalidate_process_caches w = w\<lparr>wk_directories := {}, wk_hits := {}, wk_found := {}\<rparr>"

definition evidence_paths :: "working_state \<Rightarrow> str list" where
  "evidence_paths w = sorted_list_of_set
     (set (map fe_path (dict_values (wk_files w))) \<union> Set.filter (\<lambda>p. p \<noteq> ''.'') (snd ` wk_directories w)
      \<union> (fst \<circ> snd) ` wk_hits w \<union> snd ` wk_found w)"

section \<open>The text for the prompt\<close>

definition last_of :: "nat \<Rightarrow> 'a list \<Rightarrow> 'a list" where
  "last_of n xs = drop (length xs - n) xs"

definition omitted_line :: "nat \<Rightarrow> 'a list \<Rightarrow> str \<Rightarrow> str list" where
  "omitted_line n xs what =
     (if length xs > n then [''- ... '' @ nat_str (length xs - n) @ '' older '' @ what @ '' entries omitted''] else [])"

definition range_text :: "int \<times> int \<Rightarrow> str" where
  "range_text r = int_str (fst r) @ ''-'' @ int_str (snd r)"

definition file_line :: "file_evidence \<Rightarrow> str" where
  "file_line f = ''- '' @ fe_path f @ '' @ revision '' @ int_str (fe_revision f) @ '': lines ''
     @ py_join '', '' (map range_text (fe_ranges f)) @ ''; total '' @ int_str (fe_total f)"

definition hits_omitted :: "nat \<Rightarrow> 'a list \<Rightarrow> str \<Rightarrow> str list" where
  "hits_omitted n xs what =
     (if length xs > n then [''- ... '' @ nat_str (length xs - n) @ '' older '' @ what @ '' omitted''] else [])"

definition working_suffix :: "working_state \<Rightarrow> str" where
  "working_suffix w =
     (if wk_files w = [] \<and> wk_directories w = {} \<and> wk_hits w = {} \<and> wk_found w = {} \<and> wk_failures w = [] then []
      else
        (let files = sort_key (\<lambda>f. (fe_path f, fe_revision f)) (dict_values (wk_files w));
             directories = sorted_list_of_set (wk_directories w);
             hits = sorted_list_of_set (wk_hits w);
             found = sorted_list_of_set (wk_found w) in
         py_join [NL] (
           [''[Current Working Evidence]'', ''Use this evidence instead of re-reading covered content.'']
           @ omitted_line 50 files ''file'' @ map file_line (last_of 50 files)
           @ omitted_line 20 directories ''directory''
           @ map (\<lambda>(r, p). ''- listed '' @ p @ '' @ revision '' @ int_str r) (last_of 20 directories)
           @ hits_omitted 50 hits ''search hits''
           @ map (\<lambda>(r, p, n). ''- search hit '' @ p @ '':'' @ int_str n @ '' @ revision '' @ int_str r) (last_of 50 hits)
           @ hits_omitted 50 found ''discovered files''
           @ map (\<lambda>(r, p). ''- discovered '' @ p @ '' @ revision '' @ int_str r) (last_of 50 found)
           @ (if wk_failures w = [] then [] else ''Recent tool failures:'' # map (\<lambda>f. ''- '' @ f) (wk_failures w)))))"

section \<open>The merged ranges stand for exactly the lines that were read\<close>

definition range_lines :: "(int \<times> int) list \<Rightarrow> int set" where
  "range_lines rs = (\<Union>(a, b)\<in>set rs. {a..b})"

text \<open>Ranges in normal form: nonempty, ascending, and with a gap between neighbours.\<close>

definition normal_ranges :: "(int \<times> int) list \<Rightarrow> bool" where
  "normal_ranges rs \<longleftrightarrow> list_all (\<lambda>(a, b). a \<le> b) rs \<and> sorted_wrt (\<lambda>(p, q) (a, b). q + 1 < a) rs"

lemma range_lines_simps [simp]: "range_lines [] = {}" "range_lines (r # rs) = {fst r..snd r} \<union> range_lines rs"
  "range_lines (rs @ rs') = range_lines rs \<union> range_lines rs'"
  by (auto simp: range_lines_def split: prod.splits)

lemma range_lines_set: "set rs = set rs' \<Longrightarrow> range_lines rs = range_lines rs'"
  by (simp add: range_lines_def)

lemma merge_ranges_lines:
  "list_all (\<lambda>(a, b). a \<le> b) merged \<Longrightarrow> list_all (\<lambda>(a, b). a \<le> b) rs \<Longrightarrow> sorted (map fst rs) \<Longrightarrow>
     (\<And>p q. merged \<noteq> [] \<Longrightarrow> hd merged = (p, q) \<Longrightarrow> \<forall>(a, b)\<in>set rs. p \<le> a) \<Longrightarrow>
     range_lines (merge_ranges merged rs) = range_lines merged \<union> range_lines rs"
proof (induction merged rs rule: merge_ranges.induct)
  case (1 merged)
  then show ?case using range_lines_set [of "rev merged" merged] by simp
next
  case (2 r rs)
  then show ?case by (cases r) force
next
  case (3 p q merged a b rs)
  have pq: "p \<le> q" "a \<le> b" "p \<le> a" using 3 by auto
  show ?case
  proof (cases "a > q + 1")
    case True
    have "\<forall>(c, d)\<in>set rs. a \<le> c" using 3(5) by auto
    then have "range_lines (merge_ranges ((a, b) # (p, q) # merged) rs) = range_lines ((a, b) # (p, q) # merged) \<union> range_lines rs"
      using 3 True by (intro 3(1)) simp_all
    then show ?thesis using True by (simp add: Un_ac)
  next
    case False
    have "\<forall>(c, d)\<in>set rs. p \<le> c" using 3(6) [of p q] by auto
    then have "range_lines (merge_ranges ((p, max q b) # merged) rs) = range_lines ((p, max q b) # merged) \<union> range_lines rs"
      using 3 pq False by (intro 3(2)) auto
    moreover have "{p..max q b} = {p..q} \<union> {a..b}" using pq False by auto
    ultimately show ?thesis using False by auto
  qed
qed

lemma merge_ranges_normal:
  "normal_ranges (rev merged) \<Longrightarrow> list_all (\<lambda>(a, b). a \<le> b) rs \<Longrightarrow> sorted (map fst rs) \<Longrightarrow>
     (\<And>p q. merged \<noteq> [] \<Longrightarrow> hd merged = (p, q) \<Longrightarrow> \<forall>(a, b)\<in>set rs. p \<le> a) \<Longrightarrow>
     normal_ranges (merge_ranges merged rs)"
proof (induction merged rs rule: merge_ranges.induct)
  case (1 merged)
  then show ?case by simp
next
  case (2 r rs)
  then show ?case by (cases r) (force simp: normal_ranges_def)
next
  case (3 p q merged a b rs)
  have ab: "a \<le> b" "p \<le> a" using 3 by auto
  show ?case
  proof (cases "a > q + 1")
    case True
    have "\<forall>(c, d)\<in>set merged. d + 1 < a" using 3(3) ab True by (force simp: normal_ranges_def sorted_wrt_append)
    then have "normal_ranges (rev ((a, b) # (p, q) # merged))"
      using 3(3) ab True by (auto simp: normal_ranges_def sorted_wrt_append split: prod.splits)
    then have "normal_ranges (merge_ranges ((a, b) # (p, q) # merged) rs)"
      using 3 True by (intro 3(1)) auto
    then show ?thesis using True by simp
  next
    case False
    have "normal_ranges (rev ((p, max q b) # merged))"
      using 3(3) by (auto simp: normal_ranges_def sorted_wrt_append)
    then have "normal_ranges (merge_ranges ((p, max q b) # merged) rs)"
      using 3 False by (intro 3(2)) auto
    then show ?thesis using False by simp
  qed
qed

lemma normal_range_gap:
  assumes "normal_ranges rs" "(p, q) \<in> set rs" "p \<le> x" "x \<le> q" "x + 1 \<in> range_lines rs"
  shows "x + 1 \<le> q"
proof (rule ccontr)
  assume "\<not> x + 1 \<le> q"
  then have x: "x = q" using assms by simp
  from assms(5) obtain a b where ab: "(a, b) \<in> set rs" "a \<le> q + 1" "q + 1 \<le> b"
    using x by (auto simp: range_lines_def)
  obtain i j where i: "i < length rs" "rs ! i = (p, q)" and j: "j < length rs" "rs ! j = (a, b)"
    using assms(2) ab(1) by (meson in_set_conv_nth)
  have sorted: "sorted_wrt (\<lambda>(p, q) (a, b). q + 1 < a) rs" and le: "a \<le> b" "p \<le> q"
    using assms(1,2) ab(1) by (auto simp: normal_ranges_def list_all_iff)
  consider "i < j" | "i = j" | "j < i" by linarith
  then show False
  proof cases
    case 1
    then show ?thesis using sorted_wrt_nth_less [OF sorted 1 j(1)] i j ab by simp
  next
    case 2
    then show ?thesis using i j ab by simp
  next
    case 3
    then show ?thesis using sorted_wrt_nth_less [OF sorted 3 i(1)] i j ab le by simp
  qed
qed

lemma normal_covers:
  assumes normal: "normal_ranges (fe_ranges f)" and ab: "a \<le> b"
  shows "fe_covers f a b \<longleftrightarrow> {a..b} \<subseteq> range_lines (fe_ranges f)"
proof
  assume "fe_covers f a b"
  then obtain p q where "(p, q) \<in> set (fe_ranges f)" "p \<le> a" "b \<le> q" by (auto simp: fe_covers_def list_ex_iff)
  then have "{a..b} \<subseteq> {p..q}" "{p..q} \<subseteq> range_lines (fe_ranges f)" by (auto simp: range_lines_def)
  then show "{a..b} \<subseteq> range_lines (fe_ranges f)" by blast
next
  assume sub: "{a..b} \<subseteq> range_lines (fe_ranges f)"
  then obtain p q where pq: "(p, q) \<in> set (fe_ranges f)" "p \<le> a" "a \<le> q"
    using ab by (force simp: range_lines_def)
  have "x \<le> b \<Longrightarrow> x \<le> q" if "a \<le> x" for x
    using that
  proof (induction x rule: int_ge_induct)
    case base
    then show ?case using pq by simp
  next
    case (step i)
    then have "i + 1 \<in> range_lines (fe_ranges f)" using sub by auto
    then show ?case using normal_range_gap [OF normal pq(1)] step pq(2) by simp
  qed
  from this [of b] have "b \<le> q" using ab by simp
  then show "fe_covers f a b" using pq by (auto simp: fe_covers_def list_ex_iff)
qed

lemma fe_add_ranges:
  assumes "normal_ranges (fe_ranges f)"
  shows "normal_ranges (fe_ranges (fe_add a b f)) \<and> range_lines (fe_ranges (fe_add a b f)) = range_lines (fe_ranges f) \<union> {a..b}"
proof (cases "b < a \<or> fe_covers f a b")
  case True
  then show ?thesis using assms normal_covers [OF assms, of a b] by (cases "b < a") (auto simp: fe_add_def)
next
  case False
  let ?rs = "sort (fe_ranges f @ [(a, b)])"
  have le: "list_all (\<lambda>(a, b). a \<le> b) ?rs" using assms False by (auto simp: normal_ranges_def list_all_iff)
  have fst: "sorted (map fst ?rs)"
    unfolding sorted_map by (rule sorted_wrt_mono_rel [OF _ sorted_sort]) (auto simp: less_eq_prod_def)
  have "range_lines ?rs = range_lines (fe_ranges f) \<union> {a..b}" using range_lines_set [of ?rs "fe_ranges f @ [(a, b)]"] by simp
  then show ?thesis
    using merge_ranges_lines [of "[]" ?rs] merge_ranges_normal [of "[]" ?rs] le fst False
    by (simp add: fe_add_def normal_ranges_def)
qed

definition read_lines :: "(int \<times> int) list \<Rightarrow> file_evidence \<Rightarrow> file_evidence" where
  "read_lines reads f = fold (\<lambda>(a, b). fe_add a b) reads f"

lemma read_lines_ranges:
  "normal_ranges (fe_ranges f) \<Longrightarrow> normal_ranges (fe_ranges (read_lines reads f))
     \<and> range_lines (fe_ranges (read_lines reads f)) = range_lines (fe_ranges f) \<union> range_lines reads"
  by (induction reads arbitrary: f) (auto simp: read_lines_def fe_add_ranges)

text \<open>
  C36: The line ranges of a file are exact. After any sequence of reads of a new file, in any order and
  overlapping or not, a range of lines counts as covered exactly when every line of it was read.
\<close>

theorem reads_covered_exactly:
  assumes new: "fe_ranges f = []" and range: "a \<le> b"
  shows "fe_covers (read_lines reads f) a b \<longleftrightarrow> (\<forall>n\<in>{a..b}. \<exists>(p, q)\<in>set reads. p \<le> n \<and> n \<le> q)"
proof -
  have "normal_ranges (fe_ranges f)" by (simp add: new normal_ranges_def)
  from read_lines_ranges [OF this, of reads] have "normal_ranges (fe_ranges (read_lines reads f))"
    "range_lines (fe_ranges (read_lines reads f)) = range_lines reads" by (simp_all add: new)
  then have "fe_covers (read_lines reads f) a b \<longleftrightarrow> {a..b} \<subseteq> range_lines reads" using normal_covers range by metis
  also have "\<dots> \<longleftrightarrow> (\<forall>n\<in>{a..b}. n \<in> range_lines reads)" by blast
  finally show ?thesis by (simp add: range_lines_def case_prod_unfold)
qed

theorem reads_covered_exactly_witness:
  "fe_covers (read_lines [(10, 20), (1, 5), (6, 8)] \<lparr>fe_path = ''a.py'', fe_revision = 0, fe_total = 20, fe_ranges = []\<rparr>) 2 7
     \<longleftrightarrow> (\<forall>n\<in>{2..7::int}. \<exists>(p, q)\<in>set [(10, 20), (1, 5), (6, 8)]. p \<le> n \<and> n \<le> q)"
  by (rule reads_covered_exactly) simp_all

end
