(* ===== verification/Turn_Router.thy ===== *)
theory Turn_Router
  imports Runtime_State Task_State Model_Budget
begin

text \<open>
  \<open>forge/runtime/router.py\<close>: a tool-free model call classifies the user's turn before any task state
  changes. \<open>loads\<close> is \<open>json.loads\<close> (\<open>None\<close> where it raises), \<open>to_bool\<close> and \<open>to_float\<close> are pydantic's conversions
  of a field, \<open>frepr\<close> the \<open>repr\<close> of a float.
\<close>

section \<open>Decisions\<close>

datatype turn_intent = Talk | TaskQuery | ContinueTask | NewTask | ReadOnlyTurn | ChangeTask | Ambiguous
datatype task_relation = ActiveTask | OtherTask | NoTask

record turn_decision =
  td_intent :: turn_intent
  td_relation :: task_relation
  td_requires_change :: bool
  td_requires_verification :: bool
  td_delete_only :: "bool option"
  td_confidence :: pyfloat
  td_reason :: str

definition intent_of_name :: "json \<Rightarrow> turn_intent option" where
  "intent_of_name v = (if v = JStr ''conversation'' then Some Talk else if v = JStr ''task_query'' then Some TaskQuery
     else if v = JStr ''continue_task'' then Some ContinueTask else if v = JStr ''new_task'' then Some NewTask
     else if v = JStr ''read_only'' then Some ReadOnlyTurn else if v = JStr ''change_task'' then Some ChangeTask
     else if v = JStr ''ambiguous'' then Some Ambiguous else None)"

definition relation_of_name :: "json \<Rightarrow> task_relation option" where
  "relation_of_name v = (if v = JStr ''active'' then Some ActiveTask else if v = JStr ''new'' then Some OtherTask
     else if v = JStr ''none'' then Some NoTask else None)"

text \<open>\<open>validate_contract\<close>.\<close>

definition decision_contract :: "turn_decision \<Rightarrow> bool" where
  "decision_contract d \<longleftrightarrow>
     \<not> (td_intent d \<in> {Talk, TaskQuery, ReadOnlyTurn, Ambiguous} \<and> td_requires_change d)
     \<and> \<not> (td_intent d = ContinueTask \<and> td_relation d \<noteq> ActiveTask)
     \<and> \<not> (td_intent d = NewTask \<and> td_relation d \<noteq> OtherTask)
     \<and> \<not> (td_intent d = ChangeTask \<and> \<not> td_requires_change d)"

definition optional_bool :: "(json \<Rightarrow> bool option) \<Rightarrow> jdict \<Rightarrow> bool option option" where
  "optional_bool to_bool d = (case dict_get d ''allows_delete_only'' of None \<Rightarrow> Some None
     | Some JNull \<Rightarrow> Some None | Some v \<Rightarrow> map_option Some (to_bool v))"

definition validate_decision :: "(json \<Rightarrow> bool option) \<Rightarrow> (json \<Rightarrow> pyfloat option) \<Rightarrow> json \<Rightarrow> turn_decision option" where
  "validate_decision to_bool to_float v =
     Option.bind (json_obj_opt v) (\<lambda>d.
     Option.bind (intent_of_name (jget d ''intent'')) (\<lambda>intent.
     Option.bind (relation_of_name (jget d ''task_relation'')) (\<lambda>relation.
     Option.bind (Option.bind (dict_get d ''requires_workspace_change'') to_bool) (\<lambda>change.
     Option.bind (case dict_get d ''requires_verification'' of None \<Rightarrow> Some False | Some b \<Rightarrow> to_bool b) (\<lambda>verification.
     Option.bind (optional_bool to_bool d) (\<lambda>deletes.
     Option.bind (Option.bind (dict_get d ''confidence'') to_float) (\<lambda>confidence.
     Option.bind (jget_str d ''reason'') (\<lambda>reason.
       let decision = \<lparr>td_intent = intent, td_relation = relation, td_requires_change = change,
             td_requires_verification = verification, td_delete_only = deletes, td_confidence = confidence, td_reason = reason\<rparr> in
       if 0 \<le> confidence \<and> confidence \<le> 1 \<and> reason \<noteq> [] \<and> length reason \<le> 500 \<and> decision_contract decision
       then Some decision else None))))))))"

definition ambiguous_decision :: "str \<Rightarrow> turn_decision" where
  "ambiguous_decision reason = \<lparr>td_intent = Ambiguous, td_relation = NoTask, td_requires_change = False,
     td_requires_verification = False, td_delete_only = None, td_confidence = 0, td_reason = reason\<rparr>"

section \<open>The answer of the model\<close>

definition fence :: str where
  "fence = [CHR 0x60, CHR 0x60, CHR 0x60]"

definition unfenced :: "str \<Rightarrow> str" where
  "unfenced stripped =
     (if \<not> startswith stripped fence then stripped
      else (let lines = splitlines stripped;
                lines = (case lines of l # ls \<Rightarrow> if startswith l fence then ls else lines | [] \<Rightarrow> []);
                lines = (if lines \<noteq> [] \<and> py_strip (last lines) = fence then butlast lines else lines)
            in py_strip (py_join [NL] lines)))"

text \<open>\<open>stripped[start:end + 1]\<close> between the first opening and the last closing brace.\<close>

definition object_text :: "str \<Rightarrow> str option" where
  "object_text s =
     (let rest = dropWhile (\<lambda>c. c \<noteq> CHR 0x7B) s;
          inner = rev (dropWhile (\<lambda>c. c \<noteq> CHR 0x7D) (rev rest))
      in if rest = [] \<or> inner = [] then None else Some inner)"

definition parse_turn_decision ::
  "(str \<Rightarrow> json option) \<Rightarrow> (json \<Rightarrow> bool option) \<Rightarrow> (json \<Rightarrow> pyfloat option) \<Rightarrow> str \<Rightarrow> py_exn + turn_decision" where
  "parse_turn_decision loads to_bool to_float text =
     (case object_text (unfenced (py_strip text)) of
        None \<Rightarrow> Inl (ValueError ''Intent router did not return a JSON object.'')
      | Some t \<Rightarrow>
          (case Option.bind (loads t) (validate_decision to_bool to_float) of
             None \<Rightarrow> Inl (ValueError ''Intent router returned invalid structured output.'')
           | Some d \<Rightarrow> Inr d))"

section \<open>The request\<close>

definition task_payload :: "active_task option \<Rightarrow> json" where
  "task_payload task = (case task of None \<Rightarrow> JNull
     | Some t \<Rightarrow> JObj [(''id'', JStr (at_id t)), (''goal'', JStr (take 4000 (at_goal t))), (''status'', JStr (at_status t)),
         (''requires_workspace_change'', JBool (at_requires_change t)),
         (''scope_hints'', JList (map JStr (take 20 (at_scope_hints t)))),
         (''blocked_reasons'', JList (map JStr (take 10 (at_blocked t))))])"

definition message_entry :: "(json \<Rightarrow> str) \<Rightarrow> jdict \<Rightarrow> json option" where
  "message_entry pr m =
     (case (case dict_get m ''content'' of None \<Rightarrow> JStr [] | Some v \<Rightarrow> v) of
        JStr content \<Rightarrow> Some (JObj [(''role'', JStr (case dict_get m ''role'' of None \<Rightarrow> [] | Some v \<Rightarrow> str_of pr v)),
          (''content'', JStr (take 2000 content))])
      | _ \<Rightarrow> None)"

definition message_payload :: "(json \<Rightarrow> str) \<Rightarrow> jdict list \<Rightarrow> nat \<Rightarrow> json list" where
  "message_payload pr messages limit =
     (if limit = 0 then [] else List.map_filter (message_entry pr) (slice_last limit messages))"

definition route_payload :: "(json \<Rightarrow> str) \<Rightarrow> str \<Rightarrow> active_task option \<Rightarrow> jdict list \<Rightarrow> nat \<Rightarrow> json" where
  "route_payload pr prompt task messages limit = JObj [(''user_prompt'', JStr (take 8000 prompt)),
     (''active_task'', task_payload task), (''recent_messages'', JList (message_payload pr messages limit))]"

section \<open>Routing\<close>

record route_result =
  rs_decision :: turn_decision
  rs_usage :: token_usage
  rs_raw :: str
  rs_degraded :: str

definition streamed_text :: "stream_event list \<Rightarrow> str" where
  "streamed_text events = concat (map (\<lambda>e. case e of TextDelta t _ \<Rightarrow> t | _ \<Rightarrow> []) events)"

definition streamed_usage :: "stream_event list \<Rightarrow> token_usage" where
  "streamed_usage events = fold (\<lambda>e u. case e of UsageUpdate v _ _ _ _ _ _ \<Rightarrow> v | _ \<Rightarrow> u) events zero_usage"

text \<open>
  \<open>route\<close> once the stream ended: \<open>events\<close> are the events the client yielded, \<open>error\<close> the type name of the
  exception it raised, if any. A cancellation is no \<open>Exception\<close> and passes through.
\<close>

definition degraded :: "stream_event list \<Rightarrow> str \<Rightarrow> route_result" where
  "degraded events error = (let reason = ''Intent router failed: '' @ error @ ''.'' in
     \<lparr>rs_decision = ambiguous_decision reason, rs_usage = streamed_usage events, rs_raw = streamed_text events, rs_degraded = reason\<rparr>)"

definition route_result_of ::
  "(str \<Rightarrow> json option) \<Rightarrow> (json \<Rightarrow> bool option) \<Rightarrow> (json \<Rightarrow> pyfloat option) \<Rightarrow> pyfloat \<Rightarrow> bool \<Rightarrow>
     stream_event list \<Rightarrow> str option \<Rightarrow> route_result" where
  "route_result_of loads to_bool to_float threshold has_task events error =
     (case error of
        Some name \<Rightarrow> degraded events name
      | None \<Rightarrow>
          (case parse_turn_decision loads to_bool to_float (streamed_text events) of
             Inl _ \<Rightarrow> degraded events ''ValueError''
           | Inr decision \<Rightarrow>
               (let low = ''Intent router confidence was below the safety threshold.'';
                    missing = ''The decision referenced an active task, but none exists.'';
                    first = (if td_confidence decision < threshold then (ambiguous_decision low, low) else (decision, []));
                    second = (if td_relation (fst first) = ActiveTask \<and> \<not> has_task then (ambiguous_decision missing, missing) else first)
                in \<lparr>rs_decision = fst second, rs_usage = streamed_usage events, rs_raw = streamed_text events,
                    rs_degraded = snd second\<rparr>)))"

section \<open>Routing fails closed\<close>

lemma validated_contract:
  "validate_decision to_bool to_float v = Some d \<Longrightarrow> decision_contract d \<and> 0 \<le> td_confidence d \<and> td_confidence d \<le> 1"
  by (auto simp: validate_decision_def Let_def bind_eq_Some_conv split: if_splits)

lemma parsed_validated:
  "parse_turn_decision loads to_bool to_float text = Inr d \<Longrightarrow>
     \<exists>t v. loads t = Some v \<and> validate_decision to_bool to_float v = Some d"
  by (auto simp: parse_turn_decision_def bind_eq_Some_conv split: option.splits)

lemma ambiguous_intent [simp]: "td_intent (ambiguous_decision reason) = Ambiguous"
  by (simp add: ambiguous_decision_def)

text \<open>
  C35: Routing fails closed. A turn is anything but ambiguous (and an ambiguous turn is read only) only
  if the model call ended without an error, its text parses to that very decision, the confidence
  reaches the threshold, the decision satisfies the routing contract, and a decision that refers to the
  active task is made where there is one.
\<close>

theorem routing_fails_closed:
  assumes "td_intent (rs_decision (route_result_of loads to_bool to_float threshold has_task events error)) \<noteq> Ambiguous"
  shows "let d = rs_decision (route_result_of loads to_bool to_float threshold has_task events error) in
     error = None \<and> parse_turn_decision loads to_bool to_float (streamed_text events) = Inr d
     \<and> threshold \<le> td_confidence d \<and> decision_contract d \<and> (td_relation d = ActiveTask \<longrightarrow> has_task)"
proof -
  have e: "error = None" using assms by (cases error) (auto simp: route_result_of_def degraded_def Let_def)
  show ?thesis
  proof (cases "parse_turn_decision loads to_bool to_float (streamed_text events)")
    case (Inl x)
    then show ?thesis using assms e by (simp add: route_result_of_def degraded_def Let_def)
  next
    case (Inr d)
    obtain t v where "validate_decision to_bool to_float v = Some d" using parsed_validated [OF Inr] by blast
    then have "decision_contract d" using validated_contract by blast
    then show ?thesis using assms e Inr by (auto simp: route_result_of_def Let_def split: if_splits)
  qed
qed

definition sample_answer :: str where
  "sample_answer = [CHR 0x7B, CHR 0x7D]"

definition sample_loads :: "str \<Rightarrow> json option" where
  "sample_loads t = (if t = sample_answer then Some (JObj [(''intent'', JStr ''change_task''), (''task_relation'', JStr ''new''),
     (''requires_workspace_change'', JBool True), (''confidence'', JInt 1), (''reason'', JStr ''edit'')]) else None)"

definition sample_bool :: "json \<Rightarrow> bool option" where
  "sample_bool v = (case v of JBool b \<Rightarrow> Some b | _ \<Rightarrow> None)"

definition sample_float :: "json \<Rightarrow> pyfloat option" where
  "sample_float v = (case v of JInt i \<Rightarrow> Some (of_int i) | JFloat q \<Rightarrow> Some q | _ \<Rightarrow> None)"

definition sample_route :: route_result where
  "sample_route = route_result_of sample_loads sample_bool sample_float (65 / 100) False [TextDelta sample_answer 0] None"

lemma sample_route_change: "td_intent (rs_decision sample_route) \<noteq> Ambiguous"
  by code_simp

theorem routing_fails_closed_witness:
  "td_intent (rs_decision sample_route) \<noteq> Ambiguous \<and> decision_contract (rs_decision sample_route)
     \<and> 65 / 100 \<le> td_confidence (rs_decision sample_route)"
  using routing_fails_closed [of sample_loads sample_bool sample_float "65 / 100" False "[TextDelta sample_answer 0]" None]
    sample_route_change by (simp add: sample_route_def Let_def)

end
