(* ===== verification/Spec2Isabelle.thy ===== *)
theory Spec2Isabelle
  imports Model_Budget Completion Perm_Risk Task_Manager Patch_Edits Patch_Safety Session_Facts Protocol_Facts Engine_Safety Executor_Facts Stream_Safety Working_State Turn_Router
begin

text \<open>
  A verification development for ForgeCode, a coding agent: a language model works on a repository
  through tools, under permissions and budgets, and its claims of success are checked by a gate.
  File names below are relative to \<open>src/\<close>.

  \<^bold>\<open>How the program is put together.\<close> A turn (\<open>forge/runtime/runner.py\<close>) sends the conversation to a
  model, collects text and tool calls, hands each tool call to the executor
  (\<open>forge/runtime/executor.py\<close>) and answers the calls in the conversation. The executor validates, asks
  hooks and the permission manager (\<open>forge/permissions\<close>), captures a checkpoint and runs the tool
  (\<open>forge/tools\<close>). Model calls are charged to the turn and the turns above it (\<open>turn_state.py\<close>,
  \<open>model_budget.py\<close>). Verification tools leave evidence (\<open>verification.py\<close>, \<open>check_contracts.py\<close>); a
  declared completion has to pass the gate (\<open>completion.py\<close>) and is reported with its evidence
  (\<open>delivery.py\<close>). The task and its plan live in \<open>forge/tasks\<close>, the conversation in the journal of
  \<open>forge/sessions\<close>. The engine (\<open>forge/engine\<close>, \<open>forge/application\<close>) keeps turns, approvals and
  evaluation attempts as rows of a database that several processes share over time.

  \<^bold>\<open>The theories.\<close>
  \<^item> \<open>Prelude\<close>: results of fallible code (\<open>py_exn + 'a\<close>, \<open>rbind\<close>, \<open>guard\<close>), insertion-ordered
    dictionaries (\<open>dict_get\<close>, \<open>dict_set\<close>), and the list lemmas the components share.
  \<^item> \<open>Py_Text\<close>, \<open>Py_Paths\<close>, \<open>Py_Regex\<close>, \<open>Py_Stdlib\<close>, \<open>Py_Difflib\<close>, \<open>Json\<close>: the parts of the Python standard
    library the sources use (string methods, \<open>posixpath\<close>, the regular expressions with their order of
    choice, \<open>fnmatch\<close>, \<open>shlex\<close>, \<open>difflib\<close>, \<open>json.dumps\<close>).
  \<^item> \<open>Messages\<close>, \<open>Runtime_State\<close>: user input and its limits, tool results, evidence, stream events and the
    two message builders (\<open>messages.py\<close>, \<open>tool_types.py\<close>, \<open>runtime/state.py\<close>).
  \<^item> \<open>Turn_State\<close>, \<open>Model_Budget\<close>: a turn and its ancestors as a list of states; the life of a request.
  \<^item> \<open>Verification\<close>, \<open>Check_Contracts\<close>, \<open>Delivery\<close>, \<open>Completion\<close>: from a command to evidence, from evidence
    to unresolved failures, to the report and to the decision of the gate.
  \<^item> \<open>Perm_Policy\<close>, \<open>Perm_Risk\<close>: rules, modes, approvals, audit; and what a call is classified as.
  \<^item> \<open>Task_State\<close>, \<open>Task_Manager\<close>: the task, its store as a locale with the laws of its two operations, and
    every operation of the manager.
  \<^item> \<open>Tool_Paths\<close>, \<open>Patch\<close>, \<open>Patch_Edits\<close>, \<open>Patch_Safety\<close>: the patch tool from text to files.
  \<^item> \<open>Tool_Executor\<close>, \<open>Executor_Facts\<close>: the pipeline from a requested call to its recorded outcome.
  \<^item> \<open>Working_State\<close>, \<open>Turn_Router\<close>: the index of what the tools observed (\<open>context/working.py\<close>), and the
    classification of a user's turn from a model answer (\<open>runtime/router.py\<close>).
  \<^item> \<open>Session_Journal\<close>, \<open>Session_Chain\<close>, \<open>Session_Replay\<close>, \<open>Session_Store\<close>, \<open>Session_Ledger\<close>, \<open>Session_Facts\<close>:
    writing, selecting, replaying and listing the journals of \<open>sessions/store.py\<close>.
  \<^item> \<open>Protocol\<close>, \<open>Protocol_Facts\<close>: the wire contracts and the nesting scan of \<open>forge/protocol.py\<close>.
  \<^item> \<open>Engine_Store\<close>, \<open>Engine_Events\<close>, \<open>Engine_Turns\<close>, \<open>Engine_Approvals\<close>, \<open>Engine_Attempts\<close>: the rows and the
    operations of the engine; \<open>Engine_Rows\<close>, \<open>Engine_Invariant\<close>, \<open>Engine_Steps\<close>, \<open>Engine_Turn_Steps\<close>,
    \<open>Engine_Worker_Steps\<close>, \<open>Engine_Facts\<close>, \<open>Engine_Safety\<close>: the step relation over all operations of all
    processes, its invariant and its order, and what holds after any run.
  \<^item> \<open>Event_Stream\<close>, \<open>Stream_Facts\<close>, \<open>Stream_Safety\<close>: the subscription of \<open>engine/event_stream.py\<close> (polling a
    page, the pending window, acknowledgements, overflow) and the order in which a client sees the log.

  \<^bold>\<open>Conventions.\<close> A Python class is a record with a prefix of its own (\<open>ts_\<close> for \<open>TurnState\<close>, \<open>tk_\<close> for the
  tracker the gate sees), a literal type is a datatype, an exception is a value of \<open>py_exn\<close> or of the
  component's own exception type on the left of a sum; what an operation did before it raised stays in
  the state it returns. Python's integers are \<open>int\<close>, floats are rationals (\<open>pyfloat\<close>; only order, sums and
  maxima of durations occur). Texts are lists of \<open>char\<close>, so the code points above 255 and the patterns
  that mention them are outside the model. Whatever is not in the repository is an argument: clocks,
  \<open>uuid4\<close>, SHA-256, \<open>repr\<close> of a float, base64, JSON Schema, Git, the file system, the user who answers an
  approval. Where a property relies on one of them (\<open>json.loads\<close> inverts \<open>json.dumps\<close>, a lookup finds
  what a write stored) the law is a hypothesis of the theorem, and its witness instantiates it.

  \<^bold>\<open>Termination and bounds.\<close> Every function is total. The scanners recurse over the text or a measure on
  what is left of it; the nested shell check is bounded by the length of the command; the star of a
  regular expression only iterates when it consumed something.

  \<^bold>\<open>Not modelled.\<close> HTTP clients and providers, processes, sandboxes, Git itself, terminal and chat
  channels, MCP, SQLite below the rows and their constraints, configuration loading, the benchmark and
  evaluation drivers around the scheduler, the distillation extension. They are I/O around other
  systems; what the modelled parts observe of them is an argument. The observability recorder is left
  out everywhere: it never changes the state the modelled operations read.
\<close>

section \<open>Completion gate and evidence\<close>

text \<open>
  C1: A completion the gate allows, for a task that requires verification, rests on current
  successful evidence of known quality; no failure of the current workspace state is
  outstanding; no changed path is forbidden or outside the allowed paths; and every required
  artifact exists inside the workspace with its required content.
\<close>

theorem allowed_completion_sound:
  assumes allowed: "cd_allowed (evaluate w po tk v h m req cs)"
    and required: "verification_required po req"
  shows "(\<exists>e\<in>set (evidence_history h v). is_current (tk_revision tk) (tk_epoch tk) e \<and> ev_success e \<and> known_quality e)
     \<and> (\<forall>f. \<not> outstanding (filter (is_current (tk_revision tk) (tk_epoch tk)) (evidence_history h v)) f)
     \<and> (\<forall>p\<in>set (tk_changed_paths tk). \<not> matches_any p (po_forbidden_paths po)
           \<and> (po_allowed_paths po \<noteq> [] \<longrightarrow> matches_any p (po_allowed_paths po)))
     \<and> (\<forall>p\<in>set (po_required_paths po). gw_inside w p \<and> gw_exists w p)
     \<and> (\<forall>(p, expected)\<in>set (po_required_hashes po). gw_inside w p \<and> gw_is_file w p \<and> gw_sha256 w p = expected)"
proof -
  let ?cur = "filter (is_current (tk_revision tk) (tk_epoch tk)) (evidence_history h v)"
  have "is_code_task po tk v h m req"
    using required by (simp add: is_code_task_def)
  with allowed have base: "base_reasons w po tk (evidence_history h v) req cs = []"
    by (simp add: evaluate_allowed_iff)
  then have "unresolved_verification_failures ?cur = []" "path_violations po (tk_changed_paths tk) = []"
    "required_path_reasons w po = []" "required_hash_reasons w po = []"
    "verification_reasons w po (evidence_history h v) ?cur (tk_revision tk) = []"
    using required by (simp_all add: base_reasons_def Let_def unresolved_reasons_Nil)
  moreover from this have "\<forall>f. \<not> outstanding ?cur f"
    using unresolved_iff_outstanding [of _ ?cur] by simp
  ultimately show ?thesis
    using verification_reasons_Nil [of w po "evidence_history h v" ?cur "tk_revision tk"]
    by (auto simp: path_violations_Nil required_path_reasons_Nil required_hash_reasons_Nil)
qed

definition sample_evidence :: evidence where
  "sample_evidence = \<lparr>ev_command = ''pytest'', ev_cwd = ''.'', ev_exit_code = 0, ev_duration = 1,
     ev_timed_out = False, ev_revision = 2, ev_diagnostic = [], ev_epoch = 0, ev_coverage = [],
     ev_limitations = [], ev_stdin_sha256 = [], ev_valid = True, ev_issues = [],
     ev_check_signature = ''sig'', ev_requirement_ids = [''req-1''], ev_asserted_ids = [''req-1''],
     ev_verification_id = ''v1'', ev_output_checks = [], ev_supersedes = [], ev_revision_reason = [],
     ev_task_id = [], ev_turn_id = [], ev_freshness = Current, ev_check_id = ''c1'', ev_check_spec = []\<rparr>"

definition sample_tracker :: tracker_view where
  "sample_tracker = \<lparr>tk_changed_paths = [''src/a.py''], tk_available = True, tk_git_available = False,
     tk_revision = 2, tk_epoch = 0\<rparr>"

definition sample_world :: gate_world where
  "sample_world = \<lparr>gw_inside = \<lambda>_. True, gw_exists = \<lambda>_. True, gw_is_file = \<lambda>_. True, gw_sha256 = \<lambda>_. [],
     gw_search = \<lambda>_ _. Inr False, gw_ls_files = \<lambda>_. 0,
     gw_diff_check = \<lambda>_. \<lparr>pr_exit = 0, pr_stdout = [], pr_stderr = []\<rparr>,
     gw_untracked_check = \<lambda>_. \<lparr>pr_exit = 0, pr_stdout = [], pr_stderr = []\<rparr>\<rparr>"

definition sample_policy :: task_policy where
  "sample_policy = default_policy\<lparr>po_require_task_verification := True, po_allowed_paths := [''src/*'']\<rparr>"

lemma sample_allowed:
  "cd_allowed (evaluate sample_world sample_policy sample_tracker (Some sample_evidence) [] True False [])"
  by code_simp

theorem allowed_completion_sound_witness:
  "\<exists>e\<in>set (evidence_history [] (Some sample_evidence)). is_current 2 0 e \<and> ev_success e \<and> known_quality e"
  using allowed_completion_sound [OF sample_allowed]
  by (simp add: verification_required_def sample_policy_def sample_tracker_def)

text \<open>
  C2: When the caller requires acceptance reconciliation, an allowed completion has criteria, and
  each of them is bound to a current successful check whose executed assertions name it and whose
  command establishes behaviour.
\<close>

theorem allowed_completion_reconciled:
  assumes allowed: "cd_allowed (evaluate w po tk v h m req cs)"
    and required: "po_require_reconciliation po"
  shows "cs \<noteq> [] \<and> (\<forall>c\<in>set cs. \<exists>e\<in>set (evidence_history h v). proves (tk_revision tk) (tk_epoch tk) (crit c ''id'') e)"
proof -
  have "is_code_task po tk v h m req"
    using required by (simp add: is_code_task_def verification_required_def)
  with allowed have "base_reasons w po tk (evidence_history h v) req cs = []"
    by (simp add: evaluate_allowed_iff)
  then have "reconciliation_reasons po cs (evidence_history h v) (tk_revision tk) (tk_epoch tk) = []"
    by (simp add: base_reasons_def Let_def)
  then show ?thesis using required by (rule reconciliation_Nil)
qed

definition sample_criterion :: criterion where
  "sample_criterion = [(''id'', ''req-1''), (''source_quote'', ''works'')]"

lemma sample_reconciled:
  "cd_allowed (evaluate sample_world (default_policy\<lparr>po_require_reconciliation := True\<rparr>) sample_tracker
     (Some sample_evidence) [] True False [sample_criterion])"
  by code_simp

theorem allowed_completion_reconciled_witness:
  "\<exists>e\<in>set (evidence_history [] (Some sample_evidence)). proves 2 0 ''req-1'' e"
  using allowed_completion_reconciled [OF sample_reconciled]
  by (simp add: sample_tracker_def sample_criterion_def crit_def dict_get_or_def dict_get_def)

text \<open>
  C3: The unresolved failures of a list of evidence are exactly the failures that no later success
  discharges (same obligation, or a checker repair that keeps its contract) and no later failure of
  the same obligation replaces.
\<close>

theorem unresolved_failures_spec:
  "set (unresolved_verification_failures items) = {f. outstanding items f}"
  using unresolved_iff_outstanding [of _ items] by blast

definition old_check :: evidence where
  "old_check = sample_evidence\<lparr>ev_exit_code := 1, ev_output_checks :=
     [[(''key'', JStr ''n''), (''operator'', JStr ''ge''), (''expected'', JInt 3), (''requirement_id'', JStr ''req-1'')]]\<rparr>"

text \<open>
  C4: A requirement is reported as satisfied exactly when the ledger holds a proof of it: current,
  successful evidence with a signed check, executed assertions naming the requirement, and a
  command that establishes behaviour. Restored evidence proves nothing.
\<close>

theorem requirement_satisfied_iff:
  "(requirement_reason (requirement_observation c items r p) = None \<longleftrightarrow> (\<exists>e\<in>set items. proves r p (crit c ''id'') e))
   \<and> requirement_reason (requirement_observation c (map evidence_from_dict items) r p) \<noteq> None"
proof
  show "requirement_reason (requirement_observation c items r p) = None \<longleftrightarrow> (\<exists>e\<in>set items. proves r p (crit c ''id'') e)"
    by (rule requirement_reason_None)
  have "\<not> (\<exists>e\<in>set (map evidence_from_dict items). proves r p (crit c ''id'') e)"
    by (simp add: proves_def restored_not_current)
  then show "requirement_reason (requirement_observation c (map evidence_from_dict items) r p) \<noteq> None"
    by (simp only: requirement_reason_None simp_thms)
qed

text \<open>
  C5: Every check the completion report lists as passed is current and successful evidence of the
  ledger, whatever the agent's own assessment or status says.
\<close>

theorem report_passed_checks_sound:
  assumes "i \<in> set (cr_passed (completion_report status items r p reasons hc assessment u))"
  shows "\<exists>e\<in>set items. ev_identity e = i \<and> is_current r p e \<and> ev_success e"
  using assms by (rule report_passed_sound)

theorem report_passed_checks_sound_witness:
  "\<exists>e\<in>set [old_check, sample_evidence]. ev_identity e = ''v1'' \<and> is_current 2 0 e \<and> ev_success e"
  by (rule report_passed_checks_sound [where status = "''failed''" and reasons = "[]" and hc = False
        and assessment = None and u = True]) code_simp

text \<open>
  C6: A command that chains another one with a semicolon, a line break, a pipe or a single \<open>&\<close>
  outside quotes never counts as positive verification evidence (a quoted Python heredoc, whose
  lines are program text, apart). In front of the operator there may be closed quoted strings with
  anything in them, escaped characters and \<open>&&\<close>; behind it anything.
\<close>

theorem masked_command_not_positive:
  assumes "quotes_closed pre" and "operator c post" and "\<not> is_python_heredoc (pre @ c # post)"
  shows "\<not> is_positive_verification_command (pre @ c # post)"
  using quality_behavior_cases [of "pre @ c # post"] unsafe_of_operator [OF assms(1,2)] assms(3)
  by (auto simp: is_positive_verification_command_def)

lemma quoted_test_closed: "quotes_closed ''pytest -k 'a b' -m \"slow\"''"
proof -
  have "double_quotable ''slow''" by (intro double_quotable.intros) simp_all
  then have slow: "quotes_closed (DQ # ''slow'' @ DQ # [])" by (rule Double [OF _ Start])
  have "quotes_closed ('' -m '' @ DQ # ''slow'' @ DQ # [])"
    using slow by (simp add: Plain inert_def is_quote_def)
  then have "quotes_closed (SQ # ''a b'' @ SQ # '' -m '' @ DQ # ''slow'' @ DQ # [])"
    by (rule Single [rotated]) simp
  then have "quotes_closed (''pytest -k '' @ SQ # ''a b'' @ SQ # '' -m '' @ DQ # ''slow'' @ DQ # [])"
    by (simp add: Plain inert_def is_quote_def)
  then show ?thesis by simp
qed

theorem masked_command_not_positive_witness:
  "\<not> is_positive_verification_command (''pytest -k 'a b' -m \"slow\"'' @ CHR '';'' # '' echo OK'')"
  by (rule masked_command_not_positive [OF quoted_test_closed]) code_simp+

section \<open>Budgets and model requests\<close>

definition sample_turn :: turn_state where
  "sample_turn = new_turn (Some 1) (Some 2) None None 0"

text \<open>
  C7: Whatever the provider does (retries, missing boundaries, cancellation, failure), a stream's
  log numbers the requests from 1, starts one only while none is open, and finishes each one it
  started, with its own id and number, before the next one; there are as many as attempts were let
  through, and every level of the turn's chain is charged one model call for each. An attempt is let
  through only if nobody cancelled and at every level there was room for one more call, for the
  input tokens reported so far by the attempts of the stream (the last report of each) and in the
  time limit, and it is refused as exhausted only if at some level there was none.
\<close>

theorem stream_requests_accounted:
  assumes "acts = (if observes then actions else Attempt now cancelling # actions)"
    and "run_stream uuid observes now cancelling elapsed chain stage True actions ending = (st, x)"
  shows "\<exists>k. got_to chain acts k x \<and> closed_after chain (attempts (take k acts)) st"
  using accounted_loop [OF accounted_start [of chain stage] let_through_Nil, of acts uuid elapsed ending] assms
  by (auto simp: run_stream_def split: if_splits)

definition sample_usage :: token_usage where
  "sample_usage = \<lparr>tu_input_tokens = 10, tu_output_tokens = 2, tu_cache_creation = 0, tu_cache_read = 0\<rparr>"

definition sample_actions :: "action list" where
  "sample_actions = [Attempt 0 False, Yields (TextDelta ''hi'' 0), Yields (RetryScheduled 1 ''overloaded'' 1),
     Attempt 1 False, Yields (UsageUpdate sample_usage None 1 None None None None), Attempt 2 False]"

theorem stream_requests_accounted_witness:
  "\<exists>k st. got_to [new_turn (Some 5) None (Some 10) None 0] sample_actions k (Some (BudgetExhausted ''token_budget_exhausted''))
     \<and> closed_after [new_turn (Some 5) None (Some 10) None 0] (attempts (take k sample_actions)) st"
proof -
  obtain st where "run_stream (\<lambda>_. ''id'') True 0 False 1 [new_turn (Some 5) None (Some 10) None 0]
       ''model'' True sample_actions EndNormal = (st, Some (BudgetExhausted ''token_budget_exhausted''))"
  proof
    show "run_stream (\<lambda>_. ''id'') True 0 False 1 [new_turn (Some 5) None (Some 10) None 0] ''model'' True sample_actions EndNormal
      = (fst (run_stream (\<lambda>_. ''id'') True 0 False 1 [new_turn (Some 5) None (Some 10) None 0] ''model'' True sample_actions EndNormal),
         Some (BudgetExhausted ''token_budget_exhausted''))"
      by code_simp
  qed
  from stream_requests_accounted [OF _ this, of sample_actions] show ?thesis by auto
qed

text \<open>
  C8: A stream charges each attempt's usage once, at its last cumulative report: what every level
  of the chain gains is the sum, over the attempts the stream got to, of the last report of each.
\<close>

theorem stream_usage_charged_once:
  "\<exists>k\<le>length (if observes then actions else Attempt now cancelling # actions).
     map ts_usage (ss_chain (fst (run_stream uuid observes now cancelling elapsed chain stage sink actions ending)))
       = map (charge (last_reports None (take k (if observes then actions else Attempt now cancelling # actions))))
           (map ts_usage chain)
     \<and> (snd (run_stream uuid observes now cancelling elapsed chain stage sink actions ending) = None \<longrightarrow>
          k = length (if observes then actions else Attempt now cancelling # actions))"
  using loop_usage [of "if observes then actions else Attempt now cancelling # actions" uuid elapsed ending
      "start_stream chain stage sink"]
  by (cases observes) (simp_all add: run_stream_def usages_def start_stream_def)

theorem stream_usage_charged_once_witness:
  "\<exists>k\<le>6. map ts_usage (ss_chain (fst (run_stream (\<lambda>_. ''id'') True 0 False 1 [sample_turn] ''model'' False sample_actions EndNormal)))
     = map (charge (last_reports None (take k sample_actions))) [zero_usage]"
proof -
  have len: "length sample_actions = 6" and usage: "map ts_usage [sample_turn] = [zero_usage]"
    by (simp_all add: sample_actions_def sample_turn_def new_turn_def)
  obtain k where "k \<le> length sample_actions"
    "map ts_usage (ss_chain (fst (run_stream (\<lambda>_. ''id'') True 0 False 1 [sample_turn] ''model'' False sample_actions EndNormal)))
     = map (charge (last_reports None (take k sample_actions))) (map ts_usage [sample_turn])"
    using stream_usage_charged_once [of True sample_actions 0 False "\<lambda>_. ''id''" 1 "[sample_turn]" "''model''" False EndNormal]
    unfolding if_True by blast
  then show ?thesis unfolding len usage by (intro exI [of _ k] conjI)
qed

section \<open>Messages\<close>

text \<open>
  C9: Input the gate accepts is bounded. A text has at most 256 KiB and is not blank. A list has 1
  to 64 blocks, each of them a text or an image whose base64 data decode to at most 512 KiB of a
  known image format; there are at most 8 images, at most 256 KiB of text and at most 4 MiB of text
  and image bytes together, and some block is an image or a text that is not blank.
\<close>

theorem normalized_input_bounded:
  assumes "normalize_input b64decode given = Inr v"
  shows "v = given \<and> bounded_input b64decode given"
proof (cases given)
  case (JList blocks)
  then have list: "blocks \<noteq> []" "length blocks \<le> 64"
    using assms by (simp_all add: normalize_input_def split: if_split_asm)
  then obtain t where t: "input_blocks b64decode blocks no_input = Inr t"
    using assms JList by (cases "input_blocks b64decode blocks no_input") (simp_all add: normalize_input_def)
  with assms list JList have "it_text t \<le> MAX_TEXT_BYTES" "it_size t + it_text t \<le> MAX_INPUT_BYTES"
    "it_images t \<le> MAX_IMAGES" "it_meaningful t" "v = given"
    by (simp_all add: normalize_input_def split: if_split_asm)
  with input_blocks_carry [OF t] list JList show ?thesis
    by (auto simp: bounded_input_def no_input_def input_limits Suc_le_eq)
qed (use assms in \<open>auto simp: normalize_input_def bounded_input_def input_limits split: if_splits\<close>)

definition sample_image :: json where
  "sample_image = JObj [(''type'', JStr ''image''), (''source'', JObj [(''type'', JStr ''base64''),
     (''media_type'', JStr ''image/jpeg''), (''data'', JStr ''/9j/'')])]"

lemma sample_image_data: "image_data (\<lambda>_. Some [0xFF, 0xD8, 0xFF]) (JObj [(''type'', JStr ''base64''),
     (''media_type'', JStr ''image/jpeg''), (''data'', JStr ''/9j/'')]) = Inr [0xFF, 0xD8, 0xFF]"
  by (simp add: image_data_def image_block_def detect_image_def byte_prefix_def keys_are_def jget_def dict_get_def dict_get_or_def
      MAX_IMAGE_BYTES_def insert_commute del: rbind_Inr_iff)

lemma sample_image_accepted:
  "normalize_input (\<lambda>_. Some [0xFF, 0xD8, 0xFF]) (JList [sample_image]) = Inr (JList [sample_image])"
  by (simp add: normalize_input_def input_block_def sample_image_def no_input_def has_type_def keys_are_def jget_def dict_get_def dict_get_or_def
     sample_image_data MAX_TEXT_BYTES_def MAX_INPUT_BYTES_def MAX_IMAGES_def del: rbind_Inr_iff)

theorem normalized_input_bounded_witness:
  "bounded_input (\<lambda>_. Some [0xFF, 0xD8, 0xFF]) (JList [sample_image])"
  using normalized_input_bounded [OF sample_image_accepted] by simp

end
